theory Spec2Isabelle
  imports Complex_Main
begin

section \<open>Numbers, vectors and matrices\<close>

text \<open>
  The program computes with Python and numpy floating-point numbers. The embedding
  idealises them as real numbers: every arithmetic operation is exact. Where the
  program would raise an exception the model returns \<open>Inl\<close> of a \<open>py_error\<close>;
  where it would produce a NaN or an infinity (numpy does not raise there) the model
  stops with \<open>NonFinite\<close>. A Python list of floats and a numpy vector are both a
  \<open>real list\<close>; a numpy matrix is the list of its rows.
\<close>

datatype py_error =
    IndexError
  | ZeroDivisionError
  | ValueError
  | LinAlgError
  | UnboundLocalError
  | NonFinite

type_synonym vec = "real list"
type_synonym mat = "real list list"

fun dot :: "vec \<Rightarrow> vec \<Rightarrow> real" where
  "dot (x # xs) (y # ys) = x * y + dot xs ys"
| "dot _ _ = 0"

definition vadd :: "vec \<Rightarrow> vec \<Rightarrow> vec" where
  "vadd u v = map2 (+) u v"

definition vsub :: "vec \<Rightarrow> vec \<Rightarrow> vec" where
  "vsub u v = map2 (-) u v"

definition smul :: "real \<Rightarrow> vec \<Rightarrow> vec" where
  "smul a v = map ((*) a) v"

text \<open>\<open>np.dot(M, b)\<close> for an \<open>(n,n)\<close> matrix and an \<open>(n,1)\<close> column.\<close>

definition matvec :: "mat \<Rightarrow> vec \<Rightarrow> vec" where
  "matvec M b = map (\<lambda>r. dot r b) M"

text \<open>The linear combination \<open>a\<^sub>0 X\<^sub>0 + a\<^sub>1 X\<^sub>1 + ...\<close> of vectors of length \<open>m\<close>.\<close>

fun lincomb :: "vec \<Rightarrow> vec list \<Rightarrow> nat \<Rightarrow> vec" where
  "lincomb (a # as) (X # Xs) m = vadd (smul a X) (lincomb as Xs m)"
| "lincomb _ _ m = replicate m 0"

definition unit_vec :: "nat \<Rightarrow> nat \<Rightarrow> vec" where
  "unit_vec n k = map (\<lambda>i. if i = k then 1 else 0) [0..<n]"

definition identity :: "nat \<Rightarrow> mat" where
  "identity n = map (unit_vec n) [0..<n]"

subsection \<open>\<open>numpy.linalg.inv\<close>\<close>

text \<open>
  \<open>numpy.linalg.inv\<close> solves \<open>B X = I\<close> by elimination with row pivoting and raises
  \<open>LinAlgError\<close> when no pivot is left. \<open>inv_np\<close> is this elimination in exact
  arithmetic, where the answer does not depend on which nonzero pivot is taken; the
  model takes the first one. It is an idealisation: it raises exactly for the singular
  matrices and returns the exact inverse otherwise, whereas the routine on
  floating-point numbers can return a matrix for a singular input and an inaccurate
  inverse for an ill-conditioned one. What depends on that difference is stated for
  the solver with the inversion routine left open
  (\<open>calculate_dependent_shape_coefficients_with\<close>). A row of the augmented system is a
  pair: the coefficients still to be eliminated and the row of the right-hand side.
\<close>

type_synonym aug_row = "vec \<times> vec"

fun extract_pivot :: "aug_row list \<Rightarrow> ((real \<times> vec \<times> vec) \<times> aug_row list) option" where
  "extract_pivot [] = None"
| "extract_pivot (([], c) # rows) = None"
| "extract_pivot ((a # r, c) # rows) =
     (if a \<noteq> 0 then Some ((a, r, c), rows)
      else (case extract_pivot rows of
              None \<Rightarrow> None
            | Some (p, rest) \<Rightarrow> Some (p, (a # r, c) # rest)))"

fun eliminate :: "vec \<Rightarrow> vec \<Rightarrow> aug_row \<Rightarrow> aug_row" where
  "eliminate pr pc ([], c) = ([], c)"
| "eliminate pr pc (a # r, c) = (vsub r (smul a pr), vsub c (smul a pc))"

primrec gauss :: "nat \<Rightarrow> nat \<Rightarrow> aug_row list \<Rightarrow> vec list option" where
  "gauss 0 m rows = (if rows = [] then Some [] else None)"
| "gauss (Suc k) m rows =
     (case extract_pivot rows of
        None \<Rightarrow> None
      | Some ((a, r, c), rest) \<Rightarrow>
          (let pr = map (\<lambda>x. x / a) r;
               pc = map (\<lambda>x. x / a) c
           in case gauss k m (map (eliminate pr pc) rest) of
                None \<Rightarrow> None
              | Some X \<Rightarrow> Some (vsub pc (lincomb pr X m) # X)))"

definition inv_np :: "mat \<Rightarrow> py_error + mat" where
  "inv_np B = (let n = length B in
     case gauss n n (zip B (identity n)) of
       None \<Rightarrow> Inl LinAlgError
     | Some X \<Rightarrow> Inr X)"

subsection \<open>Bernstein basis\<close>

text \<open>The local function \<open>K(r,n)\<close> of both solvers: a quotient of factorials.\<close>

definition K :: "nat \<Rightarrow> nat \<Rightarrow> real" where
  "K r n = real (fact n) / (real (fact r) * real (fact (n - r)))"

text \<open>
  The matrix filled by the double loop \<open>for j in range(n): for i in range(n)\<close> with
  \<open>r = i + 1\<close> and entry \<open>K(r,n)*(psi[j]**r)*(1-psi[j])**(n-r)\<close>. The same loop builds
  \<open>B\<close> (backwards), \<open>F\<close> (forwards) and \<open>T\<close> (tracing).
\<close>

definition bernstein_row :: "nat \<Rightarrow> real \<Rightarrow> vec" where
  "bernstein_row n psi =
     map (\<lambda>i. K (i + 1) n * psi ^ (i + 1) * (1 - psi) ^ (n - (i + 1))) [0..<n]"

definition bernstein_matrix :: "nat \<Rightarrow> vec \<Rightarrow> mat" where
  "bernstein_matrix n psis = map (\<lambda>j. bernstein_row n (psis ! j)) [0..<n]"


section \<open>The geometric collaborators\<close>

text \<open>
  \<open>camber_2D.py\<close> imports its geometric primitives from \<open>aeropy.CST_2D.module\<close>,
  which is not part of the sources at hand. The solvers are therefore modelled over an
  arbitrary family of primitives, passed as a record whose fields carry the names and
  the argument order of the imported functions; each is a pure real-valued function,
  as the specification describes it.
\<close>

record primitives =
  calculate_c_baseline :: "real \<Rightarrow> vec \<Rightarrow> vec \<Rightarrow> real \<Rightarrow> real"
  calculate_spar_distance :: "real \<Rightarrow> vec \<Rightarrow> vec \<Rightarrow> vec \<Rightarrow> real \<Rightarrow> real \<Rightarrow> real"
  calculate_psi_goal :: "real \<Rightarrow> vec \<Rightarrow> vec \<Rightarrow> real \<Rightarrow> real \<Rightarrow> real \<Rightarrow> real"
  calculate_spar_direction :: "real \<Rightarrow> vec \<Rightarrow> vec \<Rightarrow> real \<Rightarrow> real \<Rightarrow> real \<times> real"
  calculate_arc_length :: "real \<Rightarrow> real \<Rightarrow> vec \<Rightarrow> real \<Rightarrow> real \<Rightarrow> real"

text \<open>
  Modelled from the spec: the CST evaluator \<open>aeropy.geometry.airfoil.CST\<close> is missing
  from the sources. The specification describes it as a class function times a
  Bernstein-polynomial shape function, with exponents \<open>0.5\<close> and \<open>1.0\<close>, plus the
  trailing-edge term; the right-hand sides assembled by the solver invert exactly this
  formula. \<open>CST_shape A psi\<close> is the shape function of order \<open>length A - 1\<close>;
  \<open>CST_u\<close> and \<open>CST_l\<close> are the upper and lower heights at the chordwise position
  \<open>x\<close> for chord \<open>c\<close> and trailing-edge offsets \<open>dz_u\<close>, \<open>dz_l\<close>.
\<close>

definition CST_shape :: "vec \<Rightarrow> real \<Rightarrow> real" where
  "CST_shape A psi =
     (\<Sum>r < length A. K r (length A - 1) * A ! r * psi ^ r * (1 - psi) ^ (length A - 1 - r))"

definition CST_u :: "real \<Rightarrow> real \<Rightarrow> real \<Rightarrow> vec \<Rightarrow> real" where
  "CST_u x c dz_u Au =
     c * (sqrt (x / c) * (1 - x / c) * CST_shape Au (x / c) + (x / c) * dz_u / c)"

definition CST_l :: "real \<Rightarrow> real \<Rightarrow> real \<Rightarrow> vec \<Rightarrow> real" where
  "CST_l x c dz_l Al =
     c * (- (sqrt (x / c) * (1 - x / c)) * CST_shape Al (x / c) - (x / c) * dz_l / c)"

section \<open>The dependent-coefficient solver\<close>

text \<open>
  The closure \<open>calculate_AC_u0\<close>. The quotient \<open>c_P/c_C\<close> raises on a zero chord; the
  square root of a negative quotient is a NaN.
\<close>

definition calculate_AC_u0 ::
  "primitives \<Rightarrow> vec \<Rightarrow> vec \<Rightarrow> real \<Rightarrow> real \<Rightarrow> real \<Rightarrow> py_error + real" where
  "calculate_AC_u0 P Au_C_1_to_n Au_P deltaz c_P AC_u0 =
     (let Au_C = AC_u0 # Au_C_1_to_n;
          c_C = calculate_c_baseline P c_P Au_C Au_P deltaz
      in if c_C = 0 then Inl ZeroDivisionError
         else if Au_P = [] then Inl IndexError
         else if c_P / c_C < 0 then Inl NonFinite
         else Inr (sqrt (c_P / c_C) * Au_P ! 0))"

text \<open>
  The loop \<open>while error > 1e-9: before = AC_u0; AC_u0 = f(AC_u0); error = abs(AC_u0 - before)\<close>.
  It has no iteration bound, so the model is a partial function: \<open>None\<close> is a run that
  never leaves the loop.
\<close>

partial_function (option) AC_u0_loop ::
  "(real \<Rightarrow> py_error + real) \<Rightarrow> real \<Rightarrow> real \<Rightarrow> (py_error + real) option" where
  "AC_u0_loop f error AC_u0 =
     (if error > 1 / 10 ^ 9 then
        (case f AC_u0 of
           Inl e \<Rightarrow> Some (Inl e)
         | Inr a \<Rightarrow> AC_u0_loop f \<bar>a - AC_u0\<bar> a)
      else Some (Inr AC_u0))"

text \<open>One entry of \<open>b_list\<close> (backwards mode), with the exceptions of its evaluation.\<close>

definition b_entry :: "real \<Rightarrow> real \<Rightarrow> real \<Rightarrow> nat \<Rightarrow> real \<Rightarrow> real \<Rightarrow> py_error + real" where
  "b_entry c_C deltaz A0 n psi_j t_j =
     (if c_C = 0 then Inl ZeroDivisionError
      else if psi_j < 0 then Inl ValueError
      else if sqrt psi_j * (1 - psi_j) = 0 then Inl ZeroDivisionError
      else Inr ((t_j / c_C - psi_j * deltaz / c_C) / (sqrt psi_j * (1 - psi_j))
                - A0 * (1 - psi_j) ^ n))"

text \<open>
  The loop \<open>for j in range(len(psi_spars))\<close> of backwards mode. The arguments are the
  stations still to visit, the index \<open>j\<close>, and the two accumulators; \<open>b_list\<close> starts
  as \<open>n\<close> zeros, and writing past its end raises \<open>IndexError\<close>.
\<close>

fun b_loop ::
  "primitives \<Rightarrow> vec \<Rightarrow> vec \<Rightarrow> vec \<Rightarrow> real \<Rightarrow> real \<Rightarrow> real \<Rightarrow> real \<Rightarrow> nat \<Rightarrow>
     vec \<Rightarrow> nat \<Rightarrow> vec \<Rightarrow> vec \<Rightarrow> py_error + vec \<times> vec" where
  "b_loop P Au_C Au_P Al_P deltaz c_P c_C A0 n [] j spar_thicknesses b_list =
     Inr (spar_thicknesses, b_list)"
| "b_loop P Au_C Au_P Al_P deltaz c_P c_C A0 n (psi_j # rest) j spar_thicknesses b_list =
     (let t_j = calculate_spar_distance P psi_j Au_C Au_P Al_P deltaz c_P
      in case b_entry c_C deltaz A0 n psi_j t_j of
           Inl e \<Rightarrow> Inl e
         | Inr v \<Rightarrow>
             if j < length b_list
             then b_loop P Au_C Au_P Al_P deltaz c_P c_C A0 n rest (j + 1)
                    (spar_thicknesses @ [t_j]) (b_list[j := v])
             else Inl IndexError)"

type_synonym result = "vec \<times> vec \<times> real \<times> vec"

definition backwards ::
  "primitives \<Rightarrow> vec \<Rightarrow> vec \<Rightarrow> vec \<Rightarrow> vec \<Rightarrow> real \<Rightarrow> real \<Rightarrow> real \<Rightarrow> real \<Rightarrow> real \<Rightarrow> nat \<Rightarrow>
     py_error + result" where
  "backwards P psi_spars Au_C Au_P Al_P deltaz c_P c_C AC_l0 A0 n =
     (case b_loop P Au_C Au_P Al_P deltaz c_P c_C A0 n psi_spars 0 [] (replicate n 0) of
        Inl e \<Rightarrow> Inl e
      | Inr (spar_thicknesses, b_list) \<Rightarrow>
          if length psi_spars < n then Inl IndexError
          else (case inv_np (bernstein_matrix n psi_spars) of
                  Inl e \<Rightarrow> Inl e
                | Inr B_inv \<Rightarrow>
                    (let A_bar = matvec B_inv b_list;
                         Al_C = AC_l0 # map (\<lambda>i. A_bar ! i - Au_C ! (i + 1)) [0..<length A_bar]
                     in Inr (Au_C, Al_C, c_C, spar_thicknesses))))"

text \<open>
  One entry of \<open>f\<close> (forwards mode). Its operands are numpy floats: a negative base
  under the square root or a zero divisor gives a NaN or an infinity, not an exception.
\<close>

definition f_entry :: "real \<Rightarrow> real \<Rightarrow> real \<Rightarrow> nat \<Rightarrow> real \<Rightarrow> real \<Rightarrow> py_error + real" where
  "f_entry c_C deltaz AC_l0 n psi_l_j xi_l_j =
     (if psi_l_j < 0 \<or> 2 * sqrt psi_l_j * (psi_l_j - 1) = 0 then Inl NonFinite
      else Inr ((2 * xi_l_j + psi_l_j * deltaz / c_C) / (2 * sqrt psi_l_j * (psi_l_j - 1))
                - AC_l0 * (1 - psi_l_j) ^ n))"

text \<open>
  The loop \<open>for j in range(len(psi_spars))\<close> of forwards mode; \<open>psi_upper_children[j]\<close>
  and \<open>xi_upper_children[j]\<close>, computed before the loop in the program, are computed
  here where they are used. The accumulators are \<open>spar_thicknesses\<close>,
  \<open>psi_lower_children\<close> and \<open>f\<close>.
\<close>

fun f_loop ::
  "primitives \<Rightarrow> vec \<Rightarrow> vec \<Rightarrow> vec \<Rightarrow> real \<Rightarrow> real \<Rightarrow> real \<Rightarrow> real \<Rightarrow> nat \<Rightarrow>
     vec \<Rightarrow> nat \<Rightarrow> vec \<Rightarrow> vec \<Rightarrow> vec \<Rightarrow> py_error + vec \<times> vec \<times> vec" where
  "f_loop P Au_C Au_P Al_P deltaz c_P c_C AC_l0 n [] j spar_thicknesses psi_lower_children f =
     Inr (spar_thicknesses, psi_lower_children, f)"
| "f_loop P Au_C Au_P Al_P deltaz c_P c_C AC_l0 n (psi_j # rest) j spar_thicknesses
      psi_lower_children f =
     (if c_P = 0 then Inl ZeroDivisionError
      else
        (let psi_u_j = calculate_psi_goal P psi_j Au_P Au_C deltaz c_P c_C;
             xi_u_j = CST_u psi_u_j 1 (deltaz / 2 / c_C) Au_C;
             delta_j_P = CST_u psi_j 1 (deltaz / 2 / c_P) Au_P
                         - CST_l psi_j 1 (deltaz / 2 / c_P) Al_P;
             t_j = c_P * delta_j_P;
             s_j = calculate_spar_direction P psi_j Au_P Au_C deltaz c_C;
             psi_l_j = psi_u_j - delta_j_P / c_C * fst s_j;
             xi_l_j = xi_u_j - delta_j_P / c_C * snd s_j
         in if \<not> j < length f then Inl IndexError
            else if psi_j < 0 \<or> psi_u_j < 0 then Inl NonFinite
            else (case f_entry c_C deltaz AC_l0 n psi_l_j xi_l_j of
                    Inl e \<Rightarrow> Inl e
                  | Inr v \<Rightarrow>
                      f_loop P Au_C Au_P Al_P deltaz c_P c_C AC_l0 n rest (j + 1)
                        (spar_thicknesses @ [t_j]) (psi_lower_children @ [psi_l_j])
                        (f[j := v]))))"

definition forwards ::
  "primitives \<Rightarrow> vec \<Rightarrow> vec \<Rightarrow> vec \<Rightarrow> vec \<Rightarrow> real \<Rightarrow> real \<Rightarrow> real \<Rightarrow> real \<Rightarrow> nat \<Rightarrow>
     py_error + result" where
  "forwards P psi_spars Au_C Au_P Al_P deltaz c_P c_C AC_l0 n =
     (case f_loop P Au_C Au_P Al_P deltaz c_P c_C AC_l0 n psi_spars 0 [] [] (replicate n 0) of
        Inl e \<Rightarrow> Inl e
      | Inr (spar_thicknesses, psi_lower_children, f) \<Rightarrow>
          if length psi_lower_children < n then Inl IndexError
          else (case inv_np (bernstein_matrix n psi_lower_children) of
                  Inl e \<Rightarrow> Inl e
                | Inr F_inv \<Rightarrow>
                    (let A_lower = matvec F_inv f;
                         Al_C = AC_l0 # map (\<lambda>i. A_lower ! i) [0..<length A_lower]
                     in Inr (Au_C, Al_C, c_C, spar_thicknesses))))"

text \<open>
  Everything after the \<open>while\<close> loop: the child chord, \<open>AC_l0\<close>, and the branch on
  \<open>morphing\<close>. A string that is neither \<open>'backwards'\<close> nor \<open>'forwards'\<close> leaves \<open>Al_C\<close>
  unbound at the \<open>return\<close>.
\<close>

definition after_loop ::
  "primitives \<Rightarrow> vec \<Rightarrow> vec \<Rightarrow> vec \<Rightarrow> vec \<Rightarrow> real \<Rightarrow> real \<Rightarrow> string \<Rightarrow> real \<Rightarrow>
     py_error + result" where
  "after_loop P Au_C_1_to_n psi_spars Au_P Al_P deltaz c_P morphing AC_u0 =
     (let n = length Au_C_1_to_n;
          Au_C = AC_u0 # Au_C_1_to_n;
          c_C = calculate_c_baseline P c_P Au_C Au_P deltaz
      in if c_C = 0 then Inl ZeroDivisionError
         else if Al_P = [] then Inl IndexError
         else if c_P / c_C < 0 then Inl NonFinite
         else
           (let AC_l0 = sqrt (c_P / c_C) * Al_P ! 0;
                A0 = AC_u0 + AC_l0
            in if morphing = ''backwards''
               then backwards P psi_spars Au_C Au_P Al_P deltaz c_P c_C AC_l0 A0 n
               else if morphing = ''forwards''
               then forwards P psi_spars Au_C Au_P Al_P deltaz c_P c_C AC_l0 n
               else Inl UnboundLocalError))"

definition calculate_dependent_shape_coefficients ::
  "primitives \<Rightarrow> vec \<Rightarrow> vec \<Rightarrow> vec \<Rightarrow> vec \<Rightarrow> real \<Rightarrow> real \<Rightarrow> string \<Rightarrow>
     (py_error + result) option" where
  "calculate_dependent_shape_coefficients P Au_C_1_to_n psi_spars Au_P Al_P deltaz c_P morphing =
     (if Au_P = [] then Some (Inl IndexError)
      else
        (case AC_u0_loop (calculate_AC_u0 P Au_C_1_to_n Au_P deltaz c_P) 9999 (Au_P ! 0) of
           None \<Rightarrow> None
         | Some (Inl e) \<Rightarrow> Some (Inl e)
         | Some (Inr AC_u0) \<Rightarrow>
             Some (after_loop P Au_C_1_to_n psi_spars Au_P Al_P deltaz c_P morphing AC_u0)))"

section \<open>The shape-tracing fit\<close>

text \<open>
  \<open>base ** e\<close> on numpy floats: a positive base takes any exponent, zero takes a
  non-negative one, a negative base takes an integral one; everything else is a NaN or
  an infinity.
\<close>

definition np_power :: "real \<Rightarrow> real \<Rightarrow> py_error + real" where
  "np_power x e =
     (if 0 < x then Inr (x powr e)
      else if x = 0 then (if e = 0 then Inr 1 else if 0 < e then Inr 0 else Inl NonFinite)
      else if e = of_int \<lfloor>e\<rfloor> then Inr (power_int x \<lfloor>e\<rfloor>)
      else Inl NonFinite)"

definition t_entry ::
  "real \<Rightarrow> nat \<Rightarrow> real \<Rightarrow> real \<Rightarrow> real \<Rightarrow> real \<Rightarrow> real \<Rightarrow> py_error + real" where
  "t_entry A0 n N1 N2 EndThickness Psi_j Xi_j =
     (case np_power Psi_j N1 of
        Inl e \<Rightarrow> Inl e
      | Inr p1 \<Rightarrow>
          (case np_power (1 - Psi_j) N2 of
             Inl e \<Rightarrow> Inl e
           | Inr p2 \<Rightarrow>
               if p1 * p2 = 0 then Inl NonFinite
               else Inr ((Xi_j - Psi_j * EndThickness) / (p1 * p2) - A0 * (1 - Psi_j) ^ n)))"

text \<open>The first failure of a list of computations, or all their values.\<close>

fun collect :: "(py_error + 'a) list \<Rightarrow> py_error + 'a list" where
  "collect [] = Inr []"
| "collect (Inl e # rs) = Inl e"
| "collect (Inr v # rs) = (case collect rs of Inl e \<Rightarrow> Inl e | Inr vs \<Rightarrow> Inr (v # vs))"

definition calculate_shape_coefficients_tracing ::
  "real \<Rightarrow> vec \<Rightarrow> vec \<Rightarrow> real \<Rightarrow> real \<Rightarrow> real \<Rightarrow> real \<Rightarrow> py_error + vec" where
  "calculate_shape_coefficients_tracing A0 x y N1 N2 chord EndThickness =
     (let n = length x
      in if chord = 0 then Inl ZeroDivisionError
         else
           (let Psi = map (\<lambda>v. v / chord) x;
                Xi = map (\<lambda>v. v / chord) y;
                EndThickness = EndThickness / chord
            in if length y < n then Inl IndexError
               else (case collect (map (\<lambda>jj. t_entry A0 n N1 N2 EndThickness (Psi ! jj) (Xi ! jj))
                                     [0..<n]) of
                       Inl e \<Rightarrow> Inl e
                     | Inr t \<Rightarrow>
                         (case inv_np (bernstein_matrix n Psi) of
                            Inl e \<Rightarrow> Inl e
                          | Inr T_inv \<Rightarrow> Inr (A0 # matvec T_inv t)))))"

section \<open>The strain evaluator\<close>

fun flats_loop ::
  "primitives \<Rightarrow> vec \<Rightarrow> vec \<Rightarrow> real \<Rightarrow> real \<Rightarrow> real \<Rightarrow> vec \<Rightarrow> vec \<Rightarrow> nat \<Rightarrow> vec \<Rightarrow>
     py_error + vec" where
  "flats_loop P Au_P Au_C deltaz c_P c_C spar_thicknesses [] j psi_flats = Inr psi_flats"
| "flats_loop P Au_P Au_C deltaz c_P c_C spar_thicknesses (psi_parent_j # rest) j psi_flats =
     (let psi_children_j = calculate_psi_goal P psi_parent_j Au_P Au_C deltaz c_P c_C;
          x_children_j = psi_children_j * c_C;
          s = calculate_spar_direction P psi_parent_j Au_P Au_C deltaz c_C
      in if j < length spar_thicknesses
         then flats_loop P Au_P Au_C deltaz c_P c_C spar_thicknesses rest (j + 1)
                (psi_flats @ [x_children_j - spar_thicknesses ! j * fst s])
         else Inl IndexError)"

text \<open>The pairs \<open>(psi_list[i], psi_list[i+1])\<close> for \<open>i in range(len(psi_list)-1)\<close>.\<close>

definition segments :: "vec \<Rightarrow> (real \<times> real) list" where
  "segments psi_list = zip psi_list (tl psi_list)"

fun strain_list :: "vec \<Rightarrow> vec \<Rightarrow> py_error + vec" where
  "strain_list [] initial_lengths = Inr []"
| "strain_list (fl # final_lengths) [] = Inl IndexError"
| "strain_list (fl # final_lengths) (il # initial_lengths) =
     (if il = 0 then Inl ZeroDivisionError
      else (case strain_list final_lengths initial_lengths of
              Inl e \<Rightarrow> Inl e
            | Inr strains \<Rightarrow> Inr ((fl - il) / il # strains)))"

definition calculate_strains ::
  "primitives \<Rightarrow> vec \<Rightarrow> vec \<Rightarrow> real \<Rightarrow> vec \<Rightarrow> vec \<Rightarrow> real \<Rightarrow> real \<Rightarrow> vec \<Rightarrow> vec \<Rightarrow>
     py_error + vec \<times> real" where
  "calculate_strains P Au_P Al_P c_P Au_C Al_C c_C deltaz psi_spars spar_thicknesses =
     (case flats_loop P Au_P Au_C deltaz c_P c_C spar_thicknesses psi_spars 0 [] of
        Inl e \<Rightarrow> Inl e
      | Inr psi_flats \<Rightarrow>
          (let initial_lengths =
                 map (\<lambda>(a, b). calculate_arc_length P a b Al_P deltaz c_P)
                   (segments ([0] @ psi_spars @ [c_P]))
           in if c_C = 0 then Inl ZeroDivisionError
              else
                (let final_lengths =
                       map (\<lambda>(a, b). calculate_arc_length P (a * c_P / c_C) (b * c_P / c_C)
                                        Al_C deltaz c_C)
                         (segments ([0] @ psi_flats @ [c_C]))
                 in case strain_list final_lengths initial_lengths of
                      Inl e \<Rightarrow> Inl e
                    | Inr strains \<Rightarrow>
                        if sum_list initial_lengths = 0 then Inl ZeroDivisionError
                        else Inr (strains,
                                  (sum_list final_lengths - sum_list initial_lengths)
                                  / sum_list initial_lengths))))"

section \<open>The quantities of the specification\<close>

text \<open>
  The entry of row \<open>j\<close>, column \<open>i\<close> of the Bernstein matrix in the words of the
  specification: \<open>C(n, i+1) * psi_j^(i+1) * (1-psi_j)^(n-(i+1))\<close>.
\<close>

definition spec_bernstein_entry :: "nat \<Rightarrow> real \<Rightarrow> nat \<Rightarrow> real" where
  "spec_bernstein_entry n psi i =
     real (n choose (i + 1)) * psi ^ (i + 1) * (1 - psi) ^ (n - (i + 1))"

text \<open>
  The right-hand side of the tracing fit in the words of the specification:
  \<open>(y_i/chord - (x_i/chord)*end_thickness/chord) / ((x_i/chord)^exponent1 *
  (1-x_i/chord)^exponent2) - leading_coeff*(1-x_i/chord)^n\<close>.
\<close>

definition spec_tracing_rhs ::
  "real \<Rightarrow> nat \<Rightarrow> real \<Rightarrow> real \<Rightarrow> real \<Rightarrow> real \<Rightarrow> real \<Rightarrow> real \<Rightarrow> real" where
  "spec_tracing_rhs leading_coeff n exponent1 exponent2 chord end_thickness x_i y_i =
     (y_i / chord - (x_i / chord) * end_thickness / chord)
       / ((x_i / chord) powr exponent1 * (1 - x_i / chord) powr exponent2)
     - leading_coeff * (1 - x_i / chord) ^ n"

text \<open>
  The thickness that forwards mode records for a station: the parent chord times the
  difference of the parent's upper and lower CST heights at that same station.
\<close>

definition parent_vertical_thickness :: "vec \<Rightarrow> vec \<Rightarrow> real \<Rightarrow> real \<Rightarrow> real \<Rightarrow> real" where
  "parent_vertical_thickness Au_P Al_P deltaz c_P psi =
     c_P * (CST_u psi 1 (deltaz / 2 / c_P) Au_P - CST_l psi 1 (deltaz / 2 / c_P) Al_P)"

text \<open>
  The thickness of the specification's \<open>SparResult\<close>: the distance between the upper
  and the lower surface measured from the upper-surface point of the station along the
  direction orthogonal to the tangent of the upper surface there. With tangent
  \<open>(1, m)\<close> the unit normal is \<open>(m, -1) / sqrt (1 + m\<^sup>2)\<close>; \<open>t\<close> is such a thickness
  when the point at distance \<open>t\<close> along the normal, in one sense or the other, lies on
  the lower surface.
\<close>

definition on_lower_surface :: "vec \<Rightarrow> real \<Rightarrow> real \<Rightarrow> real \<times> real \<Rightarrow> bool" where
  "on_lower_surface Al deltaz c p \<longleftrightarrow>
     0 \<le> fst p \<and> fst p \<le> c \<and> snd p = CST_l (fst p) c (deltaz / 2) Al"

definition orthogonal_thickness :: "vec \<Rightarrow> vec \<Rightarrow> real \<Rightarrow> real \<Rightarrow> real \<Rightarrow> real \<Rightarrow> bool" where
  "orthogonal_thickness Au Al deltaz c psi t \<longleftrightarrow>
     0 \<le> t \<and>
     (\<exists>m. ((\<lambda>x. CST_u x c (deltaz / 2) Au) has_real_derivative m) (at (psi * c)) \<and>
        (on_lower_surface Al deltaz c
           (psi * c + t * (m / sqrt (1 + m\<^sup>2)),
            CST_u (psi * c) c (deltaz / 2) Au - t * (1 / sqrt (1 + m\<^sup>2))) \<or>
         on_lower_surface Al deltaz c
           (psi * c - t * (m / sqrt (1 + m\<^sup>2)),
            CST_u (psi * c) c (deltaz / 2) Au + t * (1 / sqrt (1 + m\<^sup>2)))))"

section \<open>Concrete primitives\<close>

text \<open>
  Modelled from the spec: the primitives of \<open>aeropy.CST_2D.module\<close> are missing from
  the sources, so a run of the solvers on a concrete input needs concrete values for
  them. \<open>unmorphed\<close> gives the values the specification's contracts assign when
  nothing morphs: the baseline chord is the given chord, a station maps to itself, a
  spar stays vertical and its distance is the CST thickness at its station. The arc
  length is that of a flat surface, the chord times the difference of the bounds.
\<close>

definition unmorphed :: primitives where
  "unmorphed =
     \<lparr> calculate_c_baseline = (\<lambda>c_L Au_C Au_L deltaz. c_L),
       calculate_spar_distance = (\<lambda>psi Au_b Au_g Al_g deltaz c.
          CST_u (psi * c) c (deltaz / 2) Au_g - CST_l (psi * c) c (deltaz / 2) Al_g),
       calculate_psi_goal = (\<lambda>psi Au_b Au_g deltaz c_b c_g. psi),
       calculate_spar_direction = (\<lambda>psi Au_b Au_g deltaz c. (0, 1)),
       calculate_arc_length = (\<lambda>a b A deltaz c. c * (b - a)) \<rparr>"

text \<open>
  Two variations: a baseline chord that makes \<open>AC_u0\<close> alternate between \<open>1\<close> and
  \<open>2\<close>, and one that moves \<open>AC_u0\<close> from \<open>1\<close> by exactly \<open>1e-9\<close>.
\<close>

definition oscillating :: primitives where
  "oscillating = unmorphed
     \<lparr> calculate_c_baseline := (\<lambda>c_L Au_C Au_L deltaz. if hd Au_C = 1 then c_L / 4 else c_L) \<rparr>"

definition on_tolerance :: primitives where
  "on_tolerance = unmorphed
     \<lparr> calculate_c_baseline := (\<lambda>c_L Au_C Au_L deltaz. c_L * 10 ^ 18 / (10 ^ 9 + 1) ^ 2) \<rparr>"

section \<open>Notions used in the proofs\<close>

text \<open>Rows of an augmented system with \<open>k\<close> unknowns and right-hand sides of length \<open>m\<close>.\<close>

definition wf_rows :: "nat \<Rightarrow> nat \<Rightarrow> aug_row list \<Rightarrow> bool" where
  "wf_rows k m rows \<longleftrightarrow> (\<forall>(r, c) \<in> set rows. length r = k \<and> length c = m)"

text \<open>Only the zero vector is orthogonal to every row.\<close>

definition injective_rows :: "nat \<Rightarrow> aug_row list \<Rightarrow> bool" where
  "injective_rows k rows \<longleftrightarrow>
     (\<forall>y. length y = k \<longrightarrow> (\<forall>(r, c) \<in> set rows. dot r y = 0) \<longrightarrow> y = replicate k 0)"

text \<open>
  The successive values of \<open>AC_u0\<close>: \<open>AC_u0_iterates f k x\<close> is the value after \<open>k\<close>
  passes through the loop body started at \<open>x\<close>, or the exception raised on the way.
  \<open>within_tolerance_at f x k\<close> says that passes \<open>k\<close> and \<open>k + 1\<close> both exist and
  differ by at most \<open>1e-9\<close>; \<open>beyond_tolerance_at\<close> that they differ by more.
\<close>

fun AC_u0_iterates :: "(real \<Rightarrow> py_error + real) \<Rightarrow> nat \<Rightarrow> real \<Rightarrow> py_error + real" where
  "AC_u0_iterates f 0 x = Inr x"
| "AC_u0_iterates f (Suc k) x = (case f x of Inl e \<Rightarrow> Inl e | Inr a \<Rightarrow> AC_u0_iterates f k a)"

definition within_tolerance_at :: "(real \<Rightarrow> py_error + real) \<Rightarrow> real \<Rightarrow> nat \<Rightarrow> bool" where
  "within_tolerance_at f x k =
     (case (AC_u0_iterates f k x, AC_u0_iterates f (Suc k) x) of
        (Inr u, Inr v) \<Rightarrow> \<bar>v - u\<bar> \<le> 1 / 10 ^ 9
      | _ \<Rightarrow> False)"

definition beyond_tolerance_at :: "(real \<Rightarrow> py_error + real) \<Rightarrow> real \<Rightarrow> nat \<Rightarrow> bool" where
  "beyond_tolerance_at f x k =
     (case (AC_u0_iterates f k x, AC_u0_iterates f (Suc k) x) of
        (Inr u, Inr v) \<Rightarrow> \<bar>v - u\<bar> > 1 / 10 ^ 9
      | _ \<Rightarrow> False)"

definition loop_post :: "(real \<Rightarrow> py_error + real) \<Rightarrow> real \<Rightarrow> real \<Rightarrow> py_error + real \<Rightarrow> bool" where
  "loop_post f e x r \<longleftrightarrow>
     (1 / 10 ^ 9 < e \<longrightarrow>
        (\<exists>k. (\<forall>i < k. beyond_tolerance_at f x i) \<and> AC_u0_iterates f (Suc k) x = r \<and>
             (isl r \<or> within_tolerance_at f x k))) \<and>
     (\<not> 1 / 10 ^ 9 < e \<longrightarrow> r = Inr x)"

section \<open>The values assembled by the two branches\<close>

text \<open>
  The value written to \<open>b_list[j]\<close> in backwards mode when nothing is raised:
  \<open>(t_j/c_C - psi_j*deltaz/c_C)/((psi_j**0.5)*(1-psi_j)) - A0*(1-psi_j)**n\<close>.
\<close>

definition b_value :: "real \<Rightarrow> real \<Rightarrow> real \<Rightarrow> nat \<Rightarrow> real \<Rightarrow> real \<Rightarrow> real" where
  "b_value c_C deltaz A0 n psi_j t_j =
     (t_j / c_C - psi_j * deltaz / c_C) / (sqrt psi_j * (1 - psi_j)) - A0 * (1 - psi_j) ^ n"

text \<open>
  The station \<open>psi_l_j\<close> that forwards mode appends to \<open>psi_lower_children\<close> for the
  parent station \<open>psi_j\<close>.
\<close>

definition psi_lower_child ::
  "primitives \<Rightarrow> vec \<Rightarrow> vec \<Rightarrow> vec \<Rightarrow> real \<Rightarrow> real \<Rightarrow> real \<Rightarrow> real \<Rightarrow> real" where
  "psi_lower_child P Au_C Au_P Al_P deltaz c_P c_C psi_j =
     calculate_psi_goal P psi_j Au_P Au_C deltaz c_P c_C
     - (CST_u psi_j 1 (deltaz / 2 / c_P) Au_P - CST_l psi_j 1 (deltaz / 2 / c_P) Al_P) / c_C
       * fst (calculate_spar_direction P psi_j Au_P Au_C deltaz c_C)"

text \<open>
  The ordinate \<open>xi_l_j\<close> that forwards mode computes for the parent station \<open>psi_j\<close>.
\<close>

definition xi_lower_child ::
  "primitives \<Rightarrow> vec \<Rightarrow> vec \<Rightarrow> vec \<Rightarrow> real \<Rightarrow> real \<Rightarrow> real \<Rightarrow> real \<Rightarrow> real" where
  "xi_lower_child P Au_C Au_P Al_P deltaz c_P c_C psi_j =
     CST_u (calculate_psi_goal P psi_j Au_P Au_C deltaz c_P c_C) 1 (deltaz / 2 / c_C) Au_C
     - (CST_u psi_j 1 (deltaz / 2 / c_P) Au_P - CST_l psi_j 1 (deltaz / 2 / c_P) Al_P) / c_C
       * snd (calculate_spar_direction P psi_j Au_P Au_C deltaz c_C)"

text \<open>
  The value written to \<open>f[j]\<close> in forwards mode when nothing is raised:
  \<open>(2*xi_l_j + psi_l_j*deltaz/c_C)/(2*(psi_l_j**0.5)*(psi_l_j-1)) - AC_l0*(1-psi_l_j)**n\<close>.
\<close>

definition f_value :: "real \<Rightarrow> real \<Rightarrow> real \<Rightarrow> nat \<Rightarrow> real \<Rightarrow> real \<Rightarrow> real" where
  "f_value c_C deltaz AC_l0 n psi_l_j xi_l_j =
     (2 * xi_l_j + psi_l_j * deltaz / c_C) / (2 * sqrt psi_l_j * (psi_l_j - 1))
     - AC_l0 * (1 - psi_l_j) ^ n"

section \<open>The solver with the inversion routine left open\<close>

text \<open>
  The two branches and the whole solver once more, with the call of \<open>numpy.linalg.inv\<close>
  left open: \<open>linalg_inv\<close> is any function that gives an exception or a matrix for a
  matrix. Nothing else differs from \<open>backwards\<close>, \<open>forwards\<close>, \<open>after_loop\<close> and
  \<open>calculate_dependent_shape_coefficients\<close>, which are the instances at \<open>inv_np\<close>. What
  is proved of these functions holds whatever the inversion routine does with a
  singular or an ill-conditioned matrix.
\<close>

definition backwards_with ::
  "(mat \<Rightarrow> py_error + mat) \<Rightarrow> primitives \<Rightarrow> vec \<Rightarrow> vec \<Rightarrow> vec \<Rightarrow> vec \<Rightarrow> real \<Rightarrow> real \<Rightarrow> real \<Rightarrow>
     real \<Rightarrow> real \<Rightarrow> nat \<Rightarrow> py_error + result" where
  "backwards_with linalg_inv P psi_spars Au_C Au_P Al_P deltaz c_P c_C AC_l0 A0 n =
     (case b_loop P Au_C Au_P Al_P deltaz c_P c_C A0 n psi_spars 0 [] (replicate n 0) of
        Inl e \<Rightarrow> Inl e
      | Inr (spar_thicknesses, b_list) \<Rightarrow>
          if length psi_spars < n then Inl IndexError
          else (case linalg_inv (bernstein_matrix n psi_spars) of
                  Inl e \<Rightarrow> Inl e
                | Inr B_inv \<Rightarrow>
                    (let A_bar = matvec B_inv b_list;
                         Al_C = AC_l0 # map (\<lambda>i. A_bar ! i - Au_C ! (i + 1)) [0..<length A_bar]
                     in Inr (Au_C, Al_C, c_C, spar_thicknesses))))"

definition forwards_with ::
  "(mat \<Rightarrow> py_error + mat) \<Rightarrow> primitives \<Rightarrow> vec \<Rightarrow> vec \<Rightarrow> vec \<Rightarrow> vec \<Rightarrow> real \<Rightarrow> real \<Rightarrow> real \<Rightarrow>
     real \<Rightarrow> nat \<Rightarrow> py_error + result" where
  "forwards_with linalg_inv P psi_spars Au_C Au_P Al_P deltaz c_P c_C AC_l0 n =
     (case f_loop P Au_C Au_P Al_P deltaz c_P c_C AC_l0 n psi_spars 0 [] [] (replicate n 0) of
        Inl e \<Rightarrow> Inl e
      | Inr (spar_thicknesses, psi_lower_children, f) \<Rightarrow>
          if length psi_lower_children < n then Inl IndexError
          else (case linalg_inv (bernstein_matrix n psi_lower_children) of
                  Inl e \<Rightarrow> Inl e
                | Inr F_inv \<Rightarrow>
                    (let A_lower = matvec F_inv f;
                         Al_C = AC_l0 # map (\<lambda>i. A_lower ! i) [0..<length A_lower]
                     in Inr (Au_C, Al_C, c_C, spar_thicknesses))))"

definition after_loop_with ::
  "(mat \<Rightarrow> py_error + mat) \<Rightarrow> primitives \<Rightarrow> vec \<Rightarrow> vec \<Rightarrow> vec \<Rightarrow> vec \<Rightarrow> real \<Rightarrow> real \<Rightarrow> string \<Rightarrow>
     real \<Rightarrow> py_error + result" where
  "after_loop_with linalg_inv P Au_C_1_to_n psi_spars Au_P Al_P deltaz c_P morphing AC_u0 =
     (let n = length Au_C_1_to_n;
          Au_C = AC_u0 # Au_C_1_to_n;
          c_C = calculate_c_baseline P c_P Au_C Au_P deltaz
      in if c_C = 0 then Inl ZeroDivisionError
         else if Al_P = [] then Inl IndexError
         else if c_P / c_C < 0 then Inl NonFinite
         else
           (let AC_l0 = sqrt (c_P / c_C) * Al_P ! 0;
                A0 = AC_u0 + AC_l0
            in if morphing = ''backwards''
               then backwards_with linalg_inv P psi_spars Au_C Au_P Al_P deltaz c_P c_C AC_l0 A0 n
               else if morphing = ''forwards''
               then forwards_with linalg_inv P psi_spars Au_C Au_P Al_P deltaz c_P c_C AC_l0 n
               else Inl UnboundLocalError))"

definition calculate_dependent_shape_coefficients_with ::
  "(mat \<Rightarrow> py_error + mat) \<Rightarrow> primitives \<Rightarrow> vec \<Rightarrow> vec \<Rightarrow> vec \<Rightarrow> vec \<Rightarrow> real \<Rightarrow> real \<Rightarrow> string \<Rightarrow>
     (py_error + result) option" where
  "calculate_dependent_shape_coefficients_with linalg_inv P Au_C_1_to_n psi_spars Au_P Al_P deltaz
     c_P morphing =
     (if Au_P = [] then Some (Inl IndexError)
      else
        (case AC_u0_loop (calculate_AC_u0 P Au_C_1_to_n Au_P deltaz c_P) 9999 (Au_P ! 0) of
           None \<Rightarrow> None
         | Some (Inl e) \<Rightarrow> Some (Inl e)
         | Some (Inr AC_u0) \<Rightarrow>
             Some (after_loop_with linalg_inv P Au_C_1_to_n psi_spars Au_P Al_P deltaz c_P
                     morphing AC_u0)))"

section \<open>Linear algebra on lists\<close>

lemma length_smul [simp]: "length (smul a v) = length v"
  by (simp add: smul_def)

lemma length_vsub [simp]: "length (vsub u v) = min (length u) (length v)"
  by (simp add: vsub_def)

lemma length_vadd [simp]: "length (vadd u v) = min (length u) (length v)"
  by (simp add: vadd_def)

lemma dot_Nil2: "dot u [] = 0"
  by (cases u) simp_all

lemma dot_vsub: "length u = length v \<Longrightarrow> dot (vsub u v) b = dot u b - dot v b"
proof (induction u v arbitrary: b rule: list_induct2)
  case Nil
  then show ?case by (simp add: vsub_def)
next
  case (Cons x xs y ys)
  then show ?case by (cases b) (simp_all add: vsub_def algebra_simps)
qed

lemma dot_smul: "dot (smul a u) b = a * dot u b"
proof (induction u arbitrary: b)
  case Nil
  then show ?case by (simp add: smul_def)
next
  case (Cons x xs)
  then show ?case by (cases b) (simp_all add: smul_def algebra_simps)
qed

lemma dot_div: "dot (map (\<lambda>x. x / a) u) b = dot u b / a"
proof (induction u arbitrary: b)
  case Nil
  then show ?case by simp
next
  case (Cons x xs)
  then show ?case by (cases b) (simp_all add: add_divide_distrib)
qed

lemma dot_vadd: "length u = length v \<Longrightarrow> dot (vadd u v) b = dot u b + dot v b"
proof (induction u v arbitrary: b rule: list_induct2)
  case Nil
  then show ?case by (simp add: vadd_def)
next
  case (Cons x xs y ys)
  then show ?case by (cases b) (simp_all add: vadd_def algebra_simps)
qed

lemma dot_replicate_zero: "dot (replicate m 0) b = 0"
proof (induction m arbitrary: b)
  case 0
  then show ?case by simp
next
  case (Suc m)
  then show ?case by (cases b) simp_all
qed

lemma length_lincomb:
  "\<forall>X \<in> set Xs. length X = m \<Longrightarrow> length (lincomb as Xs m) = m"
  by (induction as Xs m rule: lincomb.induct) (simp_all add: vadd_def smul_def)

lemma dot_lincomb:
  "\<forall>X \<in> set Xs. length X = m \<Longrightarrow> dot (lincomb as Xs m) b = dot as (matvec Xs b)"
proof (induction as Xs m rule: lincomb.induct)
  case (1 a as X Xs m)
  then have "length (smul a X) = length (lincomb as Xs m)"
    by (simp add: length_lincomb smul_def)
  with 1 show ?case
    by (simp add: dot_vadd dot_smul matvec_def)
qed (simp_all add: dot_replicate_zero matvec_def dot_Nil2)

lemma extract_pivot_Some:
  "extract_pivot rows = Some ((a, r, c), rest) \<Longrightarrow>
     a \<noteq> 0 \<and> set rows = insert (a # r, c) (set rest) \<and> length rows = Suc (length rest)"
proof (induction rows arbitrary: rest rule: extract_pivot.induct)
  case (3 a' r' c' rows)
  show ?case
  proof (cases "a' \<noteq> 0")
    case True
    with 3 show ?thesis by auto
  next
    case False
    with "3.prems" obtain rest' where e: "extract_pivot rows = Some ((a, r, c), rest')"
      and r: "rest = (a' # r', c') # rest'"
      by (auto split: option.splits)
    from "3.IH"[OF _ e] False r show ?thesis by auto
  qed
qed simp_all

lemma wf_eliminate:
  assumes "wf_rows (Suc k) m rest" "length pr = k" "length pc = m"
  shows "wf_rows k m (map (eliminate pr pc) rest)"
  unfolding wf_rows_def
proof (intro ballI)
  fix x assume "x \<in> set (map (eliminate pr pc) rest)"
  then obtain r c where rc: "(r, c) \<in> set rest" and x: "x = eliminate pr pc (r, c)"
    by auto
  from assms(1) rc have "length r = Suc k" "length c = m"
    by (auto simp: wf_rows_def)
  then obtain a t where "r = a # t" "length t = k" by (cases r) auto
  with x assms(2,3) \<open>length c = m\<close> show "case x of (r, c) \<Rightarrow> length r = k \<and> length c = m"
    by (simp add: vsub_def smul_def)
qed

lemma gauss_sound:
  "gauss k m rows = Some X \<Longrightarrow> wf_rows k m rows \<Longrightarrow>
     length X = k \<and> (\<forall>x \<in> set X. length x = m) \<and>
     (\<forall>b. \<forall>(r, c) \<in> set rows. dot r (matvec X b) = dot c b)"
proof (induction k arbitrary: rows X)
  case 0
  then show ?case by (auto split: if_splits)
next
  case (Suc k)
  from Suc.prems(1) obtain a r c rest X' where
    ep: "extract_pivot rows = Some ((a, r, c), rest)"
    and g: "gauss k m (map (eliminate (map (\<lambda>x. x / a) r) (map (\<lambda>x. x / a) c)) rest) = Some X'"
    and X: "X = vsub (map (\<lambda>x. x / a) c) (lincomb (map (\<lambda>x. x / a) r) X' m) # X'"
    by (auto simp: Let_def split: option.splits prod.splits)
  define pr where "pr = map (\<lambda>x. x / a) r"
  define pc where "pc = map (\<lambda>x. x / a) c"
  from extract_pivot_Some[OF ep] have a: "a \<noteq> 0"
    and rows: "set rows = insert (a # r, c) (set rest)" by auto
  from Suc.prems(2) rows have lr: "length r = k" and lc: "length c = m"
    and wfrest: "wf_rows (Suc k) m rest"
    by (auto simp: wf_rows_def)
  have wf': "wf_rows k m (map (eliminate pr pc) rest)"
    using wf_eliminate[OF wfrest] lr lc by (simp add: pr_def pc_def)
  note ih = Suc.IH[OF g[folded pr_def pc_def] wf']
  from ih have lX': "length X' = k" and mX': "\<forall>x \<in> set X'. length x = m"
    by simp_all
  have sol': "dot r' (matvec X' b) = dot c' b"
    if "(r', c') \<in> set (map (eliminate pr pc) rest)" for b r' c'
    using ih that by blast
  have lx0: "length (vsub pc (lincomb pr X' m)) = m"
    using mX' lc by (simp add: vsub_def length_lincomb pc_def)
  have x0: "dot (vsub pc (lincomb pr X' m)) b = dot c b / a - dot r (matvec X' b) / a" for b
    using mX' lc by (simp add: dot_vsub length_lincomb dot_lincomb pc_def pr_def dot_div)
  have piv: "dot (a # r) (matvec X b) = dot c b" for b
    using a by (simp add: X matvec_def x0[unfolded pc_def pr_def matvec_def] field_simps)
  have oth: "dot r' (matvec X b) = dot c' b" if "(r', c') \<in> set rest" for r' c' b
  proof -
    from wfrest that have "length r' = Suc k" "length c' = m" by (auto simp: wf_rows_def)
    then obtain a' t where r': "r' = a' # t" and lt: "length t = k" by (cases r') auto
    have "(vsub t (smul a' pr), vsub c' (smul a' pc)) \<in> set (map (eliminate pr pc) rest)"
      using that r' by (force simp: image_iff)
    from sol'[OF this, of b] have
      "dot t (matvec X' b) - a' * dot pr (matvec X' b) = dot c' b - a' * dot pc b"
      using lt lr lc \<open>length c' = m\<close>
      by (simp add: dot_vsub dot_smul pr_def pc_def)
    then show ?thesis
      using a by (simp add: r' X matvec_def x0[unfolded pc_def pr_def matvec_def]
          pr_def pc_def dot_div[unfolded matvec_def] field_simps)
  qed
  show ?case
    using lX' mX' lx0 piv oth rows by (auto simp: X pr_def pc_def)
qed

lemma dot_replicate_zero2: "dot u (replicate m 0) = 0"
proof (induction u arbitrary: m)
  case Nil
  then show ?case by simp
next
  case (Cons x xs)
  then show ?case by (cases m) simp_all
qed

lemma extract_pivot_None:
  "extract_pivot rows = None \<Longrightarrow> \<forall>(r, c) \<in> set rows. r \<noteq> [] \<Longrightarrow>
     \<forall>(r, c) \<in> set rows. hd r = 0"
  by (induction rows rule: extract_pivot.induct) (auto split: if_splits option.splits)

lemma gauss_complete:
  "wf_rows k m rows \<Longrightarrow> length rows = k \<Longrightarrow> injective_rows k rows \<Longrightarrow>
     gauss k m rows \<noteq> None"
proof (induction k arbitrary: rows)
  case 0
  then show ?case by simp
next
  case (Suc k)
  have ne: "\<forall>(r, c) \<in> set rows. r \<noteq> []"
    using Suc.prems(1) by (auto simp: wf_rows_def)
  have "extract_pivot rows \<noteq> None"
  proof
    assume "extract_pivot rows = None"
    from extract_pivot_None[OF this ne] have hd0: "\<forall>(r, c) \<in> set rows. hd r = 0" .
    have "dot r (1 # replicate k 0) = 0" if "(r, c) \<in> set rows" for r c
    proof -
      from ne that obtain a t where "r = a # t" by (cases r) auto
      with hd0 that show ?thesis by (auto simp: dot_replicate_zero2)
    qed
    with Suc.prems(3) have "1 # replicate k (0::real) = replicate (Suc k) 0"
      unfolding injective_rows_def by (metis (mono_tags, lifting) case_prodI2 length_Cons length_replicate)
    then show False by simp
  qed
  then obtain a r c rest where ep: "extract_pivot rows = Some ((a, r, c), rest)"
    by (metis not_None_eq prod_cases3 surj_pair)
  define pr where "pr = map (\<lambda>x. x / a) r"
  define pc where "pc = map (\<lambda>x. x / a) c"
  from extract_pivot_Some[OF ep] have a: "a \<noteq> 0"
    and rows: "set rows = insert (a # r, c) (set rest)"
    and len: "length rows = Suc (length rest)" by auto
  from Suc.prems(1) rows have lr: "length r = k" and lc: "length c = m"
    and wfrest: "wf_rows (Suc k) m rest"
    by (auto simp: wf_rows_def)
  have wf': "wf_rows k m (map (eliminate pr pc) rest)"
    using wf_eliminate[OF wfrest] lr lc by (simp add: pr_def pc_def)
  have inj': "injective_rows k (map (eliminate pr pc) rest)"
    unfolding injective_rows_def
  proof (intro allI impI)
    fix y :: vec
    assume ly: "length y = k"
      and z: "\<forall>(r, c) \<in> set (map (eliminate pr pc) rest). dot r y = 0"
    define x0 where "x0 = - dot pr y"
    have piv: "dot (a # r) (x0 # y) = 0"
      using a by (simp add: x0_def pr_def dot_div)
    have oth: "dot r' (x0 # y) = 0" if "(r', c') \<in> set rest" for r' c'
    proof -
      from wfrest that have "length r' = Suc k" by (auto simp: wf_rows_def)
      then obtain a' t where r': "r' = a' # t" and lt: "length t = k" by (cases r') auto
      have "(vsub t (smul a' pr), vsub c' (smul a' pc)) \<in> set (map (eliminate pr pc) rest)"
        using that r' by (force simp: image_iff)
      with z have "dot (vsub t (smul a' pr)) y = 0" by blast
      then have "dot t y = a' * dot pr y"
        using lt lr by (simp add: dot_vsub dot_smul pr_def)
      then show ?thesis by (simp add: r' x0_def)
    qed
    have "\<forall>(r, c) \<in> set rows. dot r (x0 # y) = 0"
      using piv oth rows by auto
    moreover have "length (x0 # y) = Suc k" using ly by simp
    ultimately have "x0 # y = replicate (Suc k) 0"
      using Suc.prems(3) unfolding injective_rows_def by blast
    then show "y = replicate k 0" by simp
  qed
  from len Suc.prems(2) have "length (map (eliminate pr pc) rest) = k" by simp
  from Suc.IH[OF wf' this inj'] show ?case
    using ep by (auto simp: Let_def pr_def pc_def)
qed

lemma dot_sum: "length u = length v \<Longrightarrow> dot u v = (\<Sum>i<length u. u ! i * v ! i)"
proof (induction u v rule: list_induct2)
  case Nil
  then show ?case by simp
next
  case (Cons x xs y ys)
  then show ?case by (simp add: sum.lessThan_Suc_shift del: sum.lessThan_Suc)
qed

lemma K_binomial: "r \<le> n \<Longrightarrow> K r n = real (n choose r)"
  unfolding K_def by (simp add: binomial_fact)

lemma K_nonzero: "r \<le> n \<Longrightarrow> K r n \<noteq> 0"
  by (simp add: K_binomial)

lemma dot_bernstein_row:
  assumes "length y = n" "0 < p" "p < 1"
  shows "dot (bernstein_row n p) y =
     p * (1 - p) ^ (n - 1) * (\<Sum>i<n. (K (i + 1) n * y ! i) * (p / (1 - p)) ^ i)"
proof -
  have "dot (bernstein_row n p) y =
      (\<Sum>i<n. K (i + 1) n * p ^ (i + 1) * (1 - p) ^ (n - (i + 1)) * y ! i)"
    using assms(1) by (simp add: dot_sum bernstein_row_def)
  also have "\<dots> = (\<Sum>i<n. p * (1 - p) ^ (n - 1) * ((K (i + 1) n * y ! i) * (p / (1 - p)) ^ i))"
  proof (rule sum.cong[OF refl])
    fix i assume "i \<in> {..<n}"
    then have i: "i < n" by simp
    then have "(1 - p) ^ (n - 1) = (1 - p) ^ (n - (i + 1)) * (1 - p) ^ i"
      by (simp flip: power_add)
    then show "K (i + 1) n * p ^ (i + 1) * (1 - p) ^ (n - (i + 1)) * y ! i =
        p * (1 - p) ^ (n - 1) * ((K (i + 1) n * y ! i) * (p / (1 - p)) ^ i)"
      using assms(2,3) by (simp add: power_divide)
  qed
  finally show ?thesis by (simp add: sum_distrib_left)
qed

lemma bernstein_injective:
  assumes len: "length psis = n" and dist: "distinct psis"
    and dom: "\<forall>p \<in> set psis. 0 < p \<and> p < 1"
  shows "injective_rows n (zip (bernstein_matrix n psis) (identity n))"
  unfolding injective_rows_def
proof (intro allI impI)
  fix y :: vec
  assume ly: "length y = n"
    and z: "\<forall>(r, c) \<in> set (zip (bernstein_matrix n psis) (identity n)). dot r y = 0"
  define cf where "cf i = K (i + 1) n * y ! i" for i
  define tt where "tt p = p / (1 - p)" for p :: real
  have row0: "dot (bernstein_row n (psis ! j)) y = 0" if "j < n" for j
  proof -
    have "(bernstein_matrix n psis ! j, identity n ! j) \<in> set (zip (bernstein_matrix n psis) (identity n))"
      using that by (auto simp: set_zip bernstein_matrix_def identity_def intro!: exI[of _ j])
    with z that show ?thesis by (auto simp: bernstein_matrix_def)
  qed
  have root: "(\<Sum>i<n. cf i * tt p ^ i) = 0" if "p \<in> set psis" for p
  proof -
    from that len obtain j where j: "j < n" "psis ! j = p" by (auto simp: in_set_conv_nth)
    from dom that have p: "0 < p" "p < 1" by auto
    from row0[OF j(1)] j(2) dot_bernstein_row[OF ly p] p show ?thesis
      by (simp add: cf_def tt_def)
  qed
  have cf0: "cf i = 0" if "i < n" for i
  proof (rule ccontr)
    assume nz: "cf i \<noteq> 0"
    from that obtain n' where n': "n = Suc n'" by (cases n) auto
    with that have "i \<le> n'" by simp
    from polyfun_rootbound[of cf i n', OF nz this] have fin: "finite {z. (\<Sum>i\<le>n'. cf i * z ^ i) = 0}"
      and card: "card {z. (\<Sum>i\<le>n'. cf i * z ^ i) = 0} \<le> n'" by auto
    have inj: "inj_on tt (set psis)"
    proof (rule inj_onI)
      fix p q assume "p \<in> set psis" "q \<in> set psis" "tt p = tt q"
      then have e: "p / (1 - p) = q / (1 - q)" and p: "p < 1" and q: "q < 1"
        using dom by (auto simp: tt_def)
      from p q have "1 - p \<noteq> 0" "1 - q \<noteq> 0" by auto
      with e have "p * (1 - q) = q * (1 - p)"
        by (simp add: frac_eq_eq)
      then show "p = q" by (simp add: algebra_simps)
    qed
    have sub: "tt ` set psis \<subseteq> {z. (\<Sum>i\<le>n'. cf i * z ^ i) = 0}"
      using root by (auto simp: n' lessThan_Suc_atMost)
    have "card (tt ` set psis) = n"
      using inj dist len by (simp add: card_image distinct_card)
    with card_mono[OF fin sub] card n' show False by simp
  qed
  show "y = replicate n 0"
  proof (rule nth_equalityI)
    show "length y = length (replicate n (0::real))" using ly by simp
  next
    fix i assume "i < length y"
    with ly have i: "i < n" by simp
    from cf0[OF i] K_nonzero[of "i + 1" n] i show "y ! i = replicate n 0 ! i"
      by (simp add: cf_def)
  qed
qed

lemma wf_zip_identity:
  "\<forall>r \<in> set B. length r = n \<Longrightarrow> wf_rows n n (zip B (identity n))"
  unfolding wf_rows_def
proof (intro ballI)
  fix x assume B: "\<forall>r \<in> set B. length r = n" and x: "x \<in> set (zip B (identity n))"
  obtain r c where rc: "x = (r, c)" by (cases x)
  with x have "r \<in> set B" "c \<in> set (identity n)"
    by (auto dest: set_zip_leftD set_zip_rightD)
  with B rc show "case x of (r, c) \<Rightarrow> length r = n \<and> length c = n"
    by (auto simp: identity_def unit_vec_def)
qed

lemma dot_unit_vec: "j < n \<Longrightarrow> length b = n \<Longrightarrow> dot (unit_vec n j) b = b ! j"
proof -
  assume j: "j < n" and b: "length b = n"
  have "dot (unit_vec n j) b = (\<Sum>i<n. (if i = j then 1 else 0) * b ! i)"
    using b by (simp add: dot_sum unit_vec_def)
  also have "\<dots> = (\<Sum>i<n. if i = j then b ! i else 0)"
    by (rule sum.cong) auto
  also have "\<dots> = b ! j" using j by simp
  finally show ?thesis .
qed

lemma inv_np_sound:
  assumes "inv_np B = Inr M" "\<forall>r \<in> set B. length r = length B" "length b = length B"
  shows "length M = length B \<and> matvec B (matvec M b) = b"
proof -
  define n where "n = length B"
  from assms(1) have g: "gauss n n (zip B (identity n)) = Some M"
    by (auto simp: inv_np_def Let_def n_def split: option.splits)
  have wf: "wf_rows n n (zip B (identity n))"
    using wf_zip_identity assms(2) n_def by blast
  from gauss_sound[OF g wf] have lM: "length M = n"
    and sol: "\<And>r c. (r, c) \<in> set (zip B (identity n)) \<Longrightarrow> dot r (matvec M b) = dot c b"
    by blast+
  have "matvec B (matvec M b) ! j = b ! j" if "j < n" for j
  proof -
    have "(B ! j, identity n ! j) \<in> set (zip B (identity n))"
      using that n_def by (auto simp: set_zip identity_def intro!: exI[of _ j])
    from sol[OF this] that assms(3) show ?thesis
      by (simp add: matvec_def n_def[symmetric] identity_def dot_unit_vec)
  qed
  then have "matvec B (matvec M b) = b"
    using assms(3) by (intro nth_equalityI) (simp_all add: matvec_def n_def)
  with lM show ?thesis by (simp add: n_def)
qed

lemma inv_np_bernstein:
  assumes "length psis = n" "distinct psis" "\<forall>p \<in> set psis. 0 < p \<and> p < 1"
  shows "\<exists>M. inv_np (bernstein_matrix n psis) = Inr M"
proof -
  have l: "length (bernstein_matrix n psis) = n" by (simp add: bernstein_matrix_def)
  have wf: "wf_rows n n (zip (bernstein_matrix n psis) (identity n))"
    by (rule wf_zip_identity) (auto simp: bernstein_matrix_def bernstein_row_def)
  have "length (zip (bernstein_matrix n psis) (identity n)) = n"
    by (simp add: l identity_def)
  from gauss_complete[OF wf this bernstein_injective[OF assms] ] show ?thesis
    by (auto simp: inv_np_def l)
qed

section \<open>The loops of the solver\<close>

lemma b_loop_Inr:
  "b_loop P Au_C Au_P Al_P dz c_P c_C A0 n psis j ts b = Inr (ts', b') \<Longrightarrow> j \<le> length b \<Longrightarrow>
     j + length psis \<le> length b \<and> length b' = length b \<and>
     ts' = ts @ map (\<lambda>psi. calculate_spar_distance P psi Au_C Au_P Al_P dz c_P) psis \<and>
     (\<forall>i < length psis.
        b_entry c_C dz A0 n (psis ! i)
          (calculate_spar_distance P (psis ! i) Au_C Au_P Al_P dz c_P) = Inr (b' ! (j + i))) \<and>
     (\<forall>k < j. b' ! k = b ! k)"
proof (induction psis arbitrary: j ts b)
  case Nil
  then show ?case by simp
next
  case (Cons psi rest)
  let ?t = "calculate_spar_distance P psi Au_C Au_P Al_P dz c_P"
  from Cons.prems obtain v where v: "b_entry c_C dz A0 n psi ?t = Inr v"
    and j: "j < length b"
    and rec: "b_loop P Au_C Au_P Al_P dz c_P c_C A0 n rest (j + 1) (ts @ [?t]) (b[j := v])
               = Inr (ts', b')"
    by (auto simp: Let_def split: sum.splits if_splits)
  from j have "j + 1 \<le> length (b[j := v])" by simp
  note ih = Cons.IH[OF rec this]
  from ih have len: "j + 1 + length rest \<le> length b" "length b' = length b" by simp_all
  from ih have ts': "ts' = ts @ map (\<lambda>psi. calculate_spar_distance P psi Au_C Au_P Al_P dz c_P) (psi # rest)"
    by simp
  from ih have keep: "\<And>k. k < j + 1 \<Longrightarrow> b' ! k = (b[j := v]) ! k" by blast
  from keep[of j] j have bj: "b' ! j = v" by simp
  have ent: "b_entry c_C dz A0 n ((psi # rest) ! i)
          (calculate_spar_distance P ((psi # rest) ! i) Au_C Au_P Al_P dz c_P) = Inr (b' ! (j + i))"
    if "i < length (psi # rest)" for i
  proof (cases i)
    case 0
    with v bj show ?thesis by simp
  next
    case (Suc i')
    with that have "i' < length rest" by simp
    with ih have "b_entry c_C dz A0 n (rest ! i')
          (calculate_spar_distance P (rest ! i') Au_C Au_P Al_P dz c_P) = Inr (b' ! (j + 1 + i'))"
      by blast
    with Suc show ?thesis by simp
  qed
  have old: "b' ! k = b ! k" if "k < j" for k
    using keep[of k] that by simp
  from len ts' ent old show ?case by auto
qed

lemma b_entry_interior:
  "c_C \<noteq> 0 \<Longrightarrow> 0 < psi \<Longrightarrow> psi < 1 \<Longrightarrow>
     b_entry c_C dz A0 n psi t =
       Inr ((t / c_C - psi * dz / c_C) / (sqrt psi * (1 - psi)) - A0 * (1 - psi) ^ n)"
  by (simp add: b_entry_def)

lemma b_loop_returns:
  "c_C \<noteq> 0 \<Longrightarrow> \<forall>psi \<in> set psis. 0 < psi \<and> psi < 1 \<Longrightarrow> j + length psis \<le> length b \<Longrightarrow>
     \<exists>ts' b'. b_loop P Au_C Au_P Al_P dz c_P c_C A0 n psis j ts b = Inr (ts', b')"
proof (induction psis arbitrary: j ts b)
  case Nil
  then show ?case by simp
next
  case (Cons psi rest)
  from Cons.prems have "0 < psi" "psi < 1" "j < length b" by auto
  moreover from Cons.prems have "j + 1 + length rest \<le> length (b[j := v])" for v by simp
  ultimately show ?case
    using Cons.IH[OF Cons.prems(1)] Cons.prems(1,2)
    by (simp add: b_entry_interior Let_def)
qed

lemma b_loop_too_long:
  "c_C \<noteq> 0 \<Longrightarrow> \<forall>psi \<in> set psis. 0 < psi \<and> psi < 1 \<Longrightarrow> length b < j + length psis \<Longrightarrow>
     j \<le> length b \<Longrightarrow>
     b_loop P Au_C Au_P Al_P dz c_P c_C A0 n psis j ts b = Inl IndexError"
proof (induction psis arbitrary: j ts b)
  case Nil
  then show ?case by simp
next
  case (Cons psi rest)
  from Cons.prems have psi: "0 < psi" "psi < 1" by auto
  show ?case
  proof (cases "j < length b")
    case True
    with Cons.prems have "length (b[j := v]) < j + 1 + length rest" "j + 1 \<le> length (b[j := v])" for v
      by simp_all
    with True psi Cons.prems(1,2) Cons.IH[OF Cons.prems(1)] show ?thesis
      by (simp add: b_entry_interior Let_def)
  next
    case False
    with psi Cons.prems(1) show ?thesis
      by (simp add: b_entry_interior Let_def)
  qed
qed

lemma backwards_Inr:
  assumes "backwards P psis Au_C Au_P Al_P dz c_P c_C AC_l0 A0 n = Inr (Au_C', Al_C, c_C', ts)"
  shows "Au_C' = Au_C \<and> c_C' = c_C \<and> length psis = n \<and>
     ts = map (\<lambda>psi. calculate_spar_distance P psi Au_C Au_P Al_P dz c_P) psis \<and>
     (\<exists>A_bar b_list. length A_bar = n \<and> length b_list = n \<and>
        (\<forall>j < n. b_entry c_C dz A0 n (psis ! j) (ts ! j) = Inr (b_list ! j)) \<and>
        matvec (bernstein_matrix n psis) A_bar = b_list \<and>
        Al_C = AC_l0 # map (\<lambda>i. A_bar ! i - Au_C ! (i + 1)) [0..<n])"
proof -
  from assms obtain b_list M where
    bl: "b_loop P Au_C Au_P Al_P dz c_P c_C A0 n psis 0 [] (replicate n 0) = Inr (ts, b_list)"
    and ge: "\<not> length psis < n"
    and inv: "inv_np (bernstein_matrix n psis) = Inr M"
    and res: "Au_C' = Au_C" "c_C' = c_C"
      "Al_C = AC_l0 # map (\<lambda>i. matvec M b_list ! i - Au_C ! (i + 1)) [0..<length (matvec M b_list)]"
    by (auto simp: backwards_def Let_def split: sum.splits prod.splits if_splits)
  have "0 \<le> length (replicate n (0::real))" by simp
  note bl' = b_loop_Inr[OF bl this]
  from bl' ge have len: "length psis = n" and lb: "length b_list = n" by simp_all
  from bl' have ts: "ts = map (\<lambda>psi. calculate_spar_distance P psi Au_C Au_P Al_P dz c_P) psis"
    by simp
  from bl' len ts have ent: "\<forall>j < n. b_entry c_C dz A0 n (psis ! j) (ts ! j) = Inr (b_list ! j)"
    by simp
  have sq: "\<forall>r \<in> set (bernstein_matrix n psis). length r = length (bernstein_matrix n psis)"
    by (auto simp: bernstein_matrix_def bernstein_row_def)
  have lB: "length (bernstein_matrix n psis) = n" by (simp add: bernstein_matrix_def)
  from inv_np_sound[OF inv sq] lb lB have
    lM: "length M = n" and sol: "matvec (bernstein_matrix n psis) (matvec M b_list) = b_list"
    by simp_all
  have lA: "length (matvec M b_list) = n" using lM by (simp add: matvec_def)
  from res lA len ts ent sol lb show ?thesis
    by (intro conjI exI[of _ "matvec M b_list"] exI[of _ b_list]) simp_all
qed

lemma backwards_returns:
  assumes "c_C \<noteq> 0" "\<forall>psi \<in> set psis. 0 < psi \<and> psi < 1" "length psis = n" "distinct psis"
  shows "\<exists>Al_C ts. backwards P psis Au_C Au_P Al_P dz c_P c_C AC_l0 A0 n = Inr (Au_C, Al_C, c_C, ts)"
proof -
  have "0 + length psis \<le> length (replicate n (0::real))" using assms(3) by simp
  from b_loop_returns[OF assms(1,2) this, of P Au_C Au_P Al_P dz c_P A0 n "[]"] obtain ts b where
    "b_loop P Au_C Au_P Al_P dz c_P c_C A0 n psis 0 [] (replicate n 0) = Inr (ts, b)"
    by blast
  moreover from inv_np_bernstein[OF assms(3,4,2)] obtain M where
    "inv_np (bernstein_matrix n psis) = Inr M" by blast
  ultimately show ?thesis
    using assms(3) by (simp add: backwards_def Let_def)
qed

lemma within_shift:
  "f x = Inr a \<Longrightarrow> within_tolerance_at f x (Suc k) = within_tolerance_at f a k"
  by (simp add: within_tolerance_at_def)

lemma beyond_shift:
  "f x = Inr a \<Longrightarrow> beyond_tolerance_at f x (Suc k) = beyond_tolerance_at f a k"
  by (simp add: beyond_tolerance_at_def)

lemma within_0:
  "within_tolerance_at f x 0 \<longleftrightarrow> (\<exists>a. f x = Inr a \<and> \<bar>a - x\<bar> \<le> 1 / 10 ^ 9)"
  by (auto simp: within_tolerance_at_def split: sum.splits)

lemma beyond_0:
  "beyond_tolerance_at f x 0 \<longleftrightarrow> (\<exists>a. f x = Inr a \<and> \<bar>a - x\<bar> > 1 / 10 ^ 9)"
  by (auto simp: beyond_tolerance_at_def split: sum.splits)

lemma loop_result_aux:
  assumes "AC_u0_loop f e x = Some r"
  shows "loop_post f e x r"
proof (rule AC_u0_loop.raw_induct[OF _ assms])
  fix loop :: "(real \<Rightarrow> py_error + real) \<Rightarrow> real \<Rightarrow> real \<Rightarrow> (py_error + real) option"
    and f :: "real \<Rightarrow> py_error + real" and e x :: real and r :: "py_error + real"
  assume IH: "\<And>f e x r. loop f e x = Some r \<Longrightarrow> loop_post f e x r"
    and eq: "(if 1 / 10 ^ 9 < e
               then case f x of Inl err \<Rightarrow> Some (Inl err) | Inr a \<Rightarrow> loop f \<bar>a - x\<bar> a
               else Some (Inr x)) = Some r"
  show "loop_post f e x r"
  proof (cases "1 / 10 ^ 9 < e")
    case False
    with eq show ?thesis by (simp add: loop_post_def)
  next
    case True
    show ?thesis
    proof (cases "f x")
      case (Inl err)
      with True eq have "r = Inl err" by simp
      with Inl have "(\<forall>i < (0::nat). beyond_tolerance_at f x i) \<and> AC_u0_iterates f (Suc 0) x = r \<and>
             (isl r \<or> within_tolerance_at f x 0)" by simp
      with True show ?thesis unfolding loop_post_def by blast
    next
      case (Inr a)
      with True eq have rec: "loop f \<bar>a - x\<bar> a = Some r" by simp
      note ih = IH[OF rec, unfolded loop_post_def]
      show ?thesis
      proof (cases "1 / 10 ^ 9 < \<bar>a - x\<bar>")
        case False
        with ih have r: "r = Inr a" by simp
        with Inr False have "(\<forall>i < (0::nat). beyond_tolerance_at f x i) \<and>
             AC_u0_iterates f (Suc 0) x = r \<and> (isl r \<or> within_tolerance_at f x 0)"
          by (simp add: within_0)
        with True show ?thesis unfolding loop_post_def by blast
      next
        case far: True
        with ih obtain k where k: "\<forall>i < k. beyond_tolerance_at f a i"
          "AC_u0_iterates f (Suc k) a = r" "isl r \<or> within_tolerance_at f a k"
          by blast
        have b0: "beyond_tolerance_at f x 0" using Inr far by (simp add: beyond_0)
        have "beyond_tolerance_at f x i" if "i < Suc k" for i
        proof (cases i)
          case 0
          with b0 show ?thesis by simp
        next
          case (Suc i')
          with that k(1) show ?thesis by (simp add: beyond_shift[of f x a, OF Inr])
        qed
        then have "\<forall>i < Suc k. beyond_tolerance_at f x i" by blast
        moreover have "AC_u0_iterates f (Suc (Suc k)) x = r" using Inr k(2) by simp
        moreover have "isl r \<or> within_tolerance_at f x (Suc k)"
          using k(3) by (simp add: within_shift[of f x a, OF Inr])
        ultimately show ?thesis using True unfolding loop_post_def by blast
      qed
    qed
  qed
qed

lemma loop_complete:
  "1 / 10 ^ 9 < e \<Longrightarrow> \<forall>i < k. beyond_tolerance_at f x i \<Longrightarrow>
     AC_u0_iterates f (Suc k) x = r \<Longrightarrow> isl r \<or> within_tolerance_at f x k \<Longrightarrow>
     AC_u0_loop f e x = Some r"
proof (induction k arbitrary: x e)
  case 0
  show ?case
  proof (cases "f x")
    case (Inl err)
    with 0 show ?thesis by (subst AC_u0_loop.simps) auto
  next
    case (Inr a)
    with 0 have r: "r = Inr a" and "\<not> 1 / 10 ^ 9 < \<bar>a - x\<bar>"
      by (auto simp: within_0)
    then have "AC_u0_loop f \<bar>a - x\<bar> a = Some r"
      by (subst AC_u0_loop.simps) simp
    with 0(1) Inr show ?thesis by (subst AC_u0_loop.simps) simp
  qed
next
  case (Suc k)
  from Suc.prems(2) have "beyond_tolerance_at f x 0" by simp
  then obtain a where a: "f x = Inr a" and far: "1 / 10 ^ 9 < \<bar>a - x\<bar>"
    by (auto simp: beyond_0)
  have "\<forall>i < k. beyond_tolerance_at f a i"
    using Suc.prems(2) beyond_shift[of f x a, OF a] by auto
  moreover have "AC_u0_iterates f (Suc k) a = r" using Suc.prems(3) a by simp
  moreover have "isl r \<or> within_tolerance_at f a k"
    using Suc.prems(4) by (simp add: within_shift[of f x a, OF a])
  ultimately have "AC_u0_loop f \<bar>a - x\<bar> a = Some r"
    using Suc.IH[OF far] by blast
  with Suc.prems(1) a show ?case by (subst AC_u0_loop.simps) simp
qed

lemma loop_diverges:
  assumes "1 / 10 ^ 9 < e" "\<forall>k. beyond_tolerance_at f x k"
  shows "AC_u0_loop f e x = None"
proof (rule ccontr)
  assume "AC_u0_loop f e x \<noteq> None"
  then obtain r where "AC_u0_loop f e x = Some r" by auto
  from loop_result_aux[OF this, unfolded loop_post_def] assms(1) obtain k where
    k: "AC_u0_iterates f (Suc k) x = r" "isl r \<or> within_tolerance_at f x k" by blast
  from assms(2) have "beyond_tolerance_at f x k" by simp
  with k show False
    by (auto simp: beyond_tolerance_at_def within_tolerance_at_def split: sum.splits)
qed

lemma iterates_error_source:
  "AC_u0_iterates f k x = Inl e \<Longrightarrow> \<exists>u. f u = Inl e"
  by (induction k arbitrary: x) (auto split: sum.splits)

lemma cdsc_Inr:
  assumes "calculate_dependent_shape_coefficients P fr psis Au_P Al_P dz c_P m = Some (Inr res)"
  shows "Au_P \<noteq> [] \<and> (\<exists>a. AC_u0_loop (calculate_AC_u0 P fr Au_P dz c_P) 9999 (Au_P ! 0) = Some (Inr a) \<and>
           after_loop P fr psis Au_P Al_P dz c_P m a = Inr res)"
  using assms unfolding calculate_dependent_shape_coefficients_def
  by (auto split: if_splits option.splits sum.splits)

lemma cdsc_of_loop:
  assumes "Au_P \<noteq> []" "AC_u0_loop (calculate_AC_u0 P fr Au_P dz c_P) 9999 (Au_P ! 0) = Some (Inr a)"
  shows "calculate_dependent_shape_coefficients P fr psis Au_P Al_P dz c_P m =
           Some (after_loop P fr psis Au_P Al_P dz c_P m a)"
  using assms unfolding calculate_dependent_shape_coefficients_def by simp

lemma after_loop_Inr:
  assumes "after_loop P fr psis Au_P Al_P dz c_P m a = Inr res"
  shows "calculate_c_baseline P c_P (a # fr) Au_P dz \<noteq> 0 \<and> Al_P \<noteq> [] \<and>
     0 \<le> c_P / calculate_c_baseline P c_P (a # fr) Au_P dz \<and>
     ((m = ''backwards'' \<and>
       backwards P psis (a # fr) Au_P Al_P dz c_P (calculate_c_baseline P c_P (a # fr) Au_P dz)
         (sqrt (c_P / calculate_c_baseline P c_P (a # fr) Au_P dz) * Al_P ! 0)
         (a + sqrt (c_P / calculate_c_baseline P c_P (a # fr) Au_P dz) * Al_P ! 0)
         (length fr) = Inr res) \<or>
      (m = ''forwards'' \<and>
       forwards P psis (a # fr) Au_P Al_P dz c_P (calculate_c_baseline P c_P (a # fr) Au_P dz)
         (sqrt (c_P / calculate_c_baseline P c_P (a # fr) Au_P dz) * Al_P ! 0)
         (length fr) = Inr res))"
  using assms unfolding after_loop_def Let_def
  by (auto split: if_splits)

lemma f_loop_Inr:
  "f_loop P Au_C Au_P Al_P dz c_P c_C AC_l0 n psis j ts pl f = Inr (ts', pl', f') \<Longrightarrow>
     j \<le> length f \<Longrightarrow>
     j + length psis \<le> length f \<and> length f' = length f \<and>
     length pl' = length pl + length psis \<and>
     ts' = ts @ map (parent_vertical_thickness Au_P Al_P dz c_P) psis"
proof (induction psis arbitrary: j ts pl f)
  case Nil
  then show ?case by simp
next
  case (Cons psi rest)
  from Cons.prems(1) have j: "j < length f" and c: "c_P \<noteq> 0"
    by (auto simp: Let_def split: if_splits)
  from Cons.prems(1) j c obtain v p where
    rec: "f_loop P Au_C Au_P Al_P dz c_P c_C AC_l0 n rest (j + 1)
            (ts @ [parent_vertical_thickness Au_P Al_P dz c_P psi]) (pl @ [p]) (f[j := v])
          = Inr (ts', pl', f')"
    by (auto simp: Let_def parent_vertical_thickness_def split: if_splits sum.splits)
  from j have "j + 1 \<le> length (f[j := v])" by simp
  from Cons.IH[OF rec this] show ?case by simp
qed

lemma forwards_Inr:
  assumes "forwards P psis Au_C Au_P Al_P dz c_P c_C AC_l0 n = Inr (Au_C', Al_C, c_C', ts)"
  shows "Au_C' = Au_C \<and> c_C' = c_C \<and> length psis = n \<and> length Al_C = Suc n \<and>
     ts = map (parent_vertical_thickness Au_P Al_P dz c_P) psis"
proof -
  from assms obtain pl f M where
    fl: "f_loop P Au_C Au_P Al_P dz c_P c_C AC_l0 n psis 0 [] [] (replicate n 0) = Inr (ts, pl, f)"
    and ge: "\<not> length pl < n"
    and inv: "inv_np (bernstein_matrix n pl) = Inr M"
    and res: "Au_C' = Au_C" "c_C' = c_C"
      "Al_C = AC_l0 # map (\<lambda>i. matvec M f ! i) [0..<length (matvec M f)]"
    by (auto simp: forwards_def Let_def split: sum.splits prod.splits if_splits)
  have "0 \<le> length (replicate n (0::real))" by simp
  note fl' = f_loop_Inr[OF fl this]
  from fl' ge have len: "length psis = n" by simp
  from fl' have ts: "ts = map (parent_vertical_thickness Au_P Al_P dz c_P) psis" by simp
  have sq: "\<forall>r \<in> set (bernstein_matrix n pl). length r = length (bernstein_matrix n pl)"
    by (auto simp: bernstein_matrix_def bernstein_row_def)
  from fl' have lf: "length f = length (bernstein_matrix n pl)"
    by (simp add: bernstein_matrix_def)
  from inv_np_sound[OF inv sq lf] have "length M = n" by (simp add: bernstein_matrix_def)
  then have "length (matvec M f) = n" by (simp add: matvec_def)
  with res len ts show ?thesis by simp
qed

lemma bernstein_matrix_entry:
  assumes "j < n" "i < n"
  shows "bernstein_matrix n psis ! j ! i = spec_bernstein_entry n (psis ! j) i"
  using assms
  by (simp add: bernstein_matrix_def bernstein_row_def spec_bernstein_entry_def K_binomial)

lemma dot_bernstein_row_spec:
  assumes "length v = n"
  shows "dot (bernstein_row n psi) v = (\<Sum>i < n. spec_bernstein_entry n psi i * v ! i)"
proof -
  have "dot (bernstein_row n psi) v = (\<Sum>i < n. bernstein_row n psi ! i * v ! i)"
    using assms by (simp add: dot_sum bernstein_row_def)
  also have "\<dots> = (\<Sum>i < n. spec_bernstein_entry n psi i * v ! i)"
    by (rule sum.cong) (simp_all add: bernstein_row_def spec_bernstein_entry_def K_binomial)
  finally show ?thesis .
qed

lemma b_entry_Inr:
  "b_entry c_C dz A0 n psi t = Inr v \<Longrightarrow>
     v = (t / c_C - psi * dz / c_C) / (sqrt psi * (1 - psi)) - A0 * (1 - psi) ^ n"
  by (simp add: b_entry_def split: if_splits)

lemma map2_minus_nth:
  "length xs = n \<Longrightarrow> length ys = n \<Longrightarrow>
     map (\<lambda>i. xs ! i - ys ! i) [0..<n] = map2 (-) xs ys"
  by (auto intro!: nth_equalityI)

section \<open>The solver at a concrete input\<close>

lemma sqrt_quarter: "sqrt (1 / 4) = 1 / 2"
  by (rule real_sqrt_unique) (simp_all add: power2_eq_square)

lemma CST_shape_2: "CST_shape [a0, a1] psi = a0 * (1 - psi) + a1 * psi"
  by (simp add: CST_shape_def K_def lessThan_Suc numeral_2_eq_2)

lemma ex_loop:
  "AC_u0_loop (calculate_AC_u0 unmorphed [1] [1 / 9, 1] 0 1) 9999 ([1 / 9, 1] ! 0) = Some (Inr (1 / 9))"
proof -
  have f: "calculate_AC_u0 unmorphed [1] [1 / 9, 1] 0 1 x = Inr (1 / 9)" for x
    by (simp add: calculate_AC_u0_def unmorphed_def)
  have "AC_u0_loop (calculate_AC_u0 unmorphed [1] [1 / 9, 1] 0 1) 0 (1 / 9) = Some (Inr (1 / 9))"
    by (subst AC_u0_loop.simps) simp
  then show ?thesis
    by (subst AC_u0_loop.simps) (simp add: f)
qed

lemma ex_bernstein: "bernstein_matrix (Suc 0) [p] = [ [p] ]"
  by (simp add: bernstein_matrix_def bernstein_row_def K_def)

lemma ex_inv: "p \<noteq> 0 \<Longrightarrow> inv_np [ [p] ] = Inr [ [1 / p] ]"
  by (simp add: inv_np_def identity_def unit_vec_def vsub_def)

lemma ex_sd:
  "calculate_spar_distance unmorphed (1 / 4) Au_b [1 / 9, 1] [1 / 9, 1] 0 1 = 1 / 4"
  by (simp add: unmorphed_def CST_u_def CST_l_def CST_shape_2 sqrt_quarter)

lemma ex_backwards:
  "calculate_dependent_shape_coefficients unmorphed [1] [1 / 4] [1 / 9, 1] [1 / 9, 1] 0 1 ''backwards''
     = Some (Inr ([1 / 9, 1], [1 / 9, 1], 1, [1 / 4]))"
proof -
  have cb: "calculate_c_baseline unmorphed c a b d = c" for a b c d
    by (simp add: unmorphed_def)
  have be: "b_entry 1 0 (2 / 9) (Suc 0) (1 / 4) (1 / 4) = Inr (1 / 2)"
    by (simp add: b_entry_def sqrt_quarter)
  have "after_loop unmorphed [1] [1 / 4] [1 / 9, 1] [1 / 9, 1] 0 1 ''backwards'' (1 / 9)
      = Inr ([1 / 9, 1], [1 / 9, 1], 1, [1 / 4])"
    by (simp add: after_loop_def Let_def cb backwards_def ex_sd be ex_bernstein ex_inv matvec_def)
  with cdsc_of_loop[OF _ ex_loop] show ?thesis by simp
qed

lemma b_loop_no_zero_division:
  "c_C \<noteq> 0 \<Longrightarrow> \<forall>psi \<in> set psis. 0 < psi \<and> psi < 1 \<Longrightarrow>
     b_loop P Au_C Au_P Al_P dz c_P c_C A0 n psis j ts b \<noteq> Inl ZeroDivisionError"
proof (induction psis arbitrary: j ts b)
  case Nil
  then show ?case by simp
next
  case (Cons psi rest)
  from Cons.prems have "0 < psi" "psi < 1" by auto
  with Cons.prems(1) Cons.IH[OF Cons.prems(1)] Cons.prems(2) show ?case
    by (simp add: b_entry_interior Let_def)
qed

lemma backwards_no_zero_division:
  assumes "c_C \<noteq> 0" "\<forall>psi \<in> set psis. 0 < psi \<and> psi < 1"
  shows "backwards P psis Au_C Au_P Al_P dz c_P c_C AC_l0 A0 n \<noteq> Inl ZeroDivisionError"
  using b_loop_no_zero_division[OF assms, of P Au_C Au_P Al_P dz c_P A0 n 0 "[]" "replicate n 0"]
  by (auto simp: backwards_def inv_np_def Let_def split: sum.splits option.splits prod.splits)

lemma interior_divisor: "0 < psi \<Longrightarrow> psi < 1 \<Longrightarrow> sqrt psi * (1 - psi) \<noteq> 0"
  by simp

lemma calculate_AC_u0_zero_division:
  "calculate_AC_u0 P fr Au_P dz c_P u = Inl ZeroDivisionError \<Longrightarrow>
     calculate_c_baseline P c_P (u # fr) Au_P dz = 0"
  by (auto simp: calculate_AC_u0_def Let_def split: if_splits)

lemma after_loop_backwards_returns:
  assumes "0 < c_P / calculate_c_baseline P c_P (a # fr) Au_P dz" "Al_P \<noteq> []"
    "\<forall>psi \<in> set psis. 0 < psi \<and> psi < 1" "length psis = length fr" "distinct psis"
  shows "\<exists>Al_C ts. after_loop P fr psis Au_P Al_P dz c_P ''backwards'' a =
           Inr (a # fr, Al_C, calculate_c_baseline P c_P (a # fr) Au_P dz, ts)"
proof -
  from assms(1) have nz: "calculate_c_baseline P c_P (a # fr) Au_P dz \<noteq> 0" by auto
  from backwards_returns[OF nz assms(3,4,5)] assms(1,2) nz show ?thesis
    by (simp add: after_loop_def Let_def not_less[symmetric] less_imp_le)
qed

section \<open>Division by zero in the backwards assembly\<close>

text \<open>
  Claim C10. With every spar station strictly between \<open>0\<close> and \<open>1\<close>, the divisor
  \<open>psi_j**0.5 * (1 - psi_j)\<close> is nonzero in every row, the code after the loop raises
  no \<open>ZeroDivisionError\<close> in backwards mode unless the child chord is zero, and a
  \<open>ZeroDivisionError\<close> of the whole call can only come from a zero value of the
  baseline chord, which is divided by before the assembly starts. The only division
  in the matrix entries is the one inside \<open>K\<close>, by a product of factorials.
\<close>

theorem interior_stations_no_zero_division:
  assumes "\<forall>psi \<in> set psi_spars. 0 < psi \<and> psi < 1"
  shows "(\<forall>psi \<in> set psi_spars. sqrt psi * (1 - psi) \<noteq> 0) \<and>
     (calculate_c_baseline P c_P (AC_u0 # Au_C_1_to_n) Au_P deltaz \<noteq> 0 \<longrightarrow>
        after_loop P Au_C_1_to_n psi_spars Au_P Al_P deltaz c_P ''backwards'' AC_u0
          \<noteq> Inl ZeroDivisionError) \<and>
     (calculate_dependent_shape_coefficients P Au_C_1_to_n psi_spars Au_P Al_P deltaz c_P
        ''backwards'' = Some (Inl ZeroDivisionError) \<longrightarrow>
        (\<exists>u. calculate_c_baseline P c_P (u # Au_C_1_to_n) Au_P deltaz = 0)) \<and>
     (\<forall>r. real (fact r) * real (fact (length Au_C_1_to_n - r)) \<noteq> 0)"
proof -
  have 0: "\<forall>r. real (fact r) * real (fact (length Au_C_1_to_n - r)) \<noteq> 0"
    by simp
  have 1: "\<forall>psi \<in> set psi_spars. sqrt psi * (1 - psi) \<noteq> 0"
    using assms interior_divisor by blast
  have al: "after_loop P Au_C_1_to_n psi_spars Au_P Al_P deltaz c_P ''backwards'' a
          \<noteq> Inl ZeroDivisionError"
    if "calculate_c_baseline P c_P (a # Au_C_1_to_n) Au_P deltaz \<noteq> 0" for a
    using that backwards_no_zero_division[OF that assms]
    by (simp add: after_loop_def Let_def)
  have 3: "\<exists>u. calculate_c_baseline P c_P (u # Au_C_1_to_n) Au_P deltaz = 0"
    if z: "calculate_dependent_shape_coefficients P Au_C_1_to_n psi_spars Au_P Al_P deltaz c_P
        ''backwards'' = Some (Inl ZeroDivisionError)"
  proof -
    let ?f = "calculate_AC_u0 P Au_C_1_to_n Au_P deltaz c_P"
    from z consider
      (loop) "AC_u0_loop ?f 9999 (Au_P ! 0) = Some (Inl ZeroDivisionError)"
    | (after) u where "after_loop P Au_C_1_to_n psi_spars Au_P Al_P deltaz c_P ''backwards'' u
          = Inl ZeroDivisionError"
      unfolding calculate_dependent_shape_coefficients_def
      by (auto split: if_splits option.splits sum.splits)
    then show ?thesis
    proof cases
      case loop
      from loop_result_aux[OF loop, unfolded loop_post_def] obtain k where
        "AC_u0_iterates ?f (Suc k) (Au_P ! 0) = Inl ZeroDivisionError" by auto
      from iterates_error_source[OF this] calculate_AC_u0_zero_division show ?thesis by blast
    next
      case after
      with al show ?thesis by blast
    qed
  qed
  from 0 1 al 3 show ?thesis by blast
qed

theorem interior_stations_no_zero_division_witness:
  "0 < (1 / 4 :: real) \<and> (1 / 4 :: real) < 1 \<and>
   sqrt (1 / 4) * (1 - 1 / 4) \<noteq> 0 \<and>
   calculate_c_baseline unmorphed 1 [1 / 9, 1] [1 / 9, 1] 0 \<noteq> 0 \<and>
   after_loop unmorphed [1] [1 / 4] [1 / 9, 1] [1 / 9, 1] 0 1 ''backwards'' (1 / 9)
     \<noteq> Inl ZeroDivisionError"
proof -
  have cb: "calculate_c_baseline unmorphed 1 [1 / 9, 1] [1 / 9, 1] 0 \<noteq> 0"
    by (simp add: unmorphed_def)
  have "\<forall>psi \<in> set [1 / 4 :: real]. 0 < psi \<and> psi < 1" by simp
  from interior_stations_no_zero_division[OF this, of unmorphed 1 "1 / 9" "[1]" "[1 / 9, 1]" 0
      "[1 / 9, 1]"] cb
  show ?thesis by simp
qed

section \<open>The fixed-point loop for the leading coefficient\<close>

lemma sqrt_four_real: "sqrt 4 = 2"
  by (rule real_sqrt_unique) simp_all

lemma osc_step:
  "calculate_AC_u0 oscillating [] [1] 0 1 x = Inr (if x = 1 then 2 else 1)"
  by (simp add: calculate_AC_u0_def oscillating_def unmorphed_def sqrt_four_real)

lemma alternating_iterates:
  assumes "\<And>x. f x = Inr (if x = 1 then 2 else 1)"
  shows "AC_u0_iterates f k x = Inr (if k = 0 then x else if even k = (x = 1) then 1 else 2)"
proof (induction k arbitrary: x)
  case 0
  then show ?case by simp
next
  case (Suc k)
  have "AC_u0_iterates f (Suc k) x = AC_u0_iterates f k (if x = 1 then 2 else 1)"
    using assms[of x] by simp
  also have "\<dots> = Inr (if k = 0 then (if x = 1 then 2 else 1)
                        else if even k = ((if x = 1 then 2 else 1) = (1::real)) then 1 else 2)"
    by (rule Suc.IH)
  also have "\<dots> = Inr (if Suc k = 0 then x else if even (Suc k) = (x = 1) then 1 else 2)"
    by auto
  finally show ?case .
qed

lemma alternating_beyond:
  assumes "\<And>x. f x = Inr (if x = 1 then 2 else 1)"
  shows "beyond_tolerance_at f 1 k"
proof -
  have "AC_u0_iterates f k 1 = Inr (if k = 0 then 1 else if even k then 1 else 2)"
    using alternating_iterates[OF assms, of k 1] by simp
  moreover have "AC_u0_iterates f (Suc k) 1 = Inr (if even (Suc k) then 1 else 2)"
    using alternating_iterates[OF assms, of "Suc k" 1] by simp
  ultimately show ?thesis
    by (simp add: beyond_tolerance_at_def del: AC_u0_iterates.simps)
qed

lemma osc_beyond:
  "beyond_tolerance_at (calculate_AC_u0 oscillating [] [1] 0 1) 1 k"
  by (rule alternating_beyond) (rule osc_step)

lemma osc_diverges:
  "calculate_dependent_shape_coefficients oscillating [] [] [1] [1] 0 1 ''backwards'' = None"
proof -
  have "AC_u0_loop (calculate_AC_u0 oscillating [] [1] 0 1) 9999 1 = None"
    by (rule loop_diverges) (simp_all add: osc_beyond)
  then show ?thesis
    by (simp add: calculate_dependent_shape_coefficients_def)
qed

lemma tol_sqrt: "sqrt ((10 ^ 9 + 1) ^ 2 / 10 ^ 18) = 1 + 1 / 10 ^ 9"
  by (rule real_sqrt_unique) (simp_all add: power2_eq_square)

lemma tol_step:
  "calculate_AC_u0 on_tolerance [] [1] 0 1 x = Inr (1 + 1 / 10 ^ 9)"
proof -
  have "(1::real) / (10 ^ 18 / (10 ^ 9 + 1) ^ 2) = (10 ^ 9 + 1) ^ 2 / 10 ^ 18" by simp
  then show ?thesis
    using tol_sqrt
    by (simp add: calculate_AC_u0_def on_tolerance_def unmorphed_def Let_def)
qed

lemma tol_loop:
  "AC_u0_loop (calculate_AC_u0 on_tolerance [] [1] 0 1) 9999 1 = Some (Inr (1 + 1 / 10 ^ 9))"
proof -
  have "AC_u0_loop (calculate_AC_u0 on_tolerance [] [1] 0 1) (1 / 10 ^ 9) (1 + 1 / 10 ^ 9)
      = Some (Inr (1 + 1 / 10 ^ 9))"
    by (subst AC_u0_loop.simps) simp
  then show ?thesis
    by (subst AC_u0_loop.simps) (simp add: tol_step)
qed

lemma tol_returns:
  "calculate_dependent_shape_coefficients on_tolerance [] [] [1] [1] 0 1 ''backwards'' =
     Some (Inr ([1 + 1 / 10 ^ 9], [1 + 1 / 10 ^ 9], 10 ^ 18 / (10 ^ 9 + 1) ^ 2, []))"
proof -
  have q: "(1::real) / (10 ^ 18 / (10 ^ 9 + 1) ^ 2) = (10 ^ 9 + 1) ^ 2 / 10 ^ 18" by simp
  have "after_loop on_tolerance [] [] [1] [1] 0 1 ''backwards'' (1 + 1 / 10 ^ 9) =
      Inr ([1 + 1 / 10 ^ 9], [1 + 1 / 10 ^ 9], 10 ^ 18 / (10 ^ 9 + 1) ^ 2, [])"
    using tol_sqrt q
    by (simp add: after_loop_def on_tolerance_def unmorphed_def Let_def backwards_def
        bernstein_matrix_def inv_np_def matvec_def)
  with cdsc_of_loop[of "[1]" on_tolerance "[]" 0 1 "1 + 1 / 10 ^ 9" "[]" "[1]" "''backwards''"]
    tol_loop show ?thesis by simp
qed

lemma after_loop_Au_C:
  assumes "after_loop P fr psis Au_P Al_P dz c_P m a = Inr (Au_C, Al_C, c_C, ts)"
  shows "Au_C = a # fr"
proof -
  from after_loop_Inr[OF assms] consider
    (b) c l A where "backwards P psis (a # fr) Au_P Al_P dz c_P c l A (length fr)
             = Inr (Au_C, Al_C, c_C, ts)"
  | (f) c l where "forwards P psis (a # fr) Au_P Al_P dz c_P c l (length fr)
             = Inr (Au_C, Al_C, c_C, ts)"
    by blast
  then show ?thesis
  proof cases
    case b
    from backwards_Inr[OF b] show ?thesis by simp
  next
    case f
    from forwards_Inr[OF f] show ?thesis by simp
  qed
qed

text \<open>
  Claim C3 does not hold as stated. First input: with the baseline chord of
  \<open>oscillating\<close> the successive values alternate between \<open>1\<close> and \<open>2\<close>; the call never
  returns, and nothing is reported. Second input: with \<open>on_tolerance\<close> the first
  value differs from its predecessor by exactly \<open>1e-9\<close>, which is not less than
  \<open>1e-9\<close>, and the loop stops there.
\<close>

theorem fixed_point_counterexample:
  "calculate_dependent_shape_coefficients oscillating [] [] [1] [1] 0 1 ''backwards'' = None \<and>
   calculate_AC_u0 on_tolerance [] [1] 0 1 1 = Inr (1 + 1 / 10 ^ 9) \<and>
   \<not> \<bar>(1 + 1 / 10 ^ 9) - (1::real)\<bar> < 1 / 10 ^ 9 \<and>
   calculate_dependent_shape_coefficients on_tolerance [] [] [1] [1] 0 1 ''backwards'' =
     Some (Inr ([1 + 1 / 10 ^ 9], [1 + 1 / 10 ^ 9], 10 ^ 18 / (10 ^ 9 + 1) ^ 2, []))"
  using osc_diverges tol_step tol_returns by simp

text \<open>
  Claim C3, amended. A returned result carries the first value of \<open>AC_u0\<close> that differs
  from its predecessor by at most \<open>1e-9\<close>, all earlier successive values differing by
  more; whenever such a first value exists the call goes on with it; and when every
  pair of successive values differs by more than \<open>1e-9\<close> the call never returns: the
  loop has no bound and reports nothing.
\<close>

theorem fixed_point_stopping:
  "(calculate_dependent_shape_coefficients P Au_C_1_to_n psi_spars Au_P Al_P deltaz c_P morphing
      = Some (Inr (Au_C, Al_C, c_C, spar_thicknesses)) \<longrightarrow>
      (\<exists>k. (\<forall>i < k. beyond_tolerance_at (calculate_AC_u0 P Au_C_1_to_n Au_P deltaz c_P) (Au_P ! 0) i) \<and>
           within_tolerance_at (calculate_AC_u0 P Au_C_1_to_n Au_P deltaz c_P) (Au_P ! 0) k \<and>
           AC_u0_iterates (calculate_AC_u0 P Au_C_1_to_n Au_P deltaz c_P) (Suc k) (Au_P ! 0)
             = Inr (hd Au_C))) \<and>
   (Au_P \<noteq> [] \<and>
    (\<forall>i < k. beyond_tolerance_at (calculate_AC_u0 P Au_C_1_to_n Au_P deltaz c_P) (Au_P ! 0) i) \<and>
    within_tolerance_at (calculate_AC_u0 P Au_C_1_to_n Au_P deltaz c_P) (Au_P ! 0) k \<and>
    AC_u0_iterates (calculate_AC_u0 P Au_C_1_to_n Au_P deltaz c_P) (Suc k) (Au_P ! 0) = Inr a \<longrightarrow>
      calculate_dependent_shape_coefficients P Au_C_1_to_n psi_spars Au_P Al_P deltaz c_P morphing
        = Some (after_loop P Au_C_1_to_n psi_spars Au_P Al_P deltaz c_P morphing a)) \<and>
   ((\<forall>k. beyond_tolerance_at (calculate_AC_u0 P Au_C_1_to_n Au_P deltaz c_P) (Au_P ! 0) k) \<longrightarrow>
      calculate_dependent_shape_coefficients P Au_C_1_to_n psi_spars Au_P Al_P deltaz c_P morphing
        = None)"
proof -
  let ?f = "calculate_AC_u0 P Au_C_1_to_n Au_P deltaz c_P"
  let ?x = "Au_P ! 0"
  have big: "(1::real) / 10 ^ 9 < 9999" by simp
  have 1: "\<exists>k. (\<forall>i < k. beyond_tolerance_at ?f ?x i) \<and> within_tolerance_at ?f ?x k \<and>
           AC_u0_iterates ?f (Suc k) ?x = Inr (hd Au_C)"
    if r: "calculate_dependent_shape_coefficients P Au_C_1_to_n psi_spars Au_P Al_P deltaz c_P
      morphing = Some (Inr (Au_C, Al_C, c_C, spar_thicknesses))"
  proof -
    from cdsc_Inr[OF r] obtain a' where
      lp: "AC_u0_loop ?f 9999 ?x = Some (Inr a')"
      and al: "after_loop P Au_C_1_to_n psi_spars Au_P Al_P deltaz c_P morphing a'
             = Inr (Au_C, Al_C, c_C, spar_thicknesses)" by blast
    from after_loop_Au_C[OF al] have "hd Au_C = a'" by simp
    with loop_result_aux[OF lp, unfolded loop_post_def] big show ?thesis by auto
  qed
  have 2: "calculate_dependent_shape_coefficients P Au_C_1_to_n psi_spars Au_P Al_P deltaz c_P
        morphing = Some (after_loop P Au_C_1_to_n psi_spars Au_P Al_P deltaz c_P morphing a)"
    if "Au_P \<noteq> []" "\<forall>i < k. beyond_tolerance_at ?f ?x i" "within_tolerance_at ?f ?x k"
      "AC_u0_iterates ?f (Suc k) ?x = Inr a"
  proof -
    from loop_complete[OF big that(2,4)] that(3) have "AC_u0_loop ?f 9999 ?x = Some (Inr a)"
      by simp
    from cdsc_of_loop[OF that(1) this] show ?thesis .
  qed
  have 3: "calculate_dependent_shape_coefficients P Au_C_1_to_n psi_spars Au_P Al_P deltaz c_P
        morphing = None"
    if b: "\<forall>k. beyond_tolerance_at ?f ?x k"
  proof -
    from b have "beyond_tolerance_at ?f ?x 0" by simp
    then have "Au_P \<noteq> []"
      by (auto simp: beyond_0 calculate_AC_u0_def Let_def split: if_splits)
    moreover from loop_diverges[OF big b] have "AC_u0_loop ?f 9999 ?x = None" .
    ultimately show ?thesis by (simp add: calculate_dependent_shape_coefficients_def)
  qed
  from 1 2 3 show ?thesis by blast
qed

theorem fixed_point_stopping_witness:
  "calculate_dependent_shape_coefficients unmorphed [1] [1 / 4] [1 / 9, 1] [1 / 9, 1] 0 1
     ''backwards'' = Some (Inr ([1 / 9, 1], [1 / 9, 1], 1, [1 / 4])) \<and>
   (\<exists>k. within_tolerance_at (calculate_AC_u0 unmorphed [1] [1 / 9, 1] 0 1) ([1 / 9, 1] ! 0) k \<and>
        AC_u0_iterates (calculate_AC_u0 unmorphed [1] [1 / 9, 1] 0 1) (Suc k) ([1 / 9, 1] ! 0)
          = Inr (hd [1 / 9, 1])) \<and>
   (\<forall>k. beyond_tolerance_at (calculate_AC_u0 oscillating [] [1] 0 1) ([1] ! 0) k) \<and>
   calculate_dependent_shape_coefficients oscillating [] [] [1] [1] 0 1 ''forwards'' = None"
proof -
  note a = fixed_point_stopping[of unmorphed "[1]" "[1 / 4]" "[1 / 9, 1]" "[1 / 9, 1]" 0 1
      "''backwards''" "[1 / 9, 1]" "[1 / 9, 1]" 1 "[1 / 4]"]
  from a ex_backwards have "\<exists>k.
        within_tolerance_at (calculate_AC_u0 unmorphed [1] [1 / 9, 1] 0 1) ([1 / 9, 1] ! 0) k \<and>
        AC_u0_iterates (calculate_AC_u0 unmorphed [1] [1 / 9, 1] 0 1) (Suc k) ([1 / 9, 1] ! 0)
          = Inr (hd [1 / 9, 1])"
    by blast
  moreover have b: "\<forall>k. beyond_tolerance_at (calculate_AC_u0 oscillating [] [1] 0 1) ([1] ! 0) k"
    using osc_beyond by simp
  moreover from b fixed_point_stopping[of oscillating "[]" "[]" "[1]" "[1]" 0 1 "''forwards''"]
  have "calculate_dependent_shape_coefficients oscillating [] [] [1] [1] 0 1 ''forwards'' = None"
    by blast
  ultimately show ?thesis using ex_backwards by blast
qed

section \<open>Properties of the shape-tracing fit\<close>

lemma collect_Inr: "collect (map (\<lambda>j. Inr (g j)) js) = Inr (map g js)"
  by (induction js) simp_all

lemma collect_length: "collect rs = Inr vs \<Longrightarrow> length vs = length rs"
proof (induction rs arbitrary: vs)
  case Nil
  then show ?case by simp
next
  case (Cons r rs)
  then show ?case by (cases r) (auto split: sum.splits)
qed

lemma t_entry_interior:
  assumes "0 < p" "p < 1"
  shows "t_entry A0 n N1 N2 ET p xi =
     Inr ((xi - p * ET) / (p powr N1 * (1 - p) powr N2) - A0 * (1 - p) ^ n)"
  using assms by (simp add: t_entry_def np_power_def)

lemma tracing_Inr:
  assumes "calculate_shape_coefficients_tracing A0 x y N1 N2 chord ET = Inr A"
  shows "length A = length x + 1 \<and> hd A = A0"
proof -
  from assms obtain t M where
    t: "collect (map (\<lambda>jj. t_entry A0 (length x) N1 N2 (ET / chord)
           (map (\<lambda>v. v / chord) x ! jj) (map (\<lambda>v. v / chord) y ! jj)) [0..<length x]) = Inr t"
    and M: "inv_np (bernstein_matrix (length x) (map (\<lambda>v. v / chord) x)) = Inr M"
    and A: "A = A0 # matvec M t"
    by (auto simp: calculate_shape_coefficients_tracing_def Let_def split: if_splits sum.splits)
  have sq: "\<forall>r \<in> set (bernstein_matrix (length x) (map (\<lambda>v. v / chord) x)).
      length r = length (bernstein_matrix (length x) (map (\<lambda>v. v / chord) x))"
    by (auto simp: bernstein_matrix_def bernstein_row_def)
  from collect_length[OF t] have "length t = length (bernstein_matrix (length x) (map (\<lambda>v. v / chord) x))"
    by (simp add: bernstein_matrix_def)
  from inv_np_sound[OF M sq this] have "length M = length x"
    by (simp add: bernstein_matrix_def)
  with A show ?thesis by (simp add: matvec_def)
qed

text \<open>
  Claim C9. For target points whose normalised abscissas are distinct and strictly
  inside \<open>(0,1)\<close>, the fit returns \<open>A0\<close> followed by \<open>n\<close> coefficients that solve the
  square system with one row per target point, the Bernstein entries of the
  specification as columns, and the right-hand side of the specification; whatever the
  input, a returned list has \<open>n + 1\<close> entries and starts with \<open>A0\<close>.
\<close>

theorem tracing_fit:
  "(calculate_shape_coefficients_tracing A0 x y N1 N2 chord EndThickness = Inr A' \<longrightarrow>
      length A' = length x + 1 \<and> hd A' = A0) \<and>
   (chord \<noteq> 0 \<and> length x \<le> length y \<and> distinct x \<and>
    (\<forall>v \<in> set x. 0 < v / chord \<and> v / chord < 1) \<longrightarrow>
      (\<forall>j < length x. \<forall>i < length x.
          bernstein_matrix (length x) (map (\<lambda>v. v / chord) x) ! j ! i =
            spec_bernstein_entry (length x) (x ! j / chord) i) \<and>
      (\<exists>A. calculate_shape_coefficients_tracing A0 x y N1 N2 chord EndThickness = Inr (A0 # A) \<and>
           length A = length x \<and>
           (\<forall>j < length x.
              (\<Sum>i < length x. spec_bernstein_entry (length x) (x ! j / chord) i * A ! i) =
                spec_tracing_rhs A0 (length x) N1 N2 chord EndThickness (x ! j) (y ! j))))"
proof (rule conjI; rule impI)
  assume "calculate_shape_coefficients_tracing A0 x y N1 N2 chord EndThickness = Inr A'"
  from tracing_Inr[OF this] show "length A' = length x + 1 \<and> hd A' = A0" .
next
  assume h: "chord \<noteq> 0 \<and> length x \<le> length y \<and> distinct x \<and>
    (\<forall>v \<in> set x. 0 < v / chord \<and> v / chord < 1)"
  define n where "n = length x"
  define Psi where "Psi = map (\<lambda>v. v / chord) x"
  define Xi where "Xi = map (\<lambda>v. v / chord) y"
  define g where "g jj = (Xi ! jj - Psi ! jj * (EndThickness / chord))
      / ((Psi ! jj) powr N1 * (1 - Psi ! jj) powr N2) - A0 * (1 - Psi ! jj) ^ n" for jj
  from h have c: "chord \<noteq> 0" and ly: "length x \<le> length y" and dx: "distinct x"
    and int: "\<forall>v \<in> set x. 0 < v / chord \<and> v / chord < 1" by simp_all
  have lP: "length Psi = n" by (simp add: Psi_def n_def)
  have dP: "distinct Psi"
    unfolding Psi_def using dx c by (simp add: distinct_map inj_on_def)
  have iP: "\<forall>p \<in> set Psi. 0 < p \<and> p < 1"
    using int by (auto simp: Psi_def)
  have ent: "map (\<lambda>jj. t_entry A0 n N1 N2 (EndThickness / chord) (Psi ! jj) (Xi ! jj)) [0..<n]
      = map (\<lambda>jj. Inr (g jj)) [0..<n]"
  proof (rule map_cong[OF refl])
    fix jj assume "jj \<in> set [0..<n]"
    then have "Psi ! jj \<in> set Psi" using lP by simp
    with iP have "0 < Psi ! jj" "Psi ! jj < 1" by auto
    from t_entry_interior[OF this] show
      "t_entry A0 n N1 N2 (EndThickness / chord) (Psi ! jj) (Xi ! jj) = Inr (g jj)"
      by (simp add: g_def)
  qed
  from inv_np_bernstein[OF lP dP iP] obtain M where
    M: "inv_np (bernstein_matrix n Psi) = Inr M" by blast
  define t where "t = map g [0..<n]"
  have res: "calculate_shape_coefficients_tracing A0 x y N1 N2 chord EndThickness
      = Inr (A0 # matvec M t)"
    using c ly M
    by (simp add: calculate_shape_coefficients_tracing_def Let_def n_def[symmetric]
        Psi_def[symmetric] Xi_def[symmetric] ent collect_Inr t_def)
  have sq: "\<forall>r \<in> set (bernstein_matrix n Psi). length r = length (bernstein_matrix n Psi)"
    by (auto simp: bernstein_matrix_def bernstein_row_def)
  have lt: "length t = length (bernstein_matrix n Psi)"
    by (simp add: t_def bernstein_matrix_def)
  from inv_np_sound[OF M sq lt] have lM: "length M = n"
    and sol: "matvec (bernstein_matrix n Psi) (matvec M t) = t"
    by (simp_all add: bernstein_matrix_def)
  have lA: "length (matvec M t) = n" using lM by (simp add: matvec_def)
  have sys: "(\<Sum>i < n. spec_bernstein_entry n (x ! j / chord) i * matvec M t ! i) =
                spec_tracing_rhs A0 n N1 N2 chord EndThickness (x ! j) (y ! j)"
    if "j < n" for j
  proof -
    have "matvec (bernstein_matrix n Psi) (matvec M t) ! j = t ! j" using sol by simp
    then have "dot (bernstein_row n (Psi ! j)) (matvec M t) = g j"
      using that by (simp add: matvec_def bernstein_matrix_def t_def)
    moreover have "Psi ! j = x ! j / chord" "Xi ! j = y ! j / chord"
      using that ly by (simp_all add: Psi_def Xi_def n_def)
    ultimately show ?thesis
      using lA by (simp add: dot_bernstein_row_spec g_def spec_tracing_rhs_def)
  qed
  have mat: "bernstein_matrix n Psi ! j ! i = spec_bernstein_entry n (x ! j / chord) i"
    if "j < n" "i < n" for i j
    using that bernstein_matrix_entry[OF that, of Psi] by (simp add: Psi_def n_def)
  from mat res lA sys show
    "(\<forall>j < length x. \<forall>i < length x.
          bernstein_matrix (length x) (map (\<lambda>v. v / chord) x) ! j ! i =
            spec_bernstein_entry (length x) (x ! j / chord) i) \<and>
      (\<exists>A. calculate_shape_coefficients_tracing A0 x y N1 N2 chord EndThickness = Inr (A0 # A) \<and>
           length A = length x \<and>
           (\<forall>j < length x.
              (\<Sum>i < length x. spec_bernstein_entry (length x) (x ! j / chord) i * A ! i) =
                spec_tracing_rhs A0 (length x) N1 N2 chord EndThickness (x ! j) (y ! j)))"
    unfolding n_def[symmetric] Psi_def[symmetric] by blast
qed

lemma ex_tracing:
  "calculate_shape_coefficients_tracing (- 2) [1 / 4] [7 / 10] 1 1 (1 / 2) 1 = Inr [- 2, 26 / 5]"
proof -
  have "t_entry (- 2) (Suc 0) 1 1 2 (1 / 2) (7 / 5) = Inr (13 / 5)"
    by (simp add: t_entry_def np_power_def)
  then show ?thesis
    by (simp add: calculate_shape_coefficients_tracing_def Let_def ex_bernstein ex_inv matvec_def)
qed

theorem tracing_fit_witness:
  "calculate_shape_coefficients_tracing (- 2) [1 / 4] [7 / 10] 1 1 (1 / 2) 1 = Inr [- 2, 26 / 5] \<and>
   length [- 2, 26 / 5 :: real] = length [1 / 4 :: real] + 1 \<and> hd [- 2, 26 / 5 :: real] = - 2 \<and>
   (1 / 2 :: real) \<noteq> 0 \<and> length [1 / 4 :: real] \<le> length [7 / 10 :: real] \<and>
   distinct [1 / 4 :: real] \<and> 0 < (1 / 4 :: real) / (1 / 2) \<and> (1 / 4 :: real) / (1 / 2) < 1 \<and>
   bernstein_matrix 1 [1 / 2] ! 0 ! 0 = spec_bernstein_entry 1 (1 / 2) 0 \<and>
   spec_bernstein_entry 1 (1 / 2) 0 * (26 / 5) = spec_tracing_rhs (- 2) 1 1 1 (1 / 2) 1 (1 / 4) (7 / 10)"
proof -
  note r = tracing_fit[of "- 2" "[1 / 4]" "[7 / 10]" 1 1 "1 / 2" 1 "[- 2, 26 / 5]"]
  from r ex_tracing have 1: "length [- 2, 26 / 5 :: real] = length [1 / 4 :: real] + 1 \<and>
      hd [- 2, 26 / 5 :: real] = - 2" by blast
  from r have 2: "bernstein_matrix 1 [1 / 2] ! 0 ! 0 = spec_bernstein_entry 1 (1 / 2) 0"
    by simp
  from r obtain A where A: "calculate_shape_coefficients_tracing (- 2) [1 / 4] [7 / 10] 1 1 (1 / 2) 1
       = Inr (- 2 # A)"
    "spec_bernstein_entry 1 (1 / 2) 0 * A ! 0 = spec_tracing_rhs (- 2) 1 1 1 (1 / 2) 1 (1 / 4) (7 / 10)"
    by auto
  from A(1) ex_tracing have "A = [26 / 5]" by simp
  with A(2) have 3: "spec_bernstein_entry 1 (1 / 2) 0 * (26 / 5)
      = spec_tracing_rhs (- 2) 1 1 1 (1 / 2) 1 (1 / 4) (7 / 10)" by simp
  from 1 2 3 ex_tracing show ?thesis by simp
qed

section \<open>The round trip in exact arithmetic\<close>

lemma dot_commute: "dot u v = dot v u"
  by (induction u v rule: dot.induct) (simp_all add: dot_Nil2)

lemma bernstein_solution_unique:
  assumes len: "length psis = n" and dist: "distinct psis"
    and dom: "\<forall>p \<in> set psis. 0 < p \<and> p < 1"
    and lu: "length u = n" and lv: "length v = n"
    and eq: "matvec (bernstein_matrix n psis) u = matvec (bernstein_matrix n psis) v"
  shows "u = v"
proof -
  have "\<forall>(r, c) \<in> set (zip (bernstein_matrix n psis) (identity n)). dot r (vsub u v) = 0"
  proof (clarify)
    fix r c assume "(r, c) \<in> set (zip (bernstein_matrix n psis) (identity n))"
    then have "r \<in> set (bernstein_matrix n psis)" by (rule set_zip_leftD)
    then have "dot r u \<in> set (matvec (bernstein_matrix n psis) u)"
      and "dot r u = dot r v"
      using eq by (auto simp: matvec_def)
    then show "dot r (vsub u v) = 0"
      using lu lv by (simp add: dot_commute[of r] dot_vsub)
  qed
  moreover have "length (vsub u v) = n" using lu lv by simp
  ultimately have z: "vsub u v = replicate n 0"
    using bernstein_injective[OF len dist dom] unfolding injective_rows_def by blast
  show ?thesis
  proof (rule nth_equalityI)
    show "length u = length v" using lu lv by simp
  next
    fix i assume i: "i < length u"
    with z lu lv have "vsub u v ! i = 0" by simp
    with i lu lv show "u ! i = v ! i" by (simp add: vsub_def)
  qed
qed

lemma K_zero: "K 0 n = 1"
  by (simp add: K_def)

lemma CST_shape_split:
  assumes "length A = Suc n"
  shows "CST_shape A psi = A ! 0 * (1 - psi) ^ n
     + (\<Sum>i < n. K (i + 1) n * A ! (i + 1) * psi ^ (i + 1) * (1 - psi) ^ (n - (i + 1)))"
  using assms by (simp add: CST_shape_def sum.lessThan_Suc_shift K_zero del: sum.lessThan_Suc)

lemma dot_bernstein_row_shapes:
  assumes "length Au = Suc n" "length Al = Suc n"
  shows "dot (bernstein_row n psi) (map (\<lambda>i. Au ! (i + 1) + Al ! (i + 1)) [0..<n]) =
     CST_shape Au psi + CST_shape Al psi - (Au ! 0 + Al ! 0) * (1 - psi) ^ n"
proof -
  have "dot (bernstein_row n psi) (map (\<lambda>i. Au ! (i + 1) + Al ! (i + 1)) [0..<n]) =
      (\<Sum>i < n. K (i + 1) n * psi ^ (i + 1) * (1 - psi) ^ (n - (i + 1)) * (Au ! (i + 1) + Al ! (i + 1)))"
    by (simp add: dot_sum bernstein_row_def)
  also have "\<dots> = (\<Sum>i < n. K (i + 1) n * Au ! (i + 1) * psi ^ (i + 1) * (1 - psi) ^ (n - (i + 1)))
      + (\<Sum>i < n. K (i + 1) n * Al ! (i + 1) * psi ^ (i + 1) * (1 - psi) ^ (n - (i + 1)))"
    by (simp add: sum.distrib[symmetric] algebra_simps)
  finally show ?thesis
    by (simp add: CST_shape_split[OF assms(1)] CST_shape_split[OF assms(2)] algebra_simps)
qed

lemma unmorphed_thickness:
  assumes "c \<noteq> 0" "0 < psi" "psi < 1"
  shows "((CST_u (psi * c) c (dz / 2) Au - CST_l (psi * c) c (dz / 2) Al) / c - psi * dz / c)
           / (sqrt psi * (1 - psi)) = CST_shape Au psi + CST_shape Al psi"
proof -
  have d: "sqrt psi * (1 - psi) \<noteq> 0" using assms(2,3) by simp
  have "(CST_u (psi * c) c (dz / 2) Au - CST_l (psi * c) c (dz / 2) Al) / c - psi * dz / c
      = sqrt psi * (1 - psi) * (CST_shape Au psi + CST_shape Al psi)"
    using assms(1) by (simp add: CST_u_def CST_l_def field_simps)
  then show ?thesis using d by simp
qed

text \<open>
  With exact arithmetic, and with primitives that behave on an unmorphed configuration
  as the solver expects (the baseline chord of the parent against itself is the parent
  chord, the spar distance of the parent against itself is the CST thickness at the
  station), the backwards solve with the parent's own coefficients \<open>1..n\<close> returns the
  parent. Nothing is said here about the rounding of the program's floating-point
  operations, which decides how close the program comes to this.
\<close>

lemma parent_solve:
  assumes "length Au_P = Suc n" and "length Al_P = Suc n" and "length psi_spars = n"
    and "distinct psi_spars" and "\<forall>psi \<in> set psi_spars. 0 < psi \<and> psi < 1" and "0 < c_P"
    and "calculate_c_baseline P c_P Au_P Au_P deltaz = c_P"
    and "\<forall>psi \<in> set psi_spars.
           calculate_spar_distance P psi Au_P Au_P Al_P deltaz c_P =
             CST_u (psi * c_P) c_P (deltaz / 2) Au_P - CST_l (psi * c_P) c_P (deltaz / 2) Al_P"
  shows "calculate_dependent_shape_coefficients P (tl Au_P) psi_spars Au_P Al_P deltaz c_P
           ''backwards'' =
         Some (Inr (Au_P, Al_P, c_P,
                    map (\<lambda>psi. calculate_spar_distance P psi Au_P Au_P Al_P deltaz c_P) psi_spars))"
proof -
  let ?fr = "tl Au_P"
  let ?a = "Au_P ! 0"
  let ?l = "Al_P ! 0"
  from assms(1) have Au: "?a # ?fr = Au_P" and ne: "Au_P \<noteq> []" and lfr: "length ?fr = n"
    by (cases Au_P; simp)+
  from assms(2) have Al: "?l # tl Al_P = Al_P" and nel: "Al_P \<noteq> []"
    by (cases Al_P; simp)+
  from assms(6) have c: "c_P \<noteq> 0" by simp
  have step: "calculate_AC_u0 P ?fr Au_P deltaz c_P ?a = Inr ?a"
    using c ne by (simp add: calculate_AC_u0_def Au assms(7))
  have "AC_u0_loop (calculate_AC_u0 P ?fr Au_P deltaz c_P) 0 ?a = Some (Inr ?a)"
    by (subst AC_u0_loop.simps) simp
  then have loop: "AC_u0_loop (calculate_AC_u0 P ?fr Au_P deltaz c_P) 9999 ?a = Some (Inr ?a)"
    by (subst AC_u0_loop.simps) (simp add: step)
  have al: "after_loop P ?fr psi_spars Au_P Al_P deltaz c_P ''backwards'' ?a =
      backwards P psi_spars Au_P Au_P Al_P deltaz c_P c_P ?l (?a + ?l) n"
    using c nel assms(1) by (simp add: after_loop_def Let_def Au assms(7))
  from backwards_returns[OF c assms(5,3,4)] obtain Al_C ts where
    bw: "backwards P psi_spars Au_P Au_P Al_P deltaz c_P c_P ?l (?a + ?l) n
           = Inr (Au_P, Al_C, c_P, ts)" by blast
  from backwards_Inr[OF bw] obtain A_bar b_list where
    ts: "ts = map (\<lambda>psi. calculate_spar_distance P psi Au_P Au_P Al_P deltaz c_P) psi_spars"
    and lA: "length A_bar = n" and lb: "length b_list = n"
    and ent: "\<forall>j < n. b_entry c_P deltaz (?a + ?l) n (psi_spars ! j) (ts ! j) = Inr (b_list ! j)"
    and sol: "matvec (bernstein_matrix n psi_spars) A_bar = b_list"
    and AlC: "Al_C = ?l # map (\<lambda>i. A_bar ! i - Au_P ! (i + 1)) [0..<n]"
    by blast
  define v where "v = map (\<lambda>i. Au_P ! (i + 1) + Al_P ! (i + 1)) [0..<n]"
  have lv: "length v = n" by (simp add: v_def)
  have "matvec (bernstein_matrix n psi_spars) v = b_list"
  proof (rule nth_equalityI)
    show "length (matvec (bernstein_matrix n psi_spars) v) = length b_list"
      using lb by (simp add: matvec_def bernstein_matrix_def)
  next
    fix j assume "j < length (matvec (bernstein_matrix n psi_spars) v)"
    then have j: "j < n" by (simp add: matvec_def bernstein_matrix_def)
    with assms(3) have mem: "psi_spars ! j \<in> set psi_spars" by simp
    with assms(5) have int: "0 < psi_spars ! j" "psi_spars ! j < 1" by auto
    from mem assms(8) j assms(3) have tj: "ts ! j =
        CST_u (psi_spars ! j * c_P) c_P (deltaz / 2) Au_P
        - CST_l (psi_spars ! j * c_P) c_P (deltaz / 2) Al_P"
      by (simp add: ts)
    from ent j have "b_entry c_P deltaz (?a + ?l) n (psi_spars ! j) (ts ! j) = Inr (b_list ! j)"
      by blast
    then have "b_list ! j = (ts ! j / c_P - psi_spars ! j * deltaz / c_P)
        / (sqrt (psi_spars ! j) * (1 - psi_spars ! j)) - (?a + ?l) * (1 - psi_spars ! j) ^ n"
      by (rule b_entry_Inr)
    also have "\<dots> = CST_shape Au_P (psi_spars ! j) + CST_shape Al_P (psi_spars ! j)
        - (?a + ?l) * (1 - psi_spars ! j) ^ n"
      unfolding tj unmorphed_thickness[OF c int] ..
    also have "\<dots> = dot (bernstein_row n (psi_spars ! j)) v"
      unfolding v_def dot_bernstein_row_shapes[OF assms(1,2)] ..
    finally show "matvec (bernstein_matrix n psi_spars) v ! j = b_list ! j"
      using j by (simp add: matvec_def bernstein_matrix_def)
  qed
  with sol have "matvec (bernstein_matrix n psi_spars) A_bar = matvec (bernstein_matrix n psi_spars) v"
    by simp
  from bernstein_solution_unique[OF assms(3,4,5) lA lv this] have "A_bar = v" .
  then have "Al_C = ?l # map (\<lambda>i. Al_P ! (i + 1)) [0..<n]"
    by (simp add: AlC v_def)
  also have "\<dots> = Al_P"
    using assms(2) by (intro nth_equalityI) (auto simp: nth_Cons split: nat.splits)
  finally have "Al_C = Al_P" .
  with bw ts al cdsc_of_loop[OF ne loop] show ?thesis by simp
qed

section \<open>What the spar thicknesses measure\<close>

lemma ex_forwards:
  "calculate_dependent_shape_coefficients unmorphed [1] [1 / 4] [1 / 9, 1] [1 / 9, 1] 0 1 ''forwards''
     = Some (Inr ([1 / 9, 1], [1 / 9, 1], 1, [1 / 4]))"
proof -
  have cb: "calculate_c_baseline unmorphed c a b d = c" for a b c d
    by (simp add: unmorphed_def)
  have pg: "calculate_psi_goal unmorphed p a b d c c' = p" for p a b d c c'
    by (simp add: unmorphed_def)
  have sd: "calculate_spar_direction unmorphed p a b d c = (0, 1)" for p a b d c
    by (simp add: unmorphed_def)
  have u: "CST_u (1 / 4) 1 0 [1 / 9, 1] = 1 / 8"
    by (simp add: CST_u_def CST_shape_2 sqrt_quarter)
  have l: "CST_l (1 / 4) 1 0 [1 / 9, 1] = - (1 / 8)"
    by (simp add: CST_l_def CST_shape_2 sqrt_quarter)
  have fe: "f_entry 1 0 (1 / 9) (Suc 0) (1 / 4) (- (1 / 8)) = Inr (1 / 4)"
    by (simp add: f_entry_def sqrt_quarter)
  have "after_loop unmorphed [1] [1 / 4] [1 / 9, 1] [1 / 9, 1] 0 1 ''forwards'' (1 / 9)
      = Inr ([1 / 9, 1], [1 / 9, 1], 1, [1 / 4])"
    by (simp add: after_loop_def Let_def cb pg sd u l fe forwards_def ex_bernstein ex_inv matvec_def)
  with cdsc_of_loop[OF _ ex_loop] show ?thesis by simp
qed

lemma ex_upper_slope:
  "((\<lambda>x. CST_u x 1 (0 / 2) [1 / 9, 1]) has_real_derivative 5 / 12) (at (1 / 4 * 1))"
proof -
  have eq: "(\<lambda>x. CST_u x 1 (0 / 2) [1 / 9, 1]) = (\<lambda>x. sqrt x * (1 - x) * (1 / 9 * (1 - x) + x))"
    by (rule ext) (simp add: CST_u_def CST_shape_2)
  have "((\<lambda>x. sqrt x * (1 - x) * (1 / 9 * (1 - x) + x)) has_real_derivative 5 / 12) (at (1 / 4))"
    by (auto intro!: derivative_eq_intros simp: sqrt_quarter field_simps)
  with eq show ?thesis by simp
qed

lemma ex_norm: "sqrt (1 + (5 / 12)\<^sup>2) = 13 / 12"
  by (rule real_sqrt_unique) (simp_all add: power2_eq_square)

lemma ex_not_orthogonal:
  "\<not> orthogonal_thickness [1 / 9, 1] [1 / 9, 1] 0 1 (1 / 4) (1 / 4)"
proof
  assume "orthogonal_thickness [1 / 9, 1] [1 / 9, 1] 0 1 (1 / 4) (1 / 4)"
  then obtain m where
    d: "((\<lambda>x. CST_u x 1 (0 / 2) [1 / 9, 1]) has_real_derivative m) (at (1 / 4 * 1))"
    and on: "on_lower_surface [1 / 9, 1] 0 1
           (1 / 4 * 1 + 1 / 4 * (m / sqrt (1 + m\<^sup>2)),
            CST_u (1 / 4 * 1) 1 (0 / 2) [1 / 9, 1] - 1 / 4 * (1 / sqrt (1 + m\<^sup>2))) \<or>
         on_lower_surface [1 / 9, 1] 0 1
           (1 / 4 * 1 - 1 / 4 * (m / sqrt (1 + m\<^sup>2)),
            CST_u (1 / 4 * 1) 1 (0 / 2) [1 / 9, 1] + 1 / 4 * (1 / sqrt (1 + m\<^sup>2)))"
    unfolding orthogonal_thickness_def by blast
  from DERIV_unique[OF d ex_upper_slope] have m: "m = 5 / 12" .
  have u: "CST_u (1 / 4 * 1) 1 (0 / 2) [1 / 9, 1] = 1 / 8"
    by (simp add: CST_u_def CST_shape_2 sqrt_quarter)
  from on consider
    (down) "- (11 / 104) = CST_l (9 / 26) 1 (0 / 2) [1 / 9, 1]"
  | (up) "37 / 104 = CST_l (2 / 13) 1 (0 / 2) [1 / 9, 1]"
    unfolding m ex_norm u on_lower_surface_def by auto
  then show False
  proof cases
    case down
    then have e: "sqrt (9 / 26) = 1287 / 3332"
      by (simp add: CST_l_def CST_shape_2)
    have "(sqrt (9 / 26))\<^sup>2 = (9 / 26 :: real)" by simp
    then have "(1287 / 3332 :: real)\<^sup>2 = 9 / 26" unfolding e .
    then show False by (simp add: power2_eq_square)
  next
    case up
    have "0 \<le> sqrt (2 / 13 :: real)" by simp
    then have "CST_l (2 / 13) 1 (0 / 2) [1 / 9, 1] \<le> 0"
      by (simp add: CST_l_def CST_shape_2)
    with up show False by simp
  qed
qed

text \<open>
  Claim C4 does not hold as stated. In forwards mode, for the symmetric parent with
  coefficients \<open>[1/9, 1]\<close>, unit chord and a spar at \<open>1/4\<close>, the upper surface has slope
  \<open>5/12\<close> at the station; the returned thickness is \<open>1/4\<close>, the vertical distance between
  the surfaces, and no point of the lower surface lies at distance \<open>1/4\<close> along the
  normal.
\<close>

theorem spar_thickness_counterexample:
  "calculate_dependent_shape_coefficients unmorphed [1] [1 / 4] [1 / 9, 1] [1 / 9, 1] 0 1 ''forwards''
     = Some (Inr ([1 / 9, 1], [1 / 9, 1], 1, [1 / 4])) \<and>
   CST_u (1 / 4) 1 0 [1 / 9, 1] - CST_l (1 / 4) 1 0 [1 / 9, 1] = 1 / 4 \<and>
   \<not> orthogonal_thickness [1 / 9, 1] [1 / 9, 1] 0 1 (1 / 4) (1 / 4)"
proof -
  have "CST_u (1 / 4) 1 0 [1 / 9, 1] - CST_l (1 / 4) 1 0 [1 / 9, 1] = 1 / 4"
    by (simp add: CST_u_def CST_l_def CST_shape_2 sqrt_quarter)
  with ex_forwards ex_not_orthogonal show ?thesis by simp
qed

lemma parent_vertical_thickness_heights:
  "c_P \<noteq> 0 \<Longrightarrow> parent_vertical_thickness Au_P Al_P deltaz c_P psi =
     CST_u (psi * c_P) c_P (deltaz / 2) Au_P - CST_l (psi * c_P) c_P (deltaz / 2) Al_P"
  by (simp add: parent_vertical_thickness_def CST_u_def CST_l_def field_simps)

text \<open>
  Claim C4, amended. In backwards mode every returned spar thickness is the value of
  the spar-distance primitive at the station, called with the child upper, the parent
  upper and the parent lower coefficients and the parent chord. In forwards mode every
  returned spar thickness is the parent chord times the difference of the parent's
  upper and lower CST heights at the station, that is, the vertical distance between
  the parent's surfaces at the abscissa \<open>psi * c_P\<close>.
\<close>

theorem spar_thickness_measure:
  assumes "calculate_dependent_shape_coefficients P Au_C_1_to_n psi_spars Au_P Al_P deltaz c_P
             morphing = Some (Inr (Au_C, Al_C, c_C, spar_thicknesses))"
  shows "(morphing = ''backwards'' \<longrightarrow>
            spar_thicknesses =
              map (\<lambda>psi. calculate_spar_distance P psi Au_C Au_P Al_P deltaz c_P) psi_spars) \<and>
         (morphing = ''forwards'' \<longrightarrow>
            spar_thicknesses =
              map (\<lambda>psi. CST_u (psi * c_P) c_P (deltaz / 2) Au_P
                          - CST_l (psi * c_P) c_P (deltaz / 2) Al_P) psi_spars)"
proof -
  from cdsc_Inr[OF assms] obtain a where
    al: "after_loop P Au_C_1_to_n psi_spars Au_P Al_P deltaz c_P morphing a
           = Inr (Au_C, Al_C, c_C, spar_thicknesses)" by blast
  from after_loop_Au_C[OF al] have Au: "Au_C = a # Au_C_1_to_n" .
  from after_loop_Inr[OF al] consider
    (b) c l A where "morphing = ''backwards''"
      "backwards P psi_spars (a # Au_C_1_to_n) Au_P Al_P deltaz c_P c l A (length Au_C_1_to_n)
         = Inr (Au_C, Al_C, c_C, spar_thicknesses)"
  | (f) c l where "morphing = ''forwards''"
      "forwards P psi_spars (a # Au_C_1_to_n) Au_P Al_P deltaz c_P c l (length Au_C_1_to_n)
         = Inr (Au_C, Al_C, c_C, spar_thicknesses)"
    by blast
  then show ?thesis
  proof cases
    case b
    from backwards_Inr[OF b(2)] b(1) Au show ?thesis by simp
  next
    case f
    from forwards_Inr[OF f(2)] have
      ts: "spar_thicknesses = map (parent_vertical_thickness Au_P Al_P deltaz c_P) psi_spars"
      and len: "length psi_spars = length Au_C_1_to_n"
      by simp_all
    have "spar_thicknesses =
              map (\<lambda>psi. CST_u (psi * c_P) c_P (deltaz / 2) Au_P
                          - CST_l (psi * c_P) c_P (deltaz / 2) Al_P) psi_spars"
    proof (cases "c_P = 0")
      case False
      with ts show ?thesis by (simp add: parent_vertical_thickness_heights)
    next
      case True
      then show ?thesis
        using ts by (simp add: parent_vertical_thickness_def CST_u_def CST_l_def)
    qed
    with f(1) show ?thesis by simp
  qed
qed

theorem spar_thickness_measure_witness:
  "calculate_dependent_shape_coefficients unmorphed [1] [1 / 4] [1 / 9, 1] [1 / 9, 1] 0 1 ''forwards''
     = Some (Inr ([1 / 9, 1], [1 / 9, 1], 1, [1 / 4])) \<and>
   [1 / 4] = map (\<lambda>psi. CST_u (psi * 1) 1 (0 / 2) [1 / 9, 1] - CST_l (psi * 1) 1 (0 / 2) [1 / 9, 1])
               [1 / 4] \<and>
   calculate_dependent_shape_coefficients unmorphed [1] [1 / 4] [1 / 9, 1] [1 / 9, 1] 0 1 ''backwards''
     = Some (Inr ([1 / 9, 1], [1 / 9, 1], 1, [1 / 4])) \<and>
   [1 / 4] = map (\<lambda>psi. calculate_spar_distance unmorphed psi [1 / 9, 1] [1 / 9, 1] [1 / 9, 1] 0 1)
               [1 / 4]"
  using spar_thickness_measure[OF ex_forwards] spar_thickness_measure[OF ex_backwards]
    ex_forwards ex_backwards
  by simp

section \<open>Further facts about the backwards branch\<close>

lemma inv_np_cases: "inv_np B = Inl LinAlgError \<or> (\<exists>M. inv_np B = Inr M)"
  by (simp add: inv_np_def Let_def split: option.splits)

lemma inv_np_repeated_station:
  assumes "length psis = n" "\<not> distinct psis"
  shows "inv_np (bernstein_matrix n psis) = Inl LinAlgError"
proof (rule ccontr)
  let ?B = "bernstein_matrix n psis"
  assume "inv_np ?B \<noteq> Inl LinAlgError"
  with inv_np_cases obtain M where M: "inv_np ?B = Inr M" by blast
  from assms obtain j k where jk: "j < n" "k < n" "j \<noteq> k" "psis ! j = psis ! k"
    by (auto simp: distinct_conv_nth)
  have sq: "\<forall>r \<in> set ?B. length r = length ?B"
    by (auto simp: bernstein_matrix_def bernstein_row_def)
  have lB: "length ?B = n" by (simp add: bernstein_matrix_def)
  have lu: "length (unit_vec n j) = length ?B" by (simp add: unit_vec_def lB)
  from inv_np_sound[OF M sq lu] have s: "matvec ?B (matvec M (unit_vec n j)) = unit_vec n j"
    by simp
  have "matvec ?B (matvec M (unit_vec n j)) ! j = matvec ?B (matvec M (unit_vec n j)) ! k"
    using jk by (simp add: matvec_def bernstein_matrix_def)
  then have "unit_vec n j ! j = unit_vec n j ! k" unfolding s .
  with jk show False by (simp add: unit_vec_def)
qed

lemma unmorphed_loop:
  assumes "Au_P \<noteq> []" "c_P \<noteq> 0"
  shows "AC_u0_loop (calculate_AC_u0 unmorphed fr Au_P dz c_P) 9999 (Au_P ! 0) = Some (Inr (Au_P ! 0))"
proof -
  have f: "calculate_AC_u0 unmorphed fr Au_P dz c_P x = Inr (Au_P ! 0)" for x
    using assms by (simp add: calculate_AC_u0_def unmorphed_def)
  have "AC_u0_loop (calculate_AC_u0 unmorphed fr Au_P dz c_P) 0 (Au_P ! 0) = Some (Inr (Au_P ! 0))"
    by (subst AC_u0_loop.simps) simp
  then show ?thesis
    by (subst AC_u0_loop.simps) (simp add: f)
qed

lemma backwards_repeated_station:
  assumes "c_C \<noteq> 0" "\<forall>psi \<in> set psis. 0 < psi \<and> psi < 1" "length psis = n" "\<not> distinct psis"
  shows "backwards P psis Au_C Au_P Al_P dz c_P c_C AC_l0 A0 n = Inl LinAlgError"
proof -
  have "0 + length psis \<le> length (replicate n (0::real))" using assms(3) by simp
  from b_loop_returns[OF assms(1,2) this, of P Au_C Au_P Al_P dz c_P A0 n "[]"] obtain ts b where
    "b_loop P Au_C Au_P Al_P dz c_P c_C A0 n psis 0 [] (replicate n 0) = Inr (ts, b)"
    by blast
  with inv_np_repeated_station[OF assms(3,4)] assms(3) show ?thesis
    by (simp add: backwards_def)
qed

lemma after_loop_backwards:
  assumes "0 < c_P / calculate_c_baseline P c_P (a # fr) Au_P dz" "Al_P \<noteq> []"
  shows "after_loop P fr psis Au_P Al_P dz c_P ''backwards'' a =
     backwards P psis (a # fr) Au_P Al_P dz c_P (calculate_c_baseline P c_P (a # fr) Au_P dz)
       (sqrt (c_P / calculate_c_baseline P c_P (a # fr) Au_P dz) * Al_P ! 0)
       (a + sqrt (c_P / calculate_c_baseline P c_P (a # fr) Au_P dz) * Al_P ! 0) (length fr)"
proof -
  from assms(1) have "calculate_c_baseline P c_P (a # fr) Au_P dz \<noteq> 0" by auto
  with assms show ?thesis
    by (simp add: after_loop_def Let_def not_less[symmetric] less_imp_le)
qed

lemma cdsc_returns_length:
  assumes "calculate_dependent_shape_coefficients P fr psis Au_P Al_P dz c_P m = Some (Inr res)"
  shows "length psis = length fr"
proof -
  obtain Au_C Al_C c_C ts where res: "res = (Au_C, Al_C, c_C, ts)" by (cases res)
  from cdsc_Inr[OF assms] res obtain a where
    al: "after_loop P fr psis Au_P Al_P dz c_P m a = Inr (Au_C, Al_C, c_C, ts)" by blast
  from after_loop_Inr[OF al] consider
    (b) c l A where "backwards P psis (a # fr) Au_P Al_P dz c_P c l A (length fr)
             = Inr (Au_C, Al_C, c_C, ts)"
  | (f) c l where "forwards P psis (a # fr) Au_P Al_P dz c_P c l (length fr)
             = Inr (Au_C, Al_C, c_C, ts)"
    by blast
  then show ?thesis
  proof cases
    case b
    from backwards_Inr[OF b] show ?thesis by simp
  next
    case f
    from forwards_Inr[OF f] show ?thesis by simp
  qed
qed

lemma ex_near_singular_matrix:
  "bernstein_matrix 2 [1 / 10 ^ 10, 1 / 10 ^ 10 + 1 / 10 ^ 12] =
     [ [2 * (1 / 10 ^ 10) * (1 - 1 / 10 ^ 10), (1 / 10 ^ 10)\<^sup>2],
      [2 * (1 / 10 ^ 10 + 1 / 10 ^ 12) * (1 - (1 / 10 ^ 10 + 1 / 10 ^ 12)),
       (1 / 10 ^ 10 + 1 / 10 ^ 12)\<^sup>2] ]"
  by (simp add: bernstein_matrix_def bernstein_row_def K_def numeral_2_eq_2 fact_numeral)

section \<open>Dimensions of the inputs\<close>

lemma osc_diverges_any:
  "calculate_dependent_shape_coefficients oscillating [] psis [1] Al_P 0 1 m = None"
proof -
  have "AC_u0_loop (calculate_AC_u0 oscillating [] [1] 0 1) 9999 1 = None"
    by (rule loop_diverges) (simp_all add: osc_beyond)
  then show ?thesis
    by (simp add: calculate_dependent_shape_coefficients_def)
qed

lemma backwards_length_mismatch:
  assumes "c_C \<noteq> 0" "\<forall>psi \<in> set psis. 0 < psi \<and> psi < 1" "length psis \<noteq> n"
  shows "backwards P psis Au_C Au_P Al_P dz c_P c_C AC_l0 A0 n = Inl IndexError"
proof (cases "n < length psis")
  case True
  then have "length (replicate n (0::real)) < 0 + length psis" by simp
  from b_loop_too_long[OF assms(1,2) this, of P Au_C Au_P Al_P dz c_P A0 n "[]"]
  show ?thesis by (simp add: backwards_def)
next
  case False
  with assms(3) have lt: "length psis < n" by simp
  then have "0 + length psis \<le> length (replicate n (0::real))" by simp
  from b_loop_returns[OF assms(1,2) this, of P Au_C Au_P Al_P dz c_P A0 n "[]"] obtain ts b where
    "b_loop P Au_C Au_P Al_P dz c_P c_C A0 n psis 0 [] (replicate n 0) = Inr (ts, b)"
    by blast
  with lt show ?thesis by (simp add: backwards_def)
qed

lemma ex_unequal_parents:
  "calculate_dependent_shape_coefficients unmorphed [1] [1 / 4] [1 / 9, 1] [1 / 9] 0 1 ''backwards''
     = Some (Inr ([1 / 9, 1], [1 / 9, 1 / 9], 1, [1 / 6]))"
proof -
  have cb: "calculate_c_baseline unmorphed c a b d = c" for a b c d
    by (simp add: unmorphed_def)
  have sh: "CST_shape [a0] psi = a0" for a0 psi
    by (simp add: CST_shape_def K_def)
  have sd: "calculate_spar_distance unmorphed (1 / 4) Au_b [1 / 9, 1] [1 / 9] 0 1 = 1 / 6" for Au_b
    by (simp add: unmorphed_def CST_u_def CST_l_def CST_shape_2 sh sqrt_quarter)
  have be: "b_entry 1 0 (2 / 9) (Suc 0) (1 / 4) (1 / 6) = Inr (5 / 18)"
    by (simp add: b_entry_def sqrt_quarter)
  have lp: "AC_u0_loop (calculate_AC_u0 unmorphed [1] [1 / 9, 1] 0 1) 9999 ([1 / 9, 1] ! 0)
      = Some (Inr ([1 / 9, 1] ! 0))"
    by (rule unmorphed_loop) simp_all
  have "after_loop unmorphed [1] [1 / 4] [1 / 9, 1] [1 / 9] 0 1 ''backwards'' (1 / 9)
      = Inr ([1 / 9, 1], [1 / 9, 1 / 9], 1, [1 / 6])"
    by (simp add: after_loop_def Let_def cb backwards_def sd be ex_bernstein ex_inv matvec_def)
  with cdsc_of_loop[OF _ lp] show ?thesis by simp
qed

lemma ex_too_many_stations:
  "calculate_dependent_shape_coefficients unmorphed [] [1 / 4] [1] [1] 0 1 ''backwards''
     = Some (Inl IndexError)"
proof -
  have cb: "calculate_c_baseline unmorphed c a b d = c" for a b c d
    by (simp add: unmorphed_def)
  have lp: "AC_u0_loop (calculate_AC_u0 unmorphed [] [1] 0 1) 9999 ([1] ! 0) = Some (Inr ([1] ! 0))"
    by (rule unmorphed_loop) simp_all
  have "after_loop unmorphed [] [1 / 4] [1] [1] 0 1 ''backwards'' 1 = Inl IndexError"
    by (simp add: after_loop_def Let_def cb backwards_def b_entry_def sqrt_quarter)
  with cdsc_of_loop[OF _ lp] show ?thesis by simp
qed

text \<open>
  Claim C7 does not hold as stated. A parent whose upper list has two coefficients and
  whose lower list has one is solved without complaint. With no free coefficient and
  one spar station the fixed-point iteration is run all the same: with the alternating
  baseline chord the call never returns, and with a constant one it ends in
  \<open>IndexError\<close>, raised by the assembly.
\<close>

theorem dimension_counterexample:
  "calculate_dependent_shape_coefficients unmorphed [1] [1 / 4] [1 / 9, 1] [1 / 9] 0 1 ''backwards''
     = Some (Inr ([1 / 9, 1], [1 / 9, 1 / 9], 1, [1 / 6])) \<and>
   length [1 / 9, 1 :: real] \<noteq> length [1 / 9 :: real] \<and>
   length ([] :: real list) \<noteq> length [1 / 4 :: real] \<and>
   calculate_dependent_shape_coefficients oscillating [] [1 / 4] [1] [1] 0 1 ''backwards'' = None \<and>
   calculate_dependent_shape_coefficients unmorphed [] [1 / 4] [1] [1] 0 1 ''backwards''
     = Some (Inl IndexError)"
  using ex_unequal_parents osc_diverges_any ex_too_many_stations by simp

text \<open>
  Claim C7, amended. The function checks no dimension. The fixed-point iteration comes
  first: if it does not end, the call does not return, whatever the lengths. When the
  number of spar stations differs from the number of free upper coefficients no result
  is returned, in either mode; in backwards mode with interior stations, once the loop
  has ended with a positive chord ratio, the call ends in \<open>IndexError\<close>. The lengths
  of the parent's upper and lower coefficient lists are not looked at: with as many
  distinct interior stations as free coefficients the backwards solve returns a result
  for any two non-empty parent lists.
\<close>

theorem no_dimension_check:
  "(length psi_spars \<noteq> length Au_C_1_to_n \<longrightarrow>
      calculate_dependent_shape_coefficients P Au_C_1_to_n psi_spars Au_P Al_P deltaz c_P morphing
        \<noteq> Some (Inr res)) \<and>
   (length psi_spars \<noteq> length Au_C_1_to_n \<and>
    (\<forall>psi \<in> set psi_spars. 0 < psi \<and> psi < 1) \<and> Au_P \<noteq> [] \<and> Al_P \<noteq> [] \<and>
    AC_u0_loop (calculate_AC_u0 P Au_C_1_to_n Au_P deltaz c_P) 9999 (Au_P ! 0) = Some (Inr a) \<and>
    0 < c_P / calculate_c_baseline P c_P (a # Au_C_1_to_n) Au_P deltaz \<longrightarrow>
      calculate_dependent_shape_coefficients P Au_C_1_to_n psi_spars Au_P Al_P deltaz c_P
        ''backwards'' = Some (Inl IndexError)) \<and>
   (Au_P \<noteq> [] \<and>
    AC_u0_loop (calculate_AC_u0 P Au_C_1_to_n Au_P deltaz c_P) 9999 (Au_P ! 0) = None \<longrightarrow>
      calculate_dependent_shape_coefficients P Au_C_1_to_n psi_spars Au_P Al_P deltaz c_P morphing
        = None) \<and>
   (length psi_spars = length Au_C_1_to_n \<and> distinct psi_spars \<and>
    (\<forall>psi \<in> set psi_spars. 0 < psi \<and> psi < 1) \<and> Au_P \<noteq> [] \<and> Al_P \<noteq> [] \<and>
    AC_u0_loop (calculate_AC_u0 P Au_C_1_to_n Au_P deltaz c_P) 9999 (Au_P ! 0) = Some (Inr a) \<and>
    0 < c_P / calculate_c_baseline P c_P (a # Au_C_1_to_n) Au_P deltaz \<longrightarrow>
      (\<exists>Al_C ts. calculate_dependent_shape_coefficients P Au_C_1_to_n psi_spars Au_P Al_P
                     deltaz c_P ''backwards''
          = Some (Inr (a # Au_C_1_to_n, Al_C,
                       calculate_c_baseline P c_P (a # Au_C_1_to_n) Au_P deltaz, ts))))"
proof -
  have 1: "calculate_dependent_shape_coefficients P Au_C_1_to_n psi_spars Au_P Al_P deltaz c_P
        morphing \<noteq> Some (Inr res)"
    if "length psi_spars \<noteq> length Au_C_1_to_n"
    using that cdsc_returns_length by blast
  have 2: "calculate_dependent_shape_coefficients P Au_C_1_to_n psi_spars Au_P Al_P deltaz c_P
        ''backwards'' = Some (Inl IndexError)"
    if len: "length psi_spars \<noteq> length Au_C_1_to_n"
      and int: "\<forall>psi \<in> set psi_spars. 0 < psi \<and> psi < 1" and ne: "Au_P \<noteq> []" "Al_P \<noteq> []"
      and lp: "AC_u0_loop (calculate_AC_u0 P Au_C_1_to_n Au_P deltaz c_P) 9999 (Au_P ! 0)
                 = Some (Inr a)"
      and pos: "0 < c_P / calculate_c_baseline P c_P (a # Au_C_1_to_n) Au_P deltaz"
  proof -
    from pos have nz: "calculate_c_baseline P c_P (a # Au_C_1_to_n) Au_P deltaz \<noteq> 0" by auto
    from after_loop_backwards[OF pos ne(2)] backwards_length_mismatch[OF nz int len]
    have "after_loop P Au_C_1_to_n psi_spars Au_P Al_P deltaz c_P ''backwards'' a
            = Inl IndexError" by simp
    with cdsc_of_loop[OF ne(1) lp] show ?thesis by simp
  qed
  have 3: "calculate_dependent_shape_coefficients P Au_C_1_to_n psi_spars Au_P Al_P deltaz c_P
        morphing = None"
    if "Au_P \<noteq> []"
      "AC_u0_loop (calculate_AC_u0 P Au_C_1_to_n Au_P deltaz c_P) 9999 (Au_P ! 0) = None"
    using that by (simp add: calculate_dependent_shape_coefficients_def)
  show ?thesis
  proof (intro conjI impI)
    assume "length psi_spars \<noteq> length Au_C_1_to_n"
    then show "calculate_dependent_shape_coefficients P Au_C_1_to_n psi_spars Au_P Al_P deltaz c_P
        morphing \<noteq> Some (Inr res)" by (rule 1)
  next
    assume "length psi_spars \<noteq> length Au_C_1_to_n \<and>
      (\<forall>psi \<in> set psi_spars. 0 < psi \<and> psi < 1) \<and> Au_P \<noteq> [] \<and> Al_P \<noteq> [] \<and>
      AC_u0_loop (calculate_AC_u0 P Au_C_1_to_n Au_P deltaz c_P) 9999 (Au_P ! 0) = Some (Inr a) \<and>
      0 < c_P / calculate_c_baseline P c_P (a # Au_C_1_to_n) Au_P deltaz"
    then show "calculate_dependent_shape_coefficients P Au_C_1_to_n psi_spars Au_P Al_P deltaz c_P
        ''backwards'' = Some (Inl IndexError)" using 2 by blast
  next
    assume "Au_P \<noteq> [] \<and>
      AC_u0_loop (calculate_AC_u0 P Au_C_1_to_n Au_P deltaz c_P) 9999 (Au_P ! 0) = None"
    then show "calculate_dependent_shape_coefficients P Au_C_1_to_n psi_spars Au_P Al_P deltaz c_P
        morphing = None" using 3 by blast
  next
    assume h: "length psi_spars = length Au_C_1_to_n \<and> distinct psi_spars \<and>
      (\<forall>psi \<in> set psi_spars. 0 < psi \<and> psi < 1) \<and> Au_P \<noteq> [] \<and> Al_P \<noteq> [] \<and>
      AC_u0_loop (calculate_AC_u0 P Au_C_1_to_n Au_P deltaz c_P) 9999 (Au_P ! 0) = Some (Inr a) \<and>
      0 < c_P / calculate_c_baseline P c_P (a # Au_C_1_to_n) Au_P deltaz"
    then have pos: "0 < c_P / calculate_c_baseline P c_P (a # Au_C_1_to_n) Au_P deltaz"
      and ne: "Au_P \<noteq> []" "Al_P \<noteq> []"
      and int: "\<forall>psi \<in> set psi_spars. 0 < psi \<and> psi < 1"
      and len: "length psi_spars = length Au_C_1_to_n" and d: "distinct psi_spars"
      and lp: "AC_u0_loop (calculate_AC_u0 P Au_C_1_to_n Au_P deltaz c_P) 9999 (Au_P ! 0)
                 = Some (Inr a)"
      by simp_all
    from after_loop_backwards_returns[OF pos ne(2) int len d] cdsc_of_loop[OF ne(1) lp]
    show "\<exists>Al_C ts. calculate_dependent_shape_coefficients P Au_C_1_to_n psi_spars Au_P Al_P
                     deltaz c_P ''backwards''
          = Some (Inr (a # Au_C_1_to_n, Al_C,
                       calculate_c_baseline P c_P (a # Au_C_1_to_n) Au_P deltaz, ts))"
      by auto
  qed
qed

theorem no_dimension_check_witness:
  "length [1 / 4 :: real] \<noteq> length ([] :: real list) \<and>
   0 < (1 / 4 :: real) \<and> (1 / 4 :: real) < 1 \<and>
   AC_u0_loop (calculate_AC_u0 unmorphed [] [1] 0 1) 9999 ([1] ! 0) = Some (Inr 1) \<and>
   0 < (1 :: real) / calculate_c_baseline unmorphed 1 [1] [1] 0 \<and>
   calculate_dependent_shape_coefficients unmorphed [] [1 / 4] [1] [1] 0 1 ''backwards''
     = Some (Inl IndexError) \<and>
   calculate_dependent_shape_coefficients unmorphed [] [1 / 4] [1] [1] 0 1 ''backwards''
     \<noteq> Some (Inr ([1], [1], 1, [])) \<and>
   AC_u0_loop (calculate_AC_u0 oscillating [] [1] 0 1) 9999 ([1] ! 0) = None \<and>
   calculate_dependent_shape_coefficients oscillating [] [1 / 4] [1] [1] 0 1 ''forwards'' = None \<and>
   length [1 / 4 :: real] = length [1 :: real] \<and> distinct [1 / 4 :: real] \<and>
   AC_u0_loop (calculate_AC_u0 unmorphed [1] [1 / 9, 1] 0 1) 9999 ([1 / 9, 1] ! 0)
     = Some (Inr (1 / 9)) \<and>
   0 < (1 :: real) / calculate_c_baseline unmorphed 1 [1 / 9, 1] [1 / 9, 1] 0 \<and>
   (\<exists>Al_C ts. calculate_dependent_shape_coefficients unmorphed [1] [1 / 4] [1 / 9, 1] [1 / 9]
        0 1 ''backwards'' = Some (Inr ([1 / 9, 1], Al_C, 1, ts)))"
proof -
  have cb2: "calculate_c_baseline unmorphed 1 [1 / 9, 1] [1 / 9, 1] 0 = 1"
    by (simp add: unmorphed_def)
  note r3 = no_dimension_check[of "[1 / 4]" "[1]" unmorphed "[1 / 9, 1]" "[1 / 9]" 0 1 _ _
      "1 / 9"]
  from r3 ex_loop cb2 have 4: "\<exists>Al_C ts. calculate_dependent_shape_coefficients unmorphed [1]
        [1 / 4] [1 / 9, 1] [1 / 9] 0 1 ''backwards'' = Some (Inr ([1 / 9, 1], Al_C, 1, ts))"
    by simp
  have cb: "calculate_c_baseline unmorphed 1 [1] [1] 0 = 1"
    by (simp add: unmorphed_def)
  have lp: "AC_u0_loop (calculate_AC_u0 unmorphed [] [1] 0 1) 9999 ([1] ! 0) = Some (Inr 1)"
    using unmorphed_loop[of "[1]" 1 "[]" 0] by simp
  have lo: "AC_u0_loop (calculate_AC_u0 oscillating [] [1] 0 1) 9999 ([1] ! 0) = None"
    by (simp add: loop_diverges osc_beyond)
  note r1 = no_dimension_check[of "[1 / 4]" "[]" unmorphed "[1]" "[1]" 0 1 "''backwards''"
      "([1], [1], 1, [])" 1]
  note r2 = no_dimension_check[of "[1 / 4]" "[]" oscillating "[1]" "[1]" 0 1 "''forwards''"]
  from r1 lp cb have "calculate_dependent_shape_coefficients unmorphed [] [1 / 4] [1] [1] 0 1
     ''backwards'' = Some (Inl IndexError)" by simp
  moreover from r1 have "calculate_dependent_shape_coefficients unmorphed [] [1 / 4] [1] [1] 0 1
     ''backwards'' \<noteq> Some (Inr ([1], [1], 1, []))" by simp
  moreover from r2 lo have "calculate_dependent_shape_coefficients oscillating [] [1 / 4] [1] [1]
     0 1 ''forwards'' = None" by simp
  ultimately show ?thesis using lp cb lo 4 ex_loop cb2 by simp
qed

section \<open>Strains of an unmorphed configuration\<close>

lemma flats_loop_unmorphed:
  assumes "\<forall>psi \<in> set psis. calculate_psi_goal P psi Au_P Au_C dz c_P c_C * c_C = g psi"
    and "\<forall>psi \<in> set psis. fst (calculate_spar_direction P psi Au_P Au_C dz c_C) = 0"
    and "j + length psis \<le> length ts"
  shows "flats_loop P Au_P Au_C dz c_P c_C ts psis j acc = Inr (acc @ map g psis)"
  using assms
proof (induction psis arbitrary: j acc)
  case Nil
  then show ?case by simp
next
  case (Cons psi rest)
  from Cons.prems have j: "j < length ts" and "j + 1 + length rest \<le> length ts" by simp_all
  with Cons.IH[of "j + 1"] Cons.prems(1,2) show ?case
    by (simp add: Let_def)
qed

lemma strain_list_same:
  "\<forall>l \<in> set ls. l \<noteq> 0 \<Longrightarrow> strain_list ls ls = Inr (replicate (length ls) 0)"
  by (induction ls) simp_all

lemma strains_unit_chord:
  assumes "\<forall>psi \<in> set psi_spars. calculate_psi_goal P psi Au Au deltaz 1 1 = psi"
    and "\<forall>psi \<in> set psi_spars. fst (calculate_spar_direction P psi Au Au deltaz 1) = 0"
    and "length psi_spars \<le> length spar_thicknesses"
    and "\<forall>(a, b) \<in> set (segments ([0] @ psi_spars @ [1])). calculate_arc_length P a b Al deltaz 1 \<noteq> 0"
    and "(\<Sum>(a, b) \<leftarrow> segments ([0] @ psi_spars @ [1]). calculate_arc_length P a b Al deltaz 1) \<noteq> 0"
  shows "calculate_strains P Au Al 1 Au Al 1 deltaz psi_spars spar_thicknesses =
           Inr (replicate (length psi_spars + 1) 0, 0)"
proof -
  have fl: "flats_loop P Au Au deltaz 1 1 spar_thicknesses psi_spars 0 [] = Inr ([] @ map (\<lambda>p. p) psi_spars)"
    by (rule flats_loop_unmorphed) (use assms in simp_all)
  define ls where "ls = map (\<lambda>(a, b). calculate_arc_length P a b Al deltaz 1)
      (segments (0 # psi_spars @ [1]))"
  have nz: "\<forall>l \<in> set ls. l \<noteq> 0" using assms(4) by (auto simp: ls_def)
  have len: "length ls = length psi_spars + 1" by (simp add: ls_def segments_def)
  have s: "sum_list ls \<noteq> 0" using assms(5) by (simp add: ls_def)
  show ?thesis
    using fl strain_list_same[OF nz] s len
    by (simp add: calculate_strains_def Let_def ls_def[symmetric])
qed

text \<open>
  Claim C5 at a chord different from one. Parent and child are the same flat plate of
  chord \<open>2\<close> with a spar at \<open>1/2\<close>; the primitives take their unmorphed values. The parent
  segments are measured between \<open>0\<close>, \<open>1/2\<close> and \<open>2\<close>, the child segments between \<open>0\<close>,
  \<open>1\<close> and \<open>2\<close>, and the strains are \<open>1\<close> and \<open>-1/3\<close>.
\<close>

theorem strains_identical_chord_two:
  "calculate_strains unmorphed [0, 0] [0, 0] 2 [0, 0] [0, 0] 2 0 [1 / 2] [0] = Inr ([1, - 1 / 3], 0)"
  by (simp add: calculate_strains_def unmorphed_def segments_def Let_def)

section \<open>The backwards linear system\<close>

lemma b_entry_value:
  "c_C \<noteq> 0 \<Longrightarrow> 0 < psi \<Longrightarrow> psi < 1 \<Longrightarrow>
     b_entry c_C dz A0 n psi t = Inr (b_value c_C dz A0 n psi t)"
  by (simp add: b_entry_def b_value_def)

lemma b_loop_value:
  assumes "c_C \<noteq> 0" "\<forall>psi \<in> set psis. 0 < psi \<and> psi < 1" "length psis = n"
  shows "b_loop P Au_C Au_P Al_P dz c_P c_C A0 n psis 0 [] (replicate n 0) =
     Inr (map (\<lambda>psi. calculate_spar_distance P psi Au_C Au_P Al_P dz c_P) psis,
          map (\<lambda>psi. b_value c_C dz A0 n psi
                        (calculate_spar_distance P psi Au_C Au_P Al_P dz c_P)) psis)"
proof -
  have le: "0 + length psis \<le> length (replicate n (0::real))" using assms(3) by simp
  from b_loop_returns[OF assms(1,2) le, of P Au_C Au_P Al_P dz c_P A0 n "[]"] obtain ts b where
    bl: "b_loop P Au_C Au_P Al_P dz c_P c_C A0 n psis 0 [] (replicate n 0) = Inr (ts, b)"
    by blast
  have "0 \<le> length (replicate n (0::real))" by simp
  note c = b_loop_Inr[OF bl this]
  from c have ts: "ts = map (\<lambda>psi. calculate_spar_distance P psi Au_C Au_P Al_P dz c_P) psis"
    and lb: "length b = n" by simp_all
  have "b = map (\<lambda>psi. b_value c_C dz A0 n psi
                        (calculate_spar_distance P psi Au_C Au_P Al_P dz c_P)) psis"
  proof (rule nth_equalityI)
    show "length b = length (map (\<lambda>psi. b_value c_C dz A0 n psi
                        (calculate_spar_distance P psi Au_C Au_P Al_P dz c_P)) psis)"
      using lb assms(3) by simp
  next
    fix i assume "i < length b"
    with lb assms(3) have i: "i < length psis" by simp
    then have "psis ! i \<in> set psis" by simp
    with assms(2) have "0 < psis ! i" "psis ! i < 1" by auto
    from b_entry_value[OF assms(1) this, of dz A0 n
        "calculate_spar_distance P (psis ! i) Au_C Au_P Al_P dz c_P"] c i
    have "b ! i = b_value c_C dz A0 n (psis ! i)
        (calculate_spar_distance P (psis ! i) Au_C Au_P Al_P dz c_P)"
      by auto
    with i show "b ! i = map (\<lambda>psi. b_value c_C dz A0 n psi
                        (calculate_spar_distance P psi Au_C Au_P Al_P dz c_P)) psis ! i"
      by simp
  qed
  with bl ts show ?thesis by simp
qed

text \<open>
  Claim C2. Let the fixed-point loop have ended with \<open>AC_u0\<close> and a positive chord
  ratio, and let there be as many distinct spar stations inside \<open>(0,1)\<close> as free upper
  coefficients. Then the matrix has the entry \<open>C(n, i+1) * psi_j^(i+1) *
  (1-psi_j)^(n-(i+1))\<close> in row \<open>j\<close>, column \<open>i\<close>; the square system with this matrix and
  the right-hand side assembled from the spar distances has exactly one solution
  \<open>A_bar\<close>; and the backwards solve returns the child upper coefficients \<open>AC_u0\<close> and
  the free ones, the child lower coefficients \<open>AC_l0\<close> followed by the differences
  \<open>A_bar[i] - Au_C[i+1]\<close>, the child chord and the spar distances.
\<close>

theorem backwards_linear_system:
  assumes "Au_P \<noteq> []" and "Al_P \<noteq> []"
    and "AC_u0_loop (calculate_AC_u0 P Au_C_1_to_n Au_P deltaz c_P) 9999 (Au_P ! 0)
           = Some (Inr AC_u0)"
    and "c_C = calculate_c_baseline P c_P (AC_u0 # Au_C_1_to_n) Au_P deltaz"
    and "0 < c_P / c_C"
    and "AC_l0 = sqrt (c_P / c_C) * Al_P ! 0"
    and "n = length Au_C_1_to_n"
    and "length psi_spars = n" and "distinct psi_spars"
    and "\<forall>psi \<in> set psi_spars. 0 < psi \<and> psi < 1"
  shows "(\<forall>j < n. \<forall>i < n.
            bernstein_matrix n psi_spars ! j ! i = spec_bernstein_entry n (psi_spars ! j) i) \<and>
         (\<exists>A_bar. length A_bar = n \<and>
            (\<forall>j < n.
               (\<Sum>i < n. spec_bernstein_entry n (psi_spars ! j) i * A_bar ! i) =
                 b_value c_C deltaz (AC_u0 + AC_l0) n (psi_spars ! j)
                   (calculate_spar_distance P (psi_spars ! j) (AC_u0 # Au_C_1_to_n) Au_P Al_P
                      deltaz c_P)) \<and>
            (\<forall>A'. length A' = n \<and>
               (\<forall>j < n.
                  (\<Sum>i < n. spec_bernstein_entry n (psi_spars ! j) i * A' ! i) =
                    b_value c_C deltaz (AC_u0 + AC_l0) n (psi_spars ! j)
                      (calculate_spar_distance P (psi_spars ! j) (AC_u0 # Au_C_1_to_n) Au_P Al_P
                         deltaz c_P)) \<longrightarrow> A' = A_bar) \<and>
            calculate_dependent_shape_coefficients P Au_C_1_to_n psi_spars Au_P Al_P deltaz c_P
              ''backwards'' =
              Some (Inr (AC_u0 # Au_C_1_to_n, AC_l0 # map2 (-) A_bar Au_C_1_to_n, c_C,
                         map (\<lambda>psi. calculate_spar_distance P psi (AC_u0 # Au_C_1_to_n) Au_P Al_P
                                       deltaz c_P) psi_spars)))"
proof -
  let ?Au_C = "AC_u0 # Au_C_1_to_n"
  let ?B = "bernstein_matrix n psi_spars"
  define ts where "ts = map (\<lambda>psi. calculate_spar_distance P psi ?Au_C Au_P Al_P deltaz c_P) psi_spars"
  define b where "b = map (\<lambda>psi. b_value c_C deltaz (AC_u0 + AC_l0) n psi
      (calculate_spar_distance P psi ?Au_C Au_P Al_P deltaz c_P)) psi_spars"
  from assms(5) have nz: "c_C \<noteq> 0" by auto
  have lb: "length b = n" using assms(8) by (simp add: b_def)
  have bj: "b ! j = b_value c_C deltaz (AC_u0 + AC_l0) n (psi_spars ! j)
      (calculate_spar_distance P (psi_spars ! j) ?Au_C Au_P Al_P deltaz c_P)" if "j < n" for j
    using that assms(8) by (simp add: b_def)
  have bl: "b_loop P ?Au_C Au_P Al_P deltaz c_P c_C (AC_u0 + AC_l0) n psi_spars 0 []
      (replicate n 0) = Inr (ts, b)"
    unfolding ts_def b_def by (rule b_loop_value[OF nz assms(10,8)])
  from inv_np_bernstein[OF assms(8,9,10)] obtain M where M: "inv_np ?B = Inr M" by blast
  have sq: "\<forall>r \<in> set ?B. length r = length ?B"
    by (auto simp: bernstein_matrix_def bernstein_row_def)
  have lB: "length ?B = n" by (simp add: bernstein_matrix_def)
  from inv_np_sound[OF M sq] lb lB have lM: "length M = n"
    and sol: "matvec ?B (matvec M b) = b" by simp_all
  define A_bar where "A_bar = matvec M b"
  have lA: "length A_bar = n" using lM by (simp add: A_bar_def matvec_def)
  have sums: "(\<Sum>i < n. spec_bernstein_entry n (psi_spars ! j) i * v ! i) = matvec ?B v ! j"
    if "j < n" "length v = n" for j v
    using that by (simp add: matvec_def bernstein_matrix_def dot_bernstein_row_spec)
  have sys: "\<forall>j < n. (\<Sum>i < n. spec_bernstein_entry n (psi_spars ! j) i * A_bar ! i) =
      b_value c_C deltaz (AC_u0 + AC_l0) n (psi_spars ! j)
        (calculate_spar_distance P (psi_spars ! j) ?Au_C Au_P Al_P deltaz c_P)"
    using sums[OF _ lA] sol bj by (simp add: A_bar_def)
  have uniq: "A' = A_bar"
    if "length A' = n" and
      "\<forall>j < n. (\<Sum>i < n. spec_bernstein_entry n (psi_spars ! j) i * A' ! i) =
        b_value c_C deltaz (AC_u0 + AC_l0) n (psi_spars ! j)
          (calculate_spar_distance P (psi_spars ! j) ?Au_C Au_P Al_P deltaz c_P)" for A'
  proof -
    have "matvec ?B A' = matvec ?B A_bar"
    proof (rule nth_equalityI)
      show "length (matvec ?B A') = length (matvec ?B A_bar)" by (simp add: matvec_def)
    next
      fix j assume "j < length (matvec ?B A')"
      then have j: "j < n" by (simp add: matvec_def lB)
      from that(2) j sums[OF j that(1)] bj[OF j] have "matvec ?B A' ! j = b ! j" by simp
      moreover from sol have "matvec ?B A_bar ! j = b ! j" by (simp add: A_bar_def)
      ultimately show "matvec ?B A' ! j = matvec ?B A_bar ! j" by simp
    qed
    from bernstein_solution_unique[OF assms(8,9,10) that(1) lA this] show ?thesis .
  qed
  have bw: "backwards P psi_spars ?Au_C Au_P Al_P deltaz c_P c_C AC_l0 (AC_u0 + AC_l0) n =
      Inr (?Au_C, AC_l0 # map2 (-) A_bar Au_C_1_to_n, c_C, ts)"
    using bl M assms(8) lA assms(7)
    by (simp add: backwards_def Let_def A_bar_def[symmetric] map2_minus_nth)
  have pos: "0 < c_P / calculate_c_baseline P c_P ?Au_C Au_P deltaz"
    using assms(4,5) by simp
  from after_loop_backwards[OF pos assms(2), of psi_spars] bw
  have "after_loop P Au_C_1_to_n psi_spars Au_P Al_P deltaz c_P ''backwards'' AC_u0 =
      Inr (?Au_C, AC_l0 # map2 (-) A_bar Au_C_1_to_n, c_C, ts)"
    using assms(4,6,7) by simp
  with cdsc_of_loop[OF assms(1,3)] have res:
    "calculate_dependent_shape_coefficients P Au_C_1_to_n psi_spars Au_P Al_P deltaz c_P
       ''backwards'' = Some (Inr (?Au_C, AC_l0 # map2 (-) A_bar Au_C_1_to_n, c_C, ts))"
    by simp
  have mat: "\<forall>j < n. \<forall>i < n.
      bernstein_matrix n psi_spars ! j ! i = spec_bernstein_entry n (psi_spars ! j) i"
    by (simp add: bernstein_matrix_entry)
  from lA sys uniq res have "\<exists>A_bar. length A_bar = n \<and>
            (\<forall>j < n.
               (\<Sum>i < n. spec_bernstein_entry n (psi_spars ! j) i * A_bar ! i) =
                 b_value c_C deltaz (AC_u0 + AC_l0) n (psi_spars ! j)
                   (calculate_spar_distance P (psi_spars ! j) ?Au_C Au_P Al_P deltaz c_P)) \<and>
            (\<forall>A'. length A' = n \<and>
               (\<forall>j < n.
                  (\<Sum>i < n. spec_bernstein_entry n (psi_spars ! j) i * A' ! i) =
                    b_value c_C deltaz (AC_u0 + AC_l0) n (psi_spars ! j)
                      (calculate_spar_distance P (psi_spars ! j) ?Au_C Au_P Al_P deltaz c_P))
               \<longrightarrow> A' = A_bar) \<and>
            calculate_dependent_shape_coefficients P Au_C_1_to_n psi_spars Au_P Al_P deltaz c_P
              ''backwards'' =
              Some (Inr (?Au_C, AC_l0 # map2 (-) A_bar Au_C_1_to_n, c_C,
                         map (\<lambda>psi. calculate_spar_distance P psi ?Au_C Au_P Al_P deltaz c_P)
                           psi_spars))"
    unfolding ts_def by (intro exI[of _ A_bar]) blast
  with mat show ?thesis by blast
qed

theorem backwards_linear_system_witness:
  "[1 / 9, 1 :: real] \<noteq> [] \<and>
   AC_u0_loop (calculate_AC_u0 unmorphed [1 / 2] [1 / 9, 1] 0 1) 9999 ([1 / 9, 1] ! 0)
     = Some (Inr (1 / 9)) \<and>
   calculate_c_baseline unmorphed 1 [1 / 9, 1 / 2] [1 / 9, 1] 0 = 1 \<and>
   0 < (1 :: real) / 1 \<and> sqrt (1 / 1) * [1 / 9, 1] ! 0 = 1 / 9 \<and>
   length [1 / 4 :: real] = length [1 / 2 :: real] \<and> distinct [1 / 4 :: real] \<and>
   0 < (1 / 4 :: real) \<and> (1 / 4 :: real) < 1 \<and>
   bernstein_matrix 1 [1 / 4] ! 0 ! 0 = spec_bernstein_entry 1 (1 / 4) 0 \<and>
   spec_bernstein_entry 1 (1 / 4) 0 * 2 =
     b_value 1 0 (1 / 9 + 1 / 9) 1 (1 / 4)
       (calculate_spar_distance unmorphed (1 / 4) [1 / 9, 1 / 2] [1 / 9, 1] [1 / 9, 1] 0 1) \<and>
   calculate_dependent_shape_coefficients unmorphed [1 / 2] [1 / 4] [1 / 9, 1] [1 / 9, 1] 0 1
     ''backwards'' = Some (Inr ([1 / 9, 1 / 2], [1 / 9, 3 / 2], 1, [1 / 4]))"
proof -
  have h1: "[1 / 9, 1 :: real] \<noteq> []" by simp
  have h3: "AC_u0_loop (calculate_AC_u0 unmorphed [1 / 2] [1 / 9, 1] 0 1) 9999 ([1 / 9, 1] ! 0)
     = Some (Inr (1 / 9))"
    using unmorphed_loop[of "[1 / 9, 1]" 1 "[1 / 2]" 0] by simp
  have h4: "(1 :: real) = calculate_c_baseline unmorphed 1 [1 / 9, 1 / 2] [1 / 9, 1] 0"
    by (simp add: unmorphed_def)
  have h5: "0 < (1 :: real) / 1" by simp
  have h6: "(1 / 9 :: real) = sqrt (1 / 1) * [1 / 9, 1] ! 0" by simp
  have h7: "(1 :: nat) = length [1 / 2 :: real]" by simp
  have h8: "length [1 / 4 :: real] = 1" by simp
  have h9: "distinct [1 / 4 :: real]" by simp
  have h10: "\<forall>psi \<in> set [1 / 4 :: real]. 0 < psi \<and> psi < 1" by simp
  have e: "spec_bernstein_entry (Suc 0) (1 / 4) 0 = 1 / 4"
    by (simp add: spec_bernstein_entry_def)
  have v: "b_value 1 0 (2 / 9) (Suc 0) (1 / 4) (1 / 4) = 1 / 2"
    by (simp add: b_value_def sqrt_quarter)
  note t = backwards_linear_system[OF h1 h1 h3 h4 h5 h6 h7 h8 h9 h10]
  from t have m: "bernstein_matrix 1 [1 / 4] ! 0 ! 0 = spec_bernstein_entry 1 (1 / 4) 0"
    by simp
  from t obtain A_bar where l: "length A_bar = 1"
    and s: "\<forall>j < 1. (\<Sum>i < 1. spec_bernstein_entry 1 ([1 / 4] ! j) i * A_bar ! i) =
        b_value 1 0 (1 / 9 + 1 / 9) 1 ([1 / 4] ! j)
          (calculate_spar_distance unmorphed ([1 / 4] ! j) [1 / 9, 1 / 2] [1 / 9, 1] [1 / 9, 1]
             0 1)"
    and r: "calculate_dependent_shape_coefficients unmorphed [1 / 2] [1 / 4] [1 / 9, 1] [1 / 9, 1]
        0 1 ''backwards'' =
        Some (Inr ([1 / 9, 1 / 2], 1 / 9 # map2 (-) A_bar [1 / 2], 1,
          map (\<lambda>psi. calculate_spar_distance unmorphed psi [1 / 9, 1 / 2] [1 / 9, 1] [1 / 9, 1]
                        0 1) [1 / 4]))"
    by blast
  from s have "spec_bernstein_entry (Suc 0) (1 / 4) 0 * A_bar ! 0 =
      b_value 1 0 (2 / 9) (Suc 0) (1 / 4) (1 / 4)"
    by (simp add: ex_sd)
  then have "1 / 4 * A_bar ! 0 = 1 / 2" unfolding e v .
  then have "A_bar ! 0 = 2" by simp
  with l have "A_bar = [2]" by (cases A_bar) auto
  with r have "calculate_dependent_shape_coefficients unmorphed [1 / 2] [1 / 4] [1 / 9, 1]
      [1 / 9, 1] 0 1 ''backwards'' = Some (Inr ([1 / 9, 1 / 2], [1 / 9, 3 / 2], 1, [1 / 4]))"
    by (simp add: ex_sd)
  with m h3 h4[symmetric] show ?thesis by (simp add: ex_sd e v)
qed

section \<open>Facts about the solver with the inversion routine left open\<close>

lemma backwards_with_inv_np: "backwards_with inv_np = backwards"
  by (intro ext) (simp add: backwards_with_def backwards_def)

lemma forwards_with_inv_np: "forwards_with inv_np = forwards"
  by (intro ext) (simp add: forwards_with_def forwards_def)

lemma after_loop_with_inv_np: "after_loop_with inv_np = after_loop"
  by (intro ext)
    (simp add: after_loop_with_def after_loop_def backwards_with_inv_np forwards_with_inv_np
      Let_def)

lemma cdsc_with_inv_np:
  "calculate_dependent_shape_coefficients_with inv_np = calculate_dependent_shape_coefficients"
  by (intro ext)
    (simp add: calculate_dependent_shape_coefficients_with_def
      calculate_dependent_shape_coefficients_def after_loop_with_inv_np
      split: option.splits sum.splits)

lemma cdsc_with_of_loop:
  assumes "Au_P \<noteq> []"
    "AC_u0_loop (calculate_AC_u0 P fr Au_P dz c_P) 9999 (Au_P ! 0) = Some (Inr a)"
  shows "calculate_dependent_shape_coefficients_with linalg_inv P fr psis Au_P Al_P dz c_P m =
           Some (after_loop_with linalg_inv P fr psis Au_P Al_P dz c_P m a)"
  using assms unfolding calculate_dependent_shape_coefficients_with_def by simp

lemma after_loop_with_branch:
  assumes "0 < c_P / calculate_c_baseline P c_P (a # fr) Au_P dz" "Al_P \<noteq> []"
  shows "after_loop_with linalg_inv P fr psis Au_P Al_P dz c_P ''backwards'' a =
     backwards_with linalg_inv P psis (a # fr) Au_P Al_P dz c_P
       (calculate_c_baseline P c_P (a # fr) Au_P dz)
       (sqrt (c_P / calculate_c_baseline P c_P (a # fr) Au_P dz) * Al_P ! 0)
       (a + sqrt (c_P / calculate_c_baseline P c_P (a # fr) Au_P dz) * Al_P ! 0) (length fr)"
    and "after_loop_with linalg_inv P fr psis Au_P Al_P dz c_P ''forwards'' a =
     forwards_with linalg_inv P psis (a # fr) Au_P Al_P dz c_P
       (calculate_c_baseline P c_P (a # fr) Au_P dz)
       (sqrt (c_P / calculate_c_baseline P c_P (a # fr) Au_P dz) * Al_P ! 0) (length fr)"
proof -
  from assms(1) have "calculate_c_baseline P c_P (a # fr) Au_P dz \<noteq> 0" by auto
  with assms show
    "after_loop_with linalg_inv P fr psis Au_P Al_P dz c_P ''backwards'' a =
     backwards_with linalg_inv P psis (a # fr) Au_P Al_P dz c_P
       (calculate_c_baseline P c_P (a # fr) Au_P dz)
       (sqrt (c_P / calculate_c_baseline P c_P (a # fr) Au_P dz) * Al_P ! 0)
       (a + sqrt (c_P / calculate_c_baseline P c_P (a # fr) Au_P dz) * Al_P ! 0) (length fr)"
    "after_loop_with linalg_inv P fr psis Au_P Al_P dz c_P ''forwards'' a =
     forwards_with linalg_inv P psis (a # fr) Au_P Al_P dz c_P
       (calculate_c_baseline P c_P (a # fr) Au_P dz)
       (sqrt (c_P / calculate_c_baseline P c_P (a # fr) Au_P dz) * Al_P ! 0) (length fr)"
    by (simp_all add: after_loop_with_def Let_def not_less[symmetric] less_imp_le)
qed

lemma backwards_with_value:
  assumes "c_C \<noteq> 0" "\<forall>psi \<in> set psis. 0 < psi \<and> psi < 1" "length psis = n"
  shows "backwards_with linalg_inv P psis Au_C Au_P Al_P dz c_P c_C AC_l0 A0 n =
     (case linalg_inv (bernstein_matrix n psis) of
        Inl e \<Rightarrow> Inl e
      | Inr M \<Rightarrow>
          Inr (Au_C,
               AC_l0 # map (\<lambda>i. matvec M (map (\<lambda>psi. b_value c_C dz A0 n psi
                          (calculate_spar_distance P psi Au_C Au_P Al_P dz c_P)) psis) ! i
                        - Au_C ! (i + 1)) [0..<length M],
               c_C, map (\<lambda>psi. calculate_spar_distance P psi Au_C Au_P Al_P dz c_P) psis))"
  using assms(3)
  by (simp add: backwards_with_def b_loop_value[OF assms] Let_def matvec_def split: sum.splits)

lemma f_entry_value:
  "0 < p \<Longrightarrow> p \<noteq> 1 \<Longrightarrow> f_entry c_C dz AC_l0 n p x = Inr (f_value c_C dz AC_l0 n p x)"
  by (simp add: f_entry_def f_value_def)

lemma f_loop_value:
  assumes "c_P \<noteq> 0"
    and "\<forall>psi \<in> set psis. 0 \<le> psi \<and> 0 \<le> calculate_psi_goal P psi Au_P Au_C dz c_P c_C \<and>
           0 < psi_lower_child P Au_C Au_P Al_P dz c_P c_C psi \<and>
           psi_lower_child P Au_C Au_P Al_P dz c_P c_C psi \<noteq> 1"
    and "j + length psis \<le> length f"
  shows "f_loop P Au_C Au_P Al_P dz c_P c_C AC_l0 n psis j ts pl f =
     Inr (ts @ map (parent_vertical_thickness Au_P Al_P dz c_P) psis,
          pl @ map (psi_lower_child P Au_C Au_P Al_P dz c_P c_C) psis,
          take j f @
          map (\<lambda>psi. f_value c_C dz AC_l0 n (psi_lower_child P Au_C Au_P Al_P dz c_P c_C psi)
                       (xi_lower_child P Au_C Au_P Al_P dz c_P c_C psi)) psis @
          drop (j + length psis) f)"
  using assms(2,3)
proof (induction psis arbitrary: j ts pl f)
  case Nil
  then show ?case by simp
next
  case (Cons psi rest)
  let ?p = "psi_lower_child P Au_C Au_P Al_P dz c_P c_C psi"
  let ?x = "xi_lower_child P Au_C Au_P Al_P dz c_P c_C psi"
  let ?v = "f_value c_C dz AC_l0 n ?p ?x"
  from Cons.prems have j: "j < length f" and ps: "0 \<le> psi"
    and pg: "0 \<le> calculate_psi_goal P psi Au_P Au_C dz c_P c_C"
    and p: "0 < ?p" "?p \<noteq> 1" by auto
  have fe: "f_entry c_C dz AC_l0 n ?p ?x = Inr ?v" by (rule f_entry_value[OF p])
  have step: "f_loop P Au_C Au_P Al_P dz c_P c_C AC_l0 n (psi # rest) j ts pl f =
      f_loop P Au_C Au_P Al_P dz c_P c_C AC_l0 n rest (j + 1)
        (ts @ [parent_vertical_thickness Au_P Al_P dz c_P psi]) (pl @ [?p]) (f[j := ?v])"
    using assms(1) j ps pg fe
    by (simp add: Let_def psi_lower_child_def xi_lower_child_def parent_vertical_thickness_def
        not_less[symmetric])
  have r: "\<forall>q \<in> set rest. 0 \<le> q \<and> 0 \<le> calculate_psi_goal P q Au_P Au_C dz c_P c_C \<and>
           0 < psi_lower_child P Au_C Au_P Al_P dz c_P c_C q \<and>
           psi_lower_child P Au_C Au_P Al_P dz c_P c_C q \<noteq> 1"
    using Cons.prems(1) by simp
  have l: "(j + 1) + length rest \<le> length (f[j := ?v])" using Cons.prems(2) by simp
  have t: "take (j + 1) (f[j := ?v]) = take j f @ [?v]"
    using j by (simp add: take_Suc_conv_app_nth)
  have d: "drop (j + 1 + length rest) (f[j := ?v]) = drop (j + length (psi # rest)) f"
    by simp
  show ?case
    unfolding step Cons.IH[OF r l] t d by simp
qed

lemma forwards_with_value:
  assumes "c_P \<noteq> 0"
    and "\<forall>psi \<in> set psis. 0 \<le> psi \<and> 0 \<le> calculate_psi_goal P psi Au_P Au_C dz c_P c_C \<and>
           0 < psi_lower_child P Au_C Au_P Al_P dz c_P c_C psi \<and>
           psi_lower_child P Au_C Au_P Al_P dz c_P c_C psi \<noteq> 1"
    and "length psis = n"
  shows "forwards_with linalg_inv P psis Au_C Au_P Al_P dz c_P c_C AC_l0 n =
     (case linalg_inv (bernstein_matrix n
              (map (psi_lower_child P Au_C Au_P Al_P dz c_P c_C) psis)) of
        Inl e \<Rightarrow> Inl e
      | Inr M \<Rightarrow>
          Inr (Au_C,
               AC_l0 # matvec M (map (\<lambda>psi. f_value c_C dz AC_l0 n
                          (psi_lower_child P Au_C Au_P Al_P dz c_P c_C psi)
                          (xi_lower_child P Au_C Au_P Al_P dz c_P c_C psi)) psis),
               c_C, map (parent_vertical_thickness Au_P Al_P dz c_P) psis))"
proof -
  have "0 + length psis \<le> length (replicate n (0::real))" using assms(3) by simp
  from f_loop_value[OF assms(1,2) this, of AC_l0 n "[]" "[]"] assms(3)
  show ?thesis
    by (simp add: forwards_with_def Let_def map_nth split: sum.splits)
qed



section \<open>Lengths of the results\<close>






section \<open>Singular and ill-conditioned matrices\<close>

text \<open>
  Claim C6 does not hold as stated. With two spar stations close to \<open>0\<close> and to each
  other, \<open>1e-10\<close> and \<open>1e-10 + 1e-12\<close>, the matrix has a determinant below \<open>1e-30\<close>, yet the
  backwards solve returns a result, not a failure, and reports nothing. Whatever the
  inversion routine, the call on these stations ends in a failure exactly when the
  routine raises one for the matrix: the solver adds no report of its own.
\<close>

theorem near_singular_returns:
  "map_option isl
     (calculate_dependent_shape_coefficients unmorphed [1, 1]
        [1 / 10 ^ 10, 1 / 10 ^ 10 + 1 / 10 ^ 12] [1 / 9, 1, 1] [1 / 9, 1, 1] 0 1 ''backwards'')
     = Some False \<and>
   \<bar>bernstein_matrix 2 [1 / 10 ^ 10, 1 / 10 ^ 10 + 1 / 10 ^ 12] ! 0 ! 0
      * bernstein_matrix 2 [1 / 10 ^ 10, 1 / 10 ^ 10 + 1 / 10 ^ 12] ! 1 ! 1
    - bernstein_matrix 2 [1 / 10 ^ 10, 1 / 10 ^ 10 + 1 / 10 ^ 12] ! 0 ! 1
      * bernstein_matrix 2 [1 / 10 ^ 10, 1 / 10 ^ 10 + 1 / 10 ^ 12] ! 1 ! 0\<bar> < 1 / 10 ^ 30 \<and>
   (\<forall>linalg_inv.
      map_option isl
        (calculate_dependent_shape_coefficients_with linalg_inv unmorphed [1, 1]
           [1 / 10 ^ 10, 1 / 10 ^ 10 + 1 / 10 ^ 12] [1 / 9, 1, 1] [1 / 9, 1, 1] 0 1
           ''backwards'')
      = Some (isl (linalg_inv (bernstein_matrix 2 [1 / 10 ^ 10, 1 / 10 ^ 10 + 1 / 10 ^ 12]))))"
proof -
  have d: "\<bar>bernstein_matrix 2 [1 / 10 ^ 10, 1 / 10 ^ 10 + 1 / 10 ^ 12] ! 0 ! 0
      * bernstein_matrix 2 [1 / 10 ^ 10, 1 / 10 ^ 10 + 1 / 10 ^ 12] ! 1 ! 1
    - bernstein_matrix 2 [1 / 10 ^ 10, 1 / 10 ^ 10 + 1 / 10 ^ 12] ! 0 ! 1
      * bernstein_matrix 2 [1 / 10 ^ 10, 1 / 10 ^ 10 + 1 / 10 ^ 12] ! 1 ! 0\<bar> < 1 / 10 ^ 30"
    unfolding ex_near_singular_matrix by (simp add: power2_eq_square)
  have lp: "AC_u0_loop (calculate_AC_u0 unmorphed [1, 1] [1 / 9, 1, 1] 0 1) 9999
      ([1 / 9, 1, 1] ! 0) = Some (Inr ([1 / 9, 1, 1] ! 0))"
    by (rule unmorphed_loop) simp_all
  have pos: "0 < (1 :: real) / calculate_c_baseline unmorphed 1 (([1 / 9, 1, 1] ! 0) # [1, 1])
      [1 / 9, 1, 1] 0"
    by (simp add: unmorphed_def)
  have nz: "calculate_c_baseline unmorphed 1 (([1 / 9, 1, 1] ! 0) # [1, 1]) [1 / 9, 1, 1] 0 \<noteq> 0"
    by (simp add: unmorphed_def)
  have ne: "[1 / 9, 1, 1 :: real] \<noteq> []" by simp
  have int: "\<forall>psi \<in> set [1 / 10 ^ 10, 1 / 10 ^ 10 + 1 / 10 ^ 12 :: real]. 0 < psi \<and> psi < 1"
    by simp
  have len: "length [1 / 10 ^ 10, 1 / 10 ^ 10 + 1 / 10 ^ 12 :: real] = length [1, 1 :: real]"
    by simp
  have dis: "distinct [1 / 10 ^ 10, 1 / 10 ^ 10 + 1 / 10 ^ 12 :: real]" by simp
  from after_loop_backwards_returns[OF pos ne int len dis] obtain Al_C ts where
    "after_loop unmorphed [1, 1] [1 / 10 ^ 10, 1 / 10 ^ 10 + 1 / 10 ^ 12] [1 / 9, 1, 1]
       [1 / 9, 1, 1] 0 1 ''backwards'' ([1 / 9, 1, 1] ! 0) =
     Inr (([1 / 9, 1, 1] ! 0) # [1, 1], Al_C,
          calculate_c_baseline unmorphed 1 (([1 / 9, 1, 1] ! 0) # [1, 1]) [1 / 9, 1, 1] 0, ts)"
    by blast
  with cdsc_of_loop[OF ne lp, of "[1 / 10 ^ 10, 1 / 10 ^ 10 + 1 / 10 ^ 12]" "[1 / 9, 1, 1]"
      "''backwards''"]
  have r: "map_option isl
     (calculate_dependent_shape_coefficients unmorphed [1, 1]
        [1 / 10 ^ 10, 1 / 10 ^ 10 + 1 / 10 ^ 12] [1 / 9, 1, 1] [1 / 9, 1, 1] 0 1 ''backwards'')
     = Some False"
    by simp
  have w: "map_option isl
        (calculate_dependent_shape_coefficients_with linalg_inv unmorphed [1, 1]
           [1 / 10 ^ 10, 1 / 10 ^ 10 + 1 / 10 ^ 12] [1 / 9, 1, 1] [1 / 9, 1, 1] 0 1
           ''backwards'')
      = Some (isl (linalg_inv (bernstein_matrix 2 [1 / 10 ^ 10, 1 / 10 ^ 10 + 1 / 10 ^ 12])))"
    for linalg_inv
  proof -
    have l2: "length [1 / 10 ^ 10, 1 / 10 ^ 10 + 1 / 10 ^ 12 :: real] = length [1, 1 :: real]"
      by simp
    show ?thesis
      unfolding cdsc_with_of_loop[OF ne lp] after_loop_with_branch(1)[OF pos ne]
        backwards_with_value[OF nz int l2]
      by (cases "linalg_inv (bernstein_matrix (length [1, 1 :: real])
                   [1 / 10 ^ 10, 1 / 10 ^ 10 + 1 / 10 ^ 12])")
        (simp_all add: numeral_2_eq_2)
  qed
  from r d w show ?thesis by blast
qed

text \<open>
  Claim C6, amended. The solver has no failure of its own for a singular or an
  ill-conditioned matrix and makes no test of the matrix it assembles: it hands the
  matrix to the inversion routine and uses whatever comes back. With the fixed-point
  loop ended at \<open>AC_u0\<close> and a positive chord ratio, for any inversion routine: an
  exception raised by the routine reaches the caller unchanged, and a matrix \<open>M\<close>
  returned by it, whether or not it is an inverse, gives the child lower coefficients
  \<open>AC_l0\<close> followed by \<open>(M b)[i] - Au_C[i+1]\<close> in backwards mode and by \<open>(M f)[i]\<close> in
  forwards mode, with no report. The spar stations may be repeated.
\<close>

theorem inverse_unchecked:
  assumes "Au_P \<noteq> []" and "Al_P \<noteq> []"
    and "AC_u0_loop (calculate_AC_u0 P Au_C_1_to_n Au_P deltaz c_P) 9999 (Au_P ! 0)
           = Some (Inr AC_u0)"
    and "c_C = calculate_c_baseline P c_P (AC_u0 # Au_C_1_to_n) Au_P deltaz"
    and "0 < c_P / c_C"
    and "AC_l0 = sqrt (c_P / c_C) * Al_P ! 0"
    and "n = length Au_C_1_to_n"
    and "length psi_spars = n"
  shows "((\<forall>psi \<in> set psi_spars. 0 < psi \<and> psi < 1) \<and>
          (\<forall>M. linalg_inv (bernstein_matrix n psi_spars) = Inr M \<longrightarrow> length M = n) \<longrightarrow>
          calculate_dependent_shape_coefficients_with linalg_inv P Au_C_1_to_n psi_spars Au_P Al_P
            deltaz c_P ''backwards'' =
          Some (case linalg_inv (bernstein_matrix n psi_spars) of
                  Inl e \<Rightarrow> Inl e
                | Inr M \<Rightarrow>
                    Inr (AC_u0 # Au_C_1_to_n,
                         AC_l0 # map2 (-)
                           (matvec M (map (\<lambda>psi. b_value c_C deltaz (AC_u0 + AC_l0) n psi
                              (calculate_spar_distance P psi (AC_u0 # Au_C_1_to_n) Au_P Al_P
                                 deltaz c_P)) psi_spars))
                           Au_C_1_to_n,
                         c_C,
                         map (\<lambda>psi. calculate_spar_distance P psi (AC_u0 # Au_C_1_to_n) Au_P Al_P
                                       deltaz c_P) psi_spars))) \<and>
         ((\<forall>psi \<in> set psi_spars. 0 \<le> psi \<and>
             0 \<le> calculate_psi_goal P psi Au_P (AC_u0 # Au_C_1_to_n) deltaz c_P c_C \<and>
             0 < psi_lower_child P (AC_u0 # Au_C_1_to_n) Au_P Al_P deltaz c_P c_C psi \<and>
             psi_lower_child P (AC_u0 # Au_C_1_to_n) Au_P Al_P deltaz c_P c_C psi \<noteq> 1) \<longrightarrow>
          calculate_dependent_shape_coefficients_with linalg_inv P Au_C_1_to_n psi_spars Au_P Al_P
            deltaz c_P ''forwards'' =
          Some (case linalg_inv (bernstein_matrix n
                       (map (psi_lower_child P (AC_u0 # Au_C_1_to_n) Au_P Al_P deltaz c_P c_C)
                          psi_spars)) of
                  Inl e \<Rightarrow> Inl e
                | Inr M \<Rightarrow>
                    Inr (AC_u0 # Au_C_1_to_n,
                         AC_l0 # matvec M (map (\<lambda>psi. f_value c_C deltaz AC_l0 n
                              (psi_lower_child P (AC_u0 # Au_C_1_to_n) Au_P Al_P deltaz c_P c_C psi)
                              (xi_lower_child P (AC_u0 # Au_C_1_to_n) Au_P Al_P deltaz c_P c_C psi))
                            psi_spars),
                         c_C,
                         map (parent_vertical_thickness Au_P Al_P deltaz c_P) psi_spars)))"
proof -
  let ?Au_C = "AC_u0 # Au_C_1_to_n"
  let ?B = "bernstein_matrix n psi_spars"
  let ?b = "map (\<lambda>psi. b_value c_C deltaz (AC_u0 + AC_l0) n psi
              (calculate_spar_distance P psi ?Au_C Au_P Al_P deltaz c_P)) psi_spars"
  let ?ts = "map (\<lambda>psi. calculate_spar_distance P psi ?Au_C Au_P Al_P deltaz c_P) psi_spars"
  from assms(5) have nz: "c_C \<noteq> 0" and cz: "c_P \<noteq> 0" by auto
  have pos: "0 < c_P / calculate_c_baseline P c_P ?Au_C Au_P deltaz"
    using assms(5) unfolding assms(4) .
  note lp = cdsc_with_of_loop[OF assms(1,3), of linalg_inv psi_spars Al_P]
  note br = after_loop_with_branch[OF pos assms(2), of linalg_inv psi_spars]
  have b1: "calculate_dependent_shape_coefficients_with linalg_inv P Au_C_1_to_n psi_spars Au_P
      Al_P deltaz c_P ''backwards'' =
      Some (backwards_with linalg_inv P psi_spars ?Au_C Au_P Al_P deltaz c_P c_C AC_l0
              (AC_u0 + AC_l0) n)"
    unfolding lp assms(6) assms(4) assms(7) br(1) ..
  have f1: "calculate_dependent_shape_coefficients_with linalg_inv P Au_C_1_to_n psi_spars Au_P
      Al_P deltaz c_P ''forwards'' =
      Some (forwards_with linalg_inv P psi_spars ?Au_C Au_P Al_P deltaz c_P c_C AC_l0 n)"
    unfolding lp assms(6) assms(4) assms(7) br(2) ..
  have 1: "calculate_dependent_shape_coefficients_with linalg_inv P Au_C_1_to_n psi_spars Au_P
            Al_P deltaz c_P ''backwards'' =
          Some (case linalg_inv ?B of
                  Inl e \<Rightarrow> Inl e
                | Inr M \<Rightarrow>
                    Inr (?Au_C, AC_l0 # map2 (-) (matvec M ?b) Au_C_1_to_n, c_C, ?ts))"
    if int: "\<forall>psi \<in> set psi_spars. 0 < psi \<and> psi < 1"
      and sh: "\<forall>M. linalg_inv ?B = Inr M \<longrightarrow> length M = n"
  proof (cases "linalg_inv ?B")
    case (Inl e)
    show ?thesis
      unfolding b1 backwards_with_value[OF nz int assms(8)] Inl by simp
  next
    case (Inr M)
    with sh have lM: "length M = n" by simp
    have lv: "length (matvec M ?b) = n" using lM by (simp add: matvec_def)
    have lf: "length Au_C_1_to_n = n" using assms(7) by simp
    have "map (\<lambda>i. matvec M ?b ! i - ?Au_C ! (i + 1)) [0..<length M] =
        map (\<lambda>i. matvec M ?b ! i - Au_C_1_to_n ! i) [0..<n]"
      unfolding lM by simp
    also have "\<dots> = map2 (-) (matvec M ?b) Au_C_1_to_n"
      by (rule map2_minus_nth[OF lv lf])
    finally have conv: "map (\<lambda>i. matvec M ?b ! i - ?Au_C ! (i + 1)) [0..<length M] =
        map2 (-) (matvec M ?b) Au_C_1_to_n" .
    show ?thesis
      using conv unfolding b1 backwards_with_value[OF nz int assms(8)] Inr by simp
  qed
  have 2: "calculate_dependent_shape_coefficients_with linalg_inv P Au_C_1_to_n psi_spars Au_P
            Al_P deltaz c_P ''forwards'' =
          Some (case linalg_inv (bernstein_matrix n
                       (map (psi_lower_child P ?Au_C Au_P Al_P deltaz c_P c_C) psi_spars)) of
                  Inl e \<Rightarrow> Inl e
                | Inr M \<Rightarrow>
                    Inr (?Au_C,
                         AC_l0 # matvec M (map (\<lambda>psi. f_value c_C deltaz AC_l0 n
                              (psi_lower_child P ?Au_C Au_P Al_P deltaz c_P c_C psi)
                              (xi_lower_child P ?Au_C Au_P Al_P deltaz c_P c_C psi)) psi_spars),
                         c_C,
                         map (parent_vertical_thickness Au_P Al_P deltaz c_P) psi_spars))"
    if h: "\<forall>psi \<in> set psi_spars. 0 \<le> psi \<and>
             0 \<le> calculate_psi_goal P psi Au_P ?Au_C deltaz c_P c_C \<and>
             0 < psi_lower_child P ?Au_C Au_P Al_P deltaz c_P c_C psi \<and>
             psi_lower_child P ?Au_C Au_P Al_P deltaz c_P c_C psi \<noteq> 1"
    unfolding f1 forwards_with_value[OF cz h assms(8)] ..
  from 1 2 show ?thesis by blast
qed

theorem inverse_unchecked_witness:
  "AC_u0_loop (calculate_AC_u0 unmorphed [1, 1] [1 / 9, 1, 1] 0 1) 9999 ([1 / 9, 1, 1] ! 0)
     = Some (Inr (1 / 9)) \<and>
   calculate_c_baseline unmorphed 1 [1 / 9, 1, 1] [1 / 9, 1, 1] 0 = 1 \<and>
   length [1 / 4, 1 / 4 :: real] = length [1, 1 :: real] \<and> \<not> distinct [1 / 4, 1 / 4 :: real] \<and>
   0 < (1 / 4 :: real) \<and> (1 / 4 :: real) < 1 \<and>
   calculate_dependent_shape_coefficients_with (\<lambda>B. Inr [ [0, 0], [0, 0] ]) unmorphed [1, 1]
     [1 / 4, 1 / 4] [1 / 9, 1, 1] [1 / 9, 1, 1] 0 1 ''backwards'' =
     Some (Inr ([1 / 9, 1, 1], [1 / 9, - 1, - 1], 1,
       [calculate_spar_distance unmorphed (1 / 4) [1 / 9, 1, 1] [1 / 9, 1, 1] [1 / 9, 1, 1] 0 1,
        calculate_spar_distance unmorphed (1 / 4) [1 / 9, 1, 1] [1 / 9, 1, 1] [1 / 9, 1, 1] 0 1])) \<and>
   inv_np (bernstein_matrix 2 [1 / 4, 1 / 4]) = Inl LinAlgError \<and>
   calculate_dependent_shape_coefficients_with inv_np unmorphed [1, 1]
     [1 / 4, 1 / 4] [1 / 9, 1, 1] [1 / 9, 1, 1] 0 1 ''backwards'' = Some (Inl LinAlgError) \<and>
   AC_u0_loop (calculate_AC_u0 unmorphed [1] [1 / 9, 1] 0 1) 9999 ([1 / 9, 1] ! 0)
     = Some (Inr (1 / 9)) \<and>
   calculate_psi_goal unmorphed (1 / 4) [1 / 9, 1] [1 / 9, 1] 0 1 1 = 1 / 4 \<and>
   psi_lower_child unmorphed [1 / 9, 1] [1 / 9, 1] [1 / 9, 1] 0 1 1 (1 / 4) = 1 / 4 \<and>
   inv_np (bernstein_matrix 1 [1 / 4]) = Inr [ [4] ] \<and>
   calculate_dependent_shape_coefficients_with inv_np unmorphed [1] [1 / 4] [1 / 9, 1] [1 / 9, 1]
     0 1 ''forwards'' = Some (Inr ([1 / 9, 1], [1 / 9, 1], 1, [1 / 4]))"
proof -
  have ne3: "[1 / 9, 1, 1 :: real] \<noteq> []" by simp
  have lp3: "AC_u0_loop (calculate_AC_u0 unmorphed [1, 1] [1 / 9, 1, 1] 0 1) 9999
      ([1 / 9, 1, 1] ! 0) = Some (Inr (1 / 9))"
    using unmorphed_loop[of "[1 / 9, 1, 1]" 1 "[1, 1]" 0] by simp
  have cb3: "(1 :: real) = calculate_c_baseline unmorphed 1 (1 / 9 # [1, 1]) [1 / 9, 1, 1] 0"
    by (simp add: unmorphed_def)
  have pos: "0 < (1 :: real) / 1" by simp
  have l03: "(1 / 9 :: real) = sqrt (1 / 1) * [1 / 9, 1, 1] ! 0" by simp
  have n2: "(2 :: nat) = length [1, 1 :: real]" by simp
  have len2: "length [1 / 4, 1 / 4 :: real] = 2" by simp
  have int2: "\<forall>psi \<in> set [1 / 4, 1 / 4 :: real]. 0 < psi \<and> psi < 1" by simp
  have sing: "inv_np (bernstein_matrix 2 [1 / 4, 1 / 4]) = Inl LinAlgError"
    by (rule inv_np_repeated_station) simp_all
  note a = inverse_unchecked[OF ne3 ne3 lp3 cb3 pos l03 n2 len2,
      of "\<lambda>B. Inr [ [0, 0], [0, 0] ]"]
  from a int2 have ra:
    "calculate_dependent_shape_coefficients_with (\<lambda>B. Inr [ [0, 0], [0, 0] ]) unmorphed [1, 1]
     [1 / 4, 1 / 4] [1 / 9, 1, 1] [1 / 9, 1, 1] 0 1 ''backwards'' =
     Some (Inr ([1 / 9, 1, 1], [1 / 9, - 1, - 1], 1,
       [calculate_spar_distance unmorphed (1 / 4) [1 / 9, 1, 1] [1 / 9, 1, 1] [1 / 9, 1, 1] 0 1,
        calculate_spar_distance unmorphed (1 / 4) [1 / 9, 1, 1] [1 / 9, 1, 1] [1 / 9, 1, 1] 0 1]))"
    by (simp add: matvec_def)
  note b = inverse_unchecked[OF ne3 ne3 lp3 cb3 pos l03 n2 len2, of inv_np]
  from b int2 sing have rb:
    "calculate_dependent_shape_coefficients_with inv_np unmorphed [1, 1]
     [1 / 4, 1 / 4] [1 / 9, 1, 1] [1 / 9, 1, 1] 0 1 ''backwards'' = Some (Inl LinAlgError)"
    by simp
  have ne2: "[1 / 9, 1 :: real] \<noteq> []" by simp
  have cb2: "(1 :: real) = calculate_c_baseline unmorphed 1 (1 / 9 # [1]) [1 / 9, 1] 0"
    by (simp add: unmorphed_def)
  have l02: "(1 / 9 :: real) = sqrt (1 / 1) * [1 / 9, 1] ! 0" by simp
  have n1: "(1 :: nat) = length [1 :: real]" by simp
  have len1: "length [1 / 4 :: real] = 1" by simp
  have pg: "calculate_psi_goal unmorphed (1 / 4) [1 / 9, 1] [1 / 9, 1] 0 1 1 = 1 / 4"
    by (simp add: unmorphed_def)
  have pl: "psi_lower_child unmorphed [1 / 9, 1] [1 / 9, 1] [1 / 9, 1] 0 1 1 (1 / 4) = 1 / 4"
    by (simp add: psi_lower_child_def unmorphed_def)
  have xi: "xi_lower_child unmorphed [1 / 9, 1] [1 / 9, 1] [1 / 9, 1] 0 1 1 (1 / 4) = - (1 / 8)"
    by (simp add: xi_lower_child_def unmorphed_def CST_u_def CST_l_def CST_shape_2 sqrt_quarter)
  have fv: "f_value 1 0 (1 / 9) (Suc 0) (1 / 4) (- (1 / 8)) = 1 / 4"
    by (simp add: f_value_def sqrt_quarter)
  have pv: "parent_vertical_thickness [1 / 9, 1] [1 / 9, 1] 0 1 (1 / 4) = 1 / 4"
    by (simp add: parent_vertical_thickness_def CST_u_def CST_l_def CST_shape_2 sqrt_quarter)
  have iv: "inv_np (bernstein_matrix (Suc 0) [1 / 4]) = Inr [ [4] ]"
    by (simp add: ex_bernstein ex_inv)
  note c = inverse_unchecked[OF ne2 ne2 ex_loop cb2 pos l02 n1 len1, of inv_np]
  from c pg pl have rc:
    "calculate_dependent_shape_coefficients_with inv_np unmorphed [1] [1 / 4] [1 / 9, 1] [1 / 9, 1]
     0 1 ''forwards'' = Some (Inr ([1 / 9, 1], [1 / 9, 1], 1, [1 / 4]))"
    by (simp add: xi fv pv iv matvec_def)
  from ra rb rc lp3 cb3[symmetric] sing ex_loop pg pl iv show ?thesis by simp
qed

end
